(* ===== verification/JS_Prelude.thy ===== *)
theory JS_Prelude
  imports Main "HOL-Library.Word"
begin

text \<open>
  Shared vocabulary of the development.

  \<^item> JavaScript strings are sequences of UTF-16 code units, so a string is a list of
    16-bit words (\<open>jsstring\<close>); the bytes of a file are 8-bit words. Source literals
    are ASCII and enter the model through \<open>js\<close>.
  \<^item> A JavaScript exception is a value of \<open>js_error\<close>; an operation that can throw
    returns \<open>js_error + 'a\<close> with \<open>Inl\<close> for the exception.
  \<^item> The collection \<open>eval_simps\<close> holds the definitions that have to be unfolded
    to evaluate a closed term of the model; \<open>wf_simps\<close> holds the definitions of
    the well-formedness predicates.
  \<^item> The list lemmas are the facts about cutting a list at the first occurrence
    of a separator that the string component and its clients share.
\<close>

unbundle bit_operations_syntax

named_theorems eval_simps "definitions unfolded to evaluate closed terms of the model"
named_theorems wf_simps "definitions of the well-formedness predicates"

section \<open>Strings, bytes and exceptions\<close>

type_synonym code_unit = "16 word"
type_synonym jsstring = "code_unit list"
type_synonym byte = "8 word"

datatype js_error = TypeError | QuotaExceededError | InvalidStateError

type_synonym 'a outcome = "js_error + 'a"

definition js :: "string \<Rightarrow> jsstring" where
  "js s = map of_char s"

definition is_ascii :: "jsstring \<Rightarrow> bool" where
  "is_ascii s = list_all (\<lambda>c. c < 0x100) s"

declare js_def [eval_simps]
declare is_ascii_def [wf_simps]

lemma js_Nil [simp]: "js [] = []"
  by (simp add: js_def)

lemma js_Cons: "js (c # s) = of_char c # js s"
  by (simp add: js_def)

lemma js_append [simp]: "js (s @ t) = js s @ js t"
  by (simp add: js_def)

lemma length_js [simp]: "length (js s) = length s"
  by (simp add: js_def)

lemma unat_of_char_word16: "unat (of_char c :: code_unit) = of_char c"
proof -
  have "(of_char c :: nat) < 2 ^ 16"
    by (rule less_trans [OF nat_of_char_less_256]) simp
  then have "take_bit 16 (of_char c :: nat) = of_char c"
    by (simp add: take_bit_nat_eq_self_iff)
  moreover have "(of_char c :: code_unit) = of_nat (of_char c)"
    by (simp add: of_nat_of_char)
  ultimately show ?thesis
    by (simp add: unat_of_nat take_bit_eq_mod)
qed

lemma of_char_word16_inject [simp]:
  "(of_char c :: code_unit) = of_char d \<longleftrightarrow> c = d"
proof
  assume "(of_char c :: code_unit) = of_char d"
  then have "unat (of_char c :: code_unit) = unat (of_char d :: code_unit)"
    by simp
  then show "c = d"
    by (simp add: unat_of_char_word16)
qed simp

lemma inj_of_char_word16: "inj (of_char :: char \<Rightarrow> code_unit)"
  by (rule injI) simp

lemma js_inject [simp]: "js s = js t \<longleftrightarrow> s = t"
  unfolding js_def by (rule inj_map_eq_map [OF inj_of_char_word16])

lemma of_char_word16_less: "(of_char c :: code_unit) < 0x100"
proof -
  have "unat (of_char c :: code_unit) < unat (0x100 :: code_unit)"
    by (simp add: unat_of_char_word16)
  then show ?thesis
    by (simp only: word_less_nat_alt)
qed

lemma is_ascii_js [simp]: "is_ascii (js s)"
  by (induction s) (simp_all add: is_ascii_def js_Cons of_char_word16_less)

section \<open>Cutting a list at a separator\<close>

lemma takeWhile_neq_absent [simp]:
  "c \<notin> set xs \<Longrightarrow> takeWhile (\<lambda>x. x \<noteq> c) xs = xs"
  by (induction xs) auto

lemma dropWhile_neq_absent [simp]:
  "c \<notin> set xs \<Longrightarrow> dropWhile (\<lambda>x. x \<noteq> c) xs = []"
  by (induction xs) auto

lemma takeWhile_neq_first [simp]:
  "c \<notin> set xs \<Longrightarrow> takeWhile (\<lambda>x. x \<noteq> c) (xs @ c # ys) = xs"
  by (induction xs) auto

lemma dropWhile_neq_first [simp]:
  "c \<notin> set xs \<Longrightarrow> dropWhile (\<lambda>x. x \<noteq> c) (xs @ c # ys) = c # ys"
  by (induction xs) auto

lemma dropWhile_neq_present:
  "c \<in> set xs \<Longrightarrow> \<exists>ys. dropWhile (\<lambda>x. x \<noteq> c) xs = c # ys"
  by (induction xs) auto

lemma dropWhile_Cons_shorter:
  "dropWhile P xs = y # ys \<Longrightarrow> length ys < length xs"
  using length_dropWhile_le [of P xs] by simp

lemma takeWhile_neq_sep_free [simp]: "c \<notin> set (takeWhile (\<lambda>x. x \<noteq> c) xs)"
  by (induction xs) auto

lemma cut_at_first:
  "dropWhile (\<lambda>x. x \<noteq> c) xs = y # ys \<Longrightarrow> xs = takeWhile (\<lambda>x. x \<noteq> c) xs @ c # ys"
proof -
  assume d: "dropWhile (\<lambda>x. x \<noteq> c) xs = y # ys"
  then have "\<not> y \<noteq> c"
    using hd_dropWhile [of "\<lambda>x. x \<noteq> c" xs] by simp
  with d show ?thesis
    using takeWhile_dropWhile_id [of "\<lambda>x. x \<noteq> c" xs] by simp
qed

text \<open>
  Every list either does not contain the separator, or is a separator-free head,
  the separator, and a rest: the induction principle behind all facts about
  splitting.
\<close>

lemma sep_induct [case_names absent first]:
  assumes absent: "\<And>s. c \<notin> set s \<Longrightarrow> P s"
    and first: "\<And>h t. c \<notin> set h \<Longrightarrow> P t \<Longrightarrow> P (h @ c # t)"
  shows "P s"
proof (induction s rule: length_induct)
  case (1 s)
  show ?case
  proof (cases "c \<in> set s")
    case False
    then show ?thesis by (rule absent)
  next
    case True
    then obtain h t where s: "s = h @ c # t" and h: "c \<notin> set h"
      by (auto dest: split_list_first)
    from s 1 have "P t" by simp
    with h show ?thesis unfolding s by (rule first)
  qed
qed

end
