(* ===== verification/JS_String.thy ===== *)
theory JS_String
  imports JS_Prelude
begin

text \<open>
  The two string operations the handler applies to the data URL it receives:
  \<open>String.prototype.split\<close> with a separator of one code unit and no limit
  (\<open>js_split\<close>), and the index access on the resulting array (\<open>js_index\<close>), which
  yields \<open>undefined\<close> (\<open>None\<close>) outside the array instead of failing.
  \<open>js_join\<close> is \<open>Array.prototype.join\<close> on arrays of strings; it states what
  splitting loses (nothing) and is not called by the program.

  The lemmas give \<open>js_split\<close> by cases (no separator; a first separator), the
  number and shape of the pieces, termination (by the length of the string that is
  left), and the round trips with \<open>js_join\<close>.
\<close>

section \<open>Definitions\<close>

definition comma :: code_unit where
  "comma = 0x2C"

function js_split :: "'a \<Rightarrow> 'a list \<Rightarrow> 'a list list" where
  "js_split sep s =
     (case dropWhile (\<lambda>c. c \<noteq> sep) s of
        [] \<Rightarrow> [s]
      | _ # rest \<Rightarrow> takeWhile (\<lambda>c. c \<noteq> sep) s # js_split sep rest)"
  by pat_completeness auto
termination
  by (relation "measure (\<lambda>(sep, s). length s)") (auto dest: dropWhile_Cons_shorter)

definition js_index :: "'a list \<Rightarrow> nat \<Rightarrow> 'a option" where
  "js_index xs i = (if i < length xs then Some (xs ! i) else None)"

fun js_join :: "'a \<Rightarrow> 'a list list \<Rightarrow> 'a list" where
  "js_join sep [] = []"
| "js_join sep [p] = p"
| "js_join sep (p # q # ps) = p @ sep # js_join sep (q # ps)"

declare js_split.simps [simp del]
declare comma_def [eval_simps]

section \<open>Splitting by cases\<close>

lemma js_split_absent [simp]: "sep \<notin> set s \<Longrightarrow> js_split sep s = [s]"
  by (subst js_split.simps) simp

lemma js_split_first [simp]:
  "sep \<notin> set h \<Longrightarrow> js_split sep (h @ sep # t) = h # js_split sep t"
  by (subst js_split.simps) simp

lemma js_split_Nil [simp]: "js_split sep [] = [[]]"
  by simp

lemma js_split_sep_Cons [simp]: "js_split sep (sep # t) = [] # js_split sep t"
  using js_split_first [of sep "[]" t] by simp

lemma js_split_Cons:
  "js_split sep (c # cs) =
     (if c = sep then [] # js_split sep cs
      else (case js_split sep cs of [] \<Rightarrow> [[c]] | p # ps \<Rightarrow> (c # p) # ps))"
proof (cases "c = sep")
  case True
  then show ?thesis by simp
next
  case False
  show ?thesis
  proof (cases "sep \<in> set cs")
    case True
    then obtain h t where cs: "cs = h @ sep # t" and h: "sep \<notin> set h"
      by (auto dest: split_list_first)
    from False h have "sep \<notin> set (c # h)" by auto
    then have "js_split sep ((c # h) @ sep # t) = (c # h) # js_split sep t"
      by (rule js_split_first)
    with False h show ?thesis by (simp add: cs)
  next
    case False
    with \<open>c \<noteq> sep\<close> show ?thesis by simp
  qed
qed

lemmas js_split_eval [eval_simps] = js_split_Cons

section \<open>The pieces\<close>

lemma js_split_not_Nil [simp]: "js_split sep s \<noteq> []"
  by (induction s rule: sep_induct [of sep]) simp_all

lemma length_js_split: "length (js_split sep s) = Suc (count_list s sep)"
  by (induction s rule: sep_induct [of sep]) (simp_all add: count_list_0_iff)

lemma js_split_sep_free: "p \<in> set (js_split sep s) \<Longrightarrow> sep \<notin> set p"
  by (induction s rule: sep_induct [of sep]) auto

lemma hd_js_split: "hd (js_split sep s) = takeWhile (\<lambda>c. c \<noteq> sep) s"
  by (induction s rule: sep_induct [of sep]) simp_all

lemma concat_js_split: "concat (js_split sep s) = filter (\<lambda>c. c \<noteq> sep) s"
proof (induction s rule: sep_induct [of sep])
  case (absent s)
  then have "filter (\<lambda>c. c \<noteq> sep) s = s"
    by (auto intro: filter_True)
  with absent show ?case by simp
next
  case (first h t)
  from first(1) have "filter (\<lambda>c. c \<noteq> sep) h = h"
    by (auto intro: filter_True)
  with first show ?case by simp
qed

section \<open>Round trips with join\<close>

lemma js_join_Cons: "ps \<noteq> [] \<Longrightarrow> js_join sep (p # ps) = p @ sep # js_join sep ps"
  by (cases ps) simp_all

lemma js_join_Nil_iff: "js_join sep (p # ps) = [] \<longleftrightarrow> p = [] \<and> ps = []"
  by (cases ps) simp_all

lemma js_join_split [simp]: "js_join sep (js_split sep s) = s"
  by (induction s rule: sep_induct [of sep]) (simp_all add: js_join_Cons)

lemma js_split_join:
  "ps \<noteq> [] \<Longrightarrow> \<forall>p \<in> set ps. sep \<notin> set p \<Longrightarrow> js_split sep (js_join sep ps) = ps"
proof (induction ps rule: js_join.induct [of _ sep])
  case (3 p q ps)
  then show ?case by simp
qed simp_all

section \<open>Index access\<close>

lemma js_index_Some_iff: "js_index xs i = Some x \<longleftrightarrow> i < length xs \<and> xs ! i = x"
  by (auto simp: js_index_def)

lemma js_index_None_iff: "js_index xs i = None \<longleftrightarrow> length xs \<le> i"
  by (auto simp: js_index_def)

lemma js_index_Cons_0 [simp]: "js_index (x # xs) 0 = Some x"
  by (simp add: js_index_def)

lemma js_index_Cons_Suc [simp]: "js_index (x # xs) (Suc i) = js_index xs i"
  by (simp add: js_index_def)

lemma js_index_Nil [simp]: "js_index [] i = None"
  by (simp add: js_index_def)

lemma js_index_in_set: "js_index xs i = Some x \<Longrightarrow> x \<in> set xs"
  by (auto simp: js_index_def split: if_splits)

end
