(* ===== verification/Base64.thy ===== *)
theory Base64
  imports JS_String
begin

text \<open>
  The base64 encoding (RFC 4648, with padding) in which \<open>readAsDataURL\<close> delivers
  the bytes of a file. Three bytes become four digits of six bits each; one or two
  bytes left at the end become two or three digits and padding.

  \<open>base64_encode\<close> works on 8-bit words with shifts and masks, the way the
  encoding is defined; \<open>base64_digit\<close> looks a 6-bit value up in the alphabet.

  Lemmas: the length of the output, the code units it can contain (so it never
  contains a comma, which is what the page's \<open>split\<close> relies on), and that it is
  plain ASCII.
\<close>

section \<open>Definitions\<close>

definition base64_alphabet :: jsstring where
  "base64_alphabet =
     js ''ABCDEFGHIJKLMNOPQRSTUVWXYZabcdefghijklmnopqrstuvwxyz0123456789+/''"

definition pad :: code_unit where
  "pad = 0x3D"

definition base64_digit :: "byte \<Rightarrow> code_unit" where
  "base64_digit v = base64_alphabet ! unat (v AND 0x3F)"

fun base64_encode :: "byte list \<Rightarrow> jsstring" where
  "base64_encode (a # b # c # bs) =
     [base64_digit (drop_bit 2 a),
      base64_digit (push_bit 4 (a AND 3) OR drop_bit 4 b),
      base64_digit (push_bit 2 (b AND 0xF) OR drop_bit 6 c),
      base64_digit (c AND 0x3F)] @ base64_encode bs"
| "base64_encode [a, b] =
     [base64_digit (drop_bit 2 a),
      base64_digit (push_bit 4 (a AND 3) OR drop_bit 4 b),
      base64_digit (push_bit 2 (b AND 0xF)),
      pad]"
| "base64_encode [a] =
     [base64_digit (drop_bit 2 a),
      base64_digit (push_bit 4 (a AND 3)),
      pad, pad]"
| "base64_encode [] = []"

lemmas base64_defs [eval_simps] = base64_alphabet_def pad_def base64_digit_def

section \<open>The alphabet\<close>

lemma length_base64_alphabet [simp]: "length base64_alphabet = 64"
  by (simp add: base64_alphabet_def)

lemma unat_sextet_less: "unat (v AND 0x3F :: byte) < 64"
proof -
  have "v AND 0x3F \<le> 0x3F"
    by (rule word_and_le1)
  then have "unat (v AND 0x3F) \<le> unat (0x3F :: byte)"
    by (simp only: word_le_nat_alt)
  then show ?thesis by simp
qed

lemma base64_digit_in_alphabet [simp]: "base64_digit v \<in> set base64_alphabet"
  unfolding base64_digit_def by (rule nth_mem) (simp add: unat_sextet_less)

lemma comma_not_in_alphabet [simp]: "comma \<notin> set base64_alphabet"
  by (simp add: base64_alphabet_def comma_def js_def)

lemma pad_not_in_alphabet [simp]: "pad \<notin> set base64_alphabet"
  by (simp add: base64_alphabet_def pad_def js_def)

lemma comma_not_pad [simp]: "comma \<noteq> pad"
  by (simp add: comma_def pad_def)

section \<open>The output\<close>

lemma set_base64_encode: "set (base64_encode bs) \<subseteq> insert pad (set base64_alphabet)"
  by (induction bs rule: base64_encode.induct) auto

lemma comma_not_in_base64 [simp]: "comma \<notin> set (base64_encode bs)"
  using set_base64_encode [of bs] by auto

lemma length_base64_encode: "length (base64_encode bs) = 4 * ((length bs + 2) div 3)"
proof (induction bs rule: base64_encode.induct)
  case (1 a b c bs)
  have "(length bs + 5) div 3 = Suc ((length bs + 2) div 3)"
    by arith
  with 1 show ?case by (simp add: add.commute)
qed simp_all

lemma base64_encode_Nil_iff [simp]: "base64_encode bs = [] \<longleftrightarrow> bs = []"
  by (cases bs rule: base64_encode.cases) simp_all

lemma is_ascii_base64_alphabet: "is_ascii base64_alphabet"
  unfolding base64_alphabet_def by (rule is_ascii_js)

lemma is_ascii_base64_encode: "is_ascii (base64_encode bs)"
proof -
  have "c < 0x100" if "c \<in> insert pad (set base64_alphabet)" for c
    using that is_ascii_base64_alphabet by (auto simp: is_ascii_def list_all_iff pad_def)
  with set_base64_encode [of bs] show ?thesis
    by (auto simp: is_ascii_def list_all_iff)
qed

end
