(* ===== verification/File_Reader.thy ===== *)
theory File_Reader
  imports Base64
begin

text \<open>
  The objects the page receives from the browser when a file is read.

  \<^item> \<open>File\<close> is the \<open>File\<close> handed to \<open>handleFileSelect\<close>: the two properties the
    page reads (\<open>name\<close>, \<open>type\<close>) and the bytes that \<open>readAsDataURL\<close> encodes.
  \<^item> \<open>progress_event\<close> is the event passed to \<open>onload\<close>; the page reads
    \<open>e.target?.result\<close>, so the event carries an optional target and the target its
    result, which by its type is \<open>null\<close>, a string or an \<open>ArrayBuffer\<close>.
  \<^item> \<open>data_url\<close> is the string a successful \<open>readAsDataURL\<close> leaves in \<open>result\<close>:
    \<open>data:\<close>, the media type (\<open>application/octet-stream\<close> when the file has none),
    \<open>;base64,\<close> and the base64 encoding of the bytes.

  Lemmas: a data URL splits at its last comma into header and payload; the header
  is free of commas exactly when the file's type is.
\<close>

section \<open>Files and events\<close>

record File =
  file_name :: jsstring
  file_type :: jsstring
  file_bytes :: "byte list"

datatype reader_result = ResultNull | ResultString jsstring | ResultArrayBuffer "byte list"

record file_reader =
  result :: reader_result

record progress_event =
  target :: "file_reader option"

definition load_event :: "jsstring \<Rightarrow> progress_event" where
  "load_event r = \<lparr>target = Some \<lparr>result = ResultString r\<rparr>\<rparr>"

section \<open>Data URLs\<close>

definition media_type :: "File \<Rightarrow> jsstring" where
  "media_type f = (if file_type f = [] then js ''application/octet-stream'' else file_type f)"

definition data_url_header :: "File \<Rightarrow> jsstring" where
  "data_url_header f = js ''data:'' @ media_type f @ js '';base64''"

definition data_url :: "File \<Rightarrow> jsstring" where
  "data_url f = data_url_header f @ comma # base64_encode (file_bytes f)"

lemmas file_reader_defs [eval_simps] =
  load_event_def media_type_def data_url_header_def data_url_def

section \<open>Commas in a data URL\<close>

lemma comma_not_in_js_literals [simp]:
  "comma \<notin> set (js ''data:'')" "comma \<notin> set (js '';base64'')"
  "comma \<notin> set (js ''application/octet-stream'')"
  by (simp_all add: comma_def js_def)

lemma comma_in_media_type: "comma \<in> set (media_type f) \<longleftrightarrow> comma \<in> set (file_type f)"
  by (simp add: media_type_def)

lemma comma_in_header: "comma \<in> set (data_url_header f) \<longleftrightarrow> comma \<in> set (file_type f)"
  by (simp add: data_url_header_def comma_in_media_type)

lemma js_split_data_url:
  "comma \<notin> set (file_type f) \<Longrightarrow>
   js_split comma (data_url f) = [data_url_header f, base64_encode (file_bytes f)]"
  by (simp add: data_url_def comma_in_header)

lemma count_commas_data_url:
  "count_list (data_url f) comma = Suc (count_list (file_type f) comma)"
  by (simp add: data_url_def data_url_header_def media_type_def count_list_0_iff)

lemma data_url_not_Nil [simp]: "data_url f \<noteq> []"
  by (simp add: data_url_def)

end
