(* ===== verification/JSON_Text.thy ===== *)
theory JSON_Text
  imports JS_String
begin

text \<open>
  \<open>JSON.stringify\<close> on the objects the page passes to it: objects whose own
  properties hold strings or \<open>undefined\<close>. An object is the list of its properties
  in creation order, which is the order \<open>JSON.stringify\<close> visits them in.

  \<^item> \<open>QuoteJSONString\<close> follows the ECMAScript operation of that name on code units:
    the seven short escapes, \<open>\uXXXX\<close> with lower-case digits for the other control
    characters and for a surrogate that is not part of a pair, and every other code
    unit (a well-formed surrogate pair included) copied.
  \<^item> \<open>serialize_member\<close> leaves out a property whose value is \<open>undefined\<close>, as
    SerializeJSONProperty does.
  \<^item> \<open>JSON_stringify\<close> joins the members that are left with commas between braces,
    with no white space (no \<open>space\<close> argument is passed).

  Numbers, booleans, \<open>null\<close>, arrays and nested objects do not reach
  \<open>JSON.stringify\<close> in this program and are not modelled.

  Lemmas: the shape of the output, which code units a quoted string can contain,
  its length bounds, and what happens to an \<open>undefined\<close> property.
\<close>

section \<open>Values\<close>

datatype json_value = JUndefined | JString jsstring

section \<open>Quoting a string\<close>

definition hex_digit :: "code_unit \<Rightarrow> code_unit" where
  "hex_digit d = (if d < 10 then 0x30 + d else 0x57 + d)"

definition unicode_escape :: "code_unit \<Rightarrow> jsstring" where
  "unicode_escape c =
     [0x5C, 0x75, hex_digit (drop_bit 12 c AND 0xF), hex_digit (drop_bit 8 c AND 0xF),
      hex_digit (drop_bit 4 c AND 0xF), hex_digit (c AND 0xF)]"

definition is_high_surrogate :: "code_unit \<Rightarrow> bool" where
  "is_high_surrogate c \<longleftrightarrow> 0xD800 \<le> c \<and> c \<le> 0xDBFF"

definition is_low_surrogate :: "code_unit \<Rightarrow> bool" where
  "is_low_surrogate c \<longleftrightarrow> 0xDC00 \<le> c \<and> c \<le> 0xDFFF"

definition escape_unit :: "code_unit \<Rightarrow> jsstring" where
  "escape_unit c =
     (if c = 0x08 then [0x5C, 0x62]
      else if c = 0x09 then [0x5C, 0x74]
      else if c = 0x0A then [0x5C, 0x6E]
      else if c = 0x0C then [0x5C, 0x66]
      else if c = 0x0D then [0x5C, 0x72]
      else if c = 0x22 then [0x5C, 0x22]
      else if c = 0x5C then [0x5C, 0x5C]
      else if c < 0x20 \<or> is_high_surrogate c \<or> is_low_surrogate c then unicode_escape c
      else [c])"

fun quote_units :: "jsstring \<Rightarrow> jsstring" where
  "quote_units [] = []"
| "quote_units [c] = escape_unit c"
| "quote_units (c # d # cs) =
     (if is_high_surrogate c \<and> is_low_surrogate d then c # d # quote_units cs
      else escape_unit c @ quote_units (d # cs))"

definition QuoteJSONString :: "jsstring \<Rightarrow> jsstring" where
  "QuoteJSONString s = 0x22 # quote_units s @ [0x22]"

section \<open>Serialising an object\<close>

fun serialize_member :: "jsstring \<times> json_value \<Rightarrow> jsstring option" where
  "serialize_member (k, JUndefined) = None"
| "serialize_member (k, JString s) = Some (QuoteJSONString k @ 0x3A # QuoteJSONString s)"

definition JSON_stringify :: "(jsstring \<times> json_value) list \<Rightarrow> jsstring" where
  "JSON_stringify props =
     (case List.map_filter serialize_member props of
        [] \<Rightarrow> [0x7B, 0x7D]
      | m # ms \<Rightarrow> 0x7B # js_join comma (m # ms) @ [0x7D])"

lemmas json_defs [eval_simps] =
  hex_digit_def unicode_escape_def is_high_surrogate_def is_low_surrogate_def
  escape_unit_def QuoteJSONString_def JSON_stringify_def

section \<open>Plain strings\<close>

text \<open>
  A code unit is \<open>plain\<close> when quoting copies it: it is neither a control character,
  nor a quote or backslash, nor a surrogate. Quoting a string of plain code units
  only adds the two quotes.
\<close>

definition plain :: "code_unit \<Rightarrow> bool" where
  "plain c \<longleftrightarrow> 0x20 \<le> c \<and> c \<noteq> 0x22 \<and> c \<noteq> 0x5C \<and> \<not> is_high_surrogate c \<and> \<not> is_low_surrogate c"

lemma escape_unit_plain [simp]: "plain c \<Longrightarrow> escape_unit c = [c]"
  by (auto simp: plain_def escape_unit_def)

lemma quote_units_plain [simp]: "list_all plain s \<Longrightarrow> quote_units s = s"
  by (induction s rule: quote_units.induct) (auto simp: plain_def)

lemma QuoteJSONString_plain: "list_all plain s \<Longrightarrow> QuoteJSONString s = 0x22 # s @ [0x22]"
  by (simp add: QuoteJSONString_def)

section \<open>Length of a quoted string\<close>

lemma length_unicode_escape [simp]: "length (unicode_escape c) = 6"
  by (simp add: unicode_escape_def)

lemma length_escape_unit: "1 \<le> length (escape_unit c) \<and> length (escape_unit c) \<le> 6"
  by (simp add: escape_unit_def)

lemma length_quote_units_lower: "length s \<le> length (quote_units s)"
proof (induction s rule: quote_units.induct)
  case (2 c)
  then show ?case using length_escape_unit [of c] by simp
next
  case (3 c d cs)
  then show ?case using length_escape_unit [of c] by auto
qed simp

lemma length_quote_units_upper: "length (quote_units s) \<le> 6 * length s"
proof (induction s rule: quote_units.induct)
  case (2 c)
  then show ?case using length_escape_unit [of c] by simp
next
  case (3 c d cs)
  then show ?case using length_escape_unit [of c] by auto
qed simp

lemma length_QuoteJSONString:
  "length s + 2 \<le> length (QuoteJSONString s) \<and> length (QuoteJSONString s) \<le> 6 * length s + 2"
  using length_quote_units_lower [of s] length_quote_units_upper [of s]
  by (simp add: QuoteJSONString_def)

section \<open>Members that are left out\<close>

lemma serialize_member_None_iff: "serialize_member (k, v) = None \<longleftrightarrow> v = JUndefined"
  by (cases v) simp_all

lemma JSON_stringify_all_undefined:
  "\<forall>p \<in> set props. snd p = JUndefined \<Longrightarrow> JSON_stringify props = [0x7B, 0x7D]"
proof -
  assume all: "\<forall>p \<in> set props. snd p = JUndefined"
  have "List.map_filter serialize_member props = []"
    using all by (induction props) (auto simp: List.map_filter_simps serialize_member_None_iff)
  then show ?thesis by (simp add: JSON_stringify_def)
qed

lemma map_filter_append_undefined:
  "List.map_filter serialize_member (props @ [(k, JUndefined)]) =
   List.map_filter serialize_member props"
  by (simp add: List.map_filter_def)

lemma JSON_stringify_drop_undefined:
  "JSON_stringify (props @ [(k, JUndefined)]) = JSON_stringify props"
  by (simp add: JSON_stringify_def map_filter_append_undefined)


section \<open>The text of an object of three strings\<close>

lemma JSON_stringify_three:
  "JSON_stringify [(k1, JString v1), (k2, JString v2), (k3, JString v3)] =
   0x7B # QuoteJSONString k1 @ 0x3A # QuoteJSONString v1 @ comma #
     QuoteJSONString k2 @ 0x3A # QuoteJSONString v2 @ comma #
     QuoteJSONString k3 @ 0x3A # QuoteJSONString v3 @ [0x7D]"
  by (simp add: JSON_stringify_def List.map_filter_def)

lemma JSON_stringify_two:
  "JSON_stringify [(k1, JString v1), (k2, JString v2)] =
   0x7B # QuoteJSONString k1 @ 0x3A # QuoteJSONString v1 @ comma #
     QuoteJSONString k2 @ 0x3A # QuoteJSONString v2 @ [0x7D]"
  by (simp add: JSON_stringify_def List.map_filter_def)

lemma plain_js_letters:
  "list_all plain (js ''fileName'')" "list_all plain (js ''fileType'')"
  "list_all plain (js ''fileData'')"
  by (simp_all add: plain_def js_def is_high_surrogate_def is_low_surrogate_def)

end
