(* ===== verification/Web_Storage.thy ===== *)
theory Web_Storage
  imports JS_Prelude "HOL-Library.AList"
begin

text \<open>
  The session-scoped key-value store the page hands its record to
  (\<open>sessionStorage\<close>). The store is the ordered list of its key/value pairs, as the
  Storage interface exposes them through \<open>key(n)\<close>, together with the quota of the
  origin. \<open>setItem\<close> replaces the value of a key in place or appends a new pair, and
  throws \<open>QuotaExceededError\<close>, leaving the store as it was, when the new contents
  would not fit; \<open>getItem\<close> reads a key.

  The size of the contents is counted in code units of keys and values; the quota
  is a parameter of the store, so every theorem holds for any quota. \<open>fits k v st\<close>
  says that the store has room for \<open>v\<close> under \<open>k\<close>.

  Lemmas: the store invariant (keys are distinct, contents are within the quota)
  and its preservation; \<open>getItem\<close> after \<open>setItem\<close>; the exact condition under
  which \<open>setItem\<close> throws; and the refinement of the finite map \<open>contents\<close> that
  the interface promises.
\<close>

section \<open>State and operations\<close>

record storage =
  items :: "(jsstring \<times> jsstring) list"
  quota :: nat

definition storage_size :: "(jsstring \<times> jsstring) list \<Rightarrow> nat" where
  "storage_size kvs = sum_list (map (\<lambda>kv. length (fst kv) + length (snd kv)) kvs)"

definition getItem :: "jsstring \<Rightarrow> storage \<Rightarrow> jsstring option" where
  "getItem k st = map_of (items st) k"

definition setItem :: "jsstring \<Rightarrow> jsstring \<Rightarrow> storage \<Rightarrow> storage outcome" where
  "setItem k v st =
     (let kvs = AList.update k v (items st)
      in if storage_size kvs \<le> quota st then Inr (st\<lparr>items := kvs\<rparr>)
         else Inl QuotaExceededError)"

definition fits :: "jsstring \<Rightarrow> jsstring \<Rightarrow> storage \<Rightarrow> bool" where
  "fits k v st \<longleftrightarrow> storage_size (AList.update k v (items st)) \<le> quota st"

definition storage_ok :: "storage \<Rightarrow> bool" where
  "storage_ok st \<longleftrightarrow> distinct (map fst (items st)) \<and> storage_size (items st) \<le> quota st"

definition contents :: "storage \<Rightarrow> jsstring \<rightharpoonup> jsstring" where
  "contents st = map_of (items st)"

definition empty_storage :: "nat \<Rightarrow> storage" where
  "empty_storage q = \<lparr>items = [], quota = q\<rparr>"

lemmas storage_defs [eval_simps] =
  storage_size_def getItem_def setItem_def empty_storage_def fits_def

declare storage_ok_def [wf_simps]

section \<open>Size of the contents\<close>

lemma storage_size_Nil [simp]: "storage_size [] = 0"
  by (simp add: storage_size_def)

lemma storage_size_Cons [simp]:
  "storage_size ((k, v) # kvs) = length k + length v + storage_size kvs"
  by (simp add: storage_size_def)

lemma storage_size_append [simp]:
  "storage_size (xs @ ys) = storage_size xs + storage_size ys"
  by (simp add: storage_size_def)

text \<open>
  Replacing the value of a key changes the size by the difference of the two
  values; a new key adds its own length and the value's.
\<close>

lemma storage_size_update_new:
  "k \<notin> fst ` set kvs \<Longrightarrow>
   storage_size (AList.update k v kvs) = storage_size kvs + length k + length v"
  by (induction kvs) auto

lemma storage_size_update_old:
  "distinct (map fst kvs) \<Longrightarrow> map_of kvs k = Some v' \<Longrightarrow>
   storage_size (AList.update k v kvs) + length v' = storage_size kvs + length v"
proof (induction kvs)
  case Nil
  then show ?case by simp
next
  case (Cons p kvs)
  obtain k' w where p: "p = (k', w)" by (cases p)
  show ?case
  proof (cases "k' = k")
    case True
    with Cons.prems p show ?thesis by simp
  next
    case False
    with Cons p show ?thesis by simp
  qed
qed

lemma storage_size_update_le:
  "storage_size (AList.update k v kvs) \<le> storage_size kvs + length k + length v"
  by (induction kvs) auto

lemma storage_size_update_ge: "length k + length v \<le> storage_size (AList.update k v kvs)"
  by (induction kvs) auto

section \<open>The outcome of setItem\<close>

lemma setItem_Inr_iff:
  "setItem k v st = Inr st' \<longleftrightarrow>
     storage_size (AList.update k v (items st)) \<le> quota st \<and>
     st' = st\<lparr>items := AList.update k v (items st)\<rparr>"
  by (auto simp: setItem_def Let_def)

lemma setItem_Inl_iff:
  "setItem k v st = Inl e \<longleftrightarrow>
     quota st < storage_size (AList.update k v (items st)) \<and> e = QuotaExceededError"
  by (auto simp: setItem_def Let_def)

lemma setItem_fits:
  "storage_size (items st) + length k + length v \<le> quota st \<Longrightarrow>
   setItem k v st = Inr (st\<lparr>items := AList.update k v (items st)\<rparr>)"
  using storage_size_update_le [of k v "items st"] by (simp add: setItem_Inr_iff)

lemma setItem_too_long:
  "quota st < length k + length v \<Longrightarrow> setItem k v st = Inl QuotaExceededError"
  using storage_size_update_ge [of k v "items st"] by (simp add: setItem_Inl_iff)

lemma setItem_fits_iff:
  "fits k v st \<longleftrightarrow> setItem k v st = Inr (st\<lparr>items := AList.update k v (items st)\<rparr>)"
  by (simp add: fits_def setItem_Inr_iff)

lemma setItem_not_fits_iff: "\<not> fits k v st \<longleftrightarrow> setItem k v st = Inl QuotaExceededError"
  by (simp add: fits_def setItem_Inl_iff not_le)

lemma fits_room:
  "storage_size (items st) + length k + length v \<le> quota st \<Longrightarrow> fits k v st"
  using storage_size_update_le [of k v "items st"] by (simp add: fits_def)

lemma fits_after_setItem:
  "setItem k v st = Inr st' \<Longrightarrow> fits k v' st' \<longleftrightarrow> fits k v' st"
  by (auto simp: setItem_Inr_iff fits_def)

lemma fits_update_same [simp]:
  "fits k v' (st\<lparr>items := AList.update k v (items st)\<rparr>) \<longleftrightarrow> fits k v' st"
  by (simp add: fits_def)

lemma setItem_quota [simp]: "setItem k v st = Inr st' \<Longrightarrow> quota st' = quota st"
  by (auto simp: setItem_Inr_iff)

section \<open>Reading after writing\<close>

lemma getItem_setItem:
  "setItem k v st = Inr st' \<Longrightarrow> getItem k' st' = (if k' = k then Some v else getItem k' st)"
  by (auto simp: setItem_Inr_iff getItem_def AList.update_conv')

lemma getItem_setItem_same [simp]: "setItem k v st = Inr st' \<Longrightarrow> getItem k st' = Some v"
  by (simp add: getItem_setItem)

lemma getItem_setItem_other [simp]:
  "setItem k v st = Inr st' \<Longrightarrow> k' \<noteq> k \<Longrightarrow> getItem k' st' = getItem k' st"
  by (simp add: getItem_setItem)

lemma getItem_empty [simp]: "getItem k (empty_storage q) = None"
  by (simp add: getItem_def empty_storage_def)

text \<open>The order of the keys: an old key keeps its place, a new key goes last.\<close>

lemma setItem_keys:
  "setItem k v st = Inr st' \<Longrightarrow>
   map fst (items st') =
     (if k \<in> set (map fst (items st)) then map fst (items st) else map fst (items st) @ [k])"
  by (auto simp: setItem_Inr_iff AList.update_keys)

section \<open>The invariant\<close>

lemma storage_ok_empty [simp]: "storage_ok (empty_storage q)"
  by (simp add: storage_ok_def empty_storage_def)

lemma setItem_storage_ok:
  assumes ok: "storage_ok st" and set: "setItem k v st = Inr st'"
  shows "storage_ok st'"
proof -
  from set have fits: "storage_size (AList.update k v (items st)) \<le> quota st"
    and st': "st' = st\<lparr>items := AList.update k v (items st)\<rparr>"
    by (simp_all add: setItem_Inr_iff)
  from ok have "distinct (map fst (AList.update k v (items st)))"
    by (simp add: storage_ok_def AList.distinct_update)
  with fits show ?thesis
    by (simp add: storage_ok_def st')
qed

section \<open>Refinement of a finite map\<close>

text \<open>
  Seen through \<open>contents\<close>, a successful \<open>setItem\<close> is the map update and
  \<open>getItem\<close> is application: the list, its order and the quota are
  implementation detail behind the get/set-by-key contract.
\<close>

lemma contents_setItem:
  "setItem k v st = Inr st' \<Longrightarrow> contents st' = (contents st)(k \<mapsto> v)"
  by (auto simp: setItem_Inr_iff contents_def AList.update_conv')

lemma contents_getItem: "getItem k st = contents st k"
  by (simp add: getItem_def contents_def)

lemma contents_empty [simp]: "contents (empty_storage q) = Map.empty"
  by (simp add: contents_def empty_storage_def)

lemma dom_contents: "dom (contents st) = fst ` set (items st)"
  by (simp add: contents_def dom_map_of_conv_image_fst)

end
