(* ===== verification/Home_Handler.thy ===== *)
theory Home_Handler
  imports File_Reader JSON_Text Web_Storage
begin

text \<open>
  The page's one piece of behaviour: \<open>handleFileSelect\<close> and the \<open>onload\<close>
  callback it installs (\<open>src/client/src/pages/home.tsx\<close>, lines 9 to 22).

  \<^item> \<open>world\<close> is the state the two functions read and write: the session storage,
    the current location with the history entries below it (\<open>setLocation\<close> pushes),
    the readers that have been started and have not fired yet, each with the file
    its callback closes over, and the exceptions that reached the event loop.
  \<^item> \<open>handleFileSelect\<close> creates a reader, installs the callback and starts the
    read: the world gains a pending reader.
  \<^item> \<open>onload\<close> is the callback: it takes the receiver of \<open>.split\<close> from the event
    (\<open>result_string\<close>: a \<open>TypeError\<close> unless it is a string), builds the record
    (\<open>fileData_obj\<close>), serialises it (\<open>uploadedFile_text\<close>), stores it and navigates. \<open>setItem\<close> comes
    before \<open>setLocation\<close>, so an exception from the store prevents the navigation.

  Lemmas: what \<open>fileData_of_result\<close> returns on every shape of result; the outcome
  of \<open>onload\<close> on every branch, errors included; what it leaves unchanged.
\<close>

section \<open>State\<close>

record file_data =
  fileName :: jsstring
  fileType :: jsstring
  fileData :: "jsstring option"

record world =
  sessionStorage :: storage
  location :: jsstring
  history :: "jsstring list"
  readers :: "File list"
  uncaught :: "js_error list"

section \<open>The handler\<close>

definition storage_key :: jsstring where
  "storage_key = js ''uploadedFile''"

definition editor_path :: jsstring where
  "editor_path = js ''/editor''"

definition result_string :: "progress_event \<Rightarrow> jsstring outcome" where
  "result_string e =
     (case target e of
        None \<Rightarrow> Inl TypeError
      | Some rd \<Rightarrow>
          (case result rd of
             ResultString r \<Rightarrow> Inr r
           | ResultNull \<Rightarrow> Inl TypeError
           | ResultArrayBuffer b \<Rightarrow> Inl TypeError))"

definition fileData_of_result :: "jsstring \<Rightarrow> jsstring option" where
  "fileData_of_result r = js_index (js_split comma r) 1"

definition fileData_obj :: "File \<Rightarrow> jsstring \<Rightarrow> file_data" where
  "fileData_obj file r =
     \<lparr>fileName = file_name file, fileType = file_type file, fileData = fileData_of_result r\<rparr>"

definition object_of :: "file_data \<Rightarrow> (jsstring \<times> json_value) list" where
  "object_of d =
     [(js ''fileName'', JString (fileName d)),
      (js ''fileType'', JString (fileType d)),
      (js ''fileData'', case fileData d of None \<Rightarrow> JUndefined | Some s \<Rightarrow> JString s)]"

definition uploadedFile_text :: "File \<Rightarrow> jsstring \<Rightarrow> jsstring" where
  "uploadedFile_text file r = JSON_stringify (object_of (fileData_obj file r))"

definition setLocation :: "jsstring \<Rightarrow> world \<Rightarrow> world" where
  "setLocation to w = w\<lparr>history := location w # history w, location := to\<rparr>"

definition onload :: "File \<Rightarrow> progress_event \<Rightarrow> world \<Rightarrow> world outcome" where
  "onload file e w =
     (case result_string e of
        Inl err \<Rightarrow> Inl err
      | Inr r \<Rightarrow>
          (case setItem storage_key (uploadedFile_text file r) (sessionStorage w) of
             Inl err \<Rightarrow> Inl err
           | Inr st \<Rightarrow> Inr (setLocation editor_path (w\<lparr>sessionStorage := st\<rparr>))))"

definition handleFileSelect :: "File \<Rightarrow> world \<Rightarrow> world" where
  "handleFileSelect file w = w\<lparr>readers := readers w @ [file]\<rparr>"

lemmas handler_defs [eval_simps] =
  storage_key_def editor_path_def result_string_def fileData_of_result_def fileData_obj_def
  object_of_def uploadedFile_text_def setLocation_def onload_def handleFileSelect_def

section \<open>The receiver of split\<close>

lemma result_string_load_event [simp]: "result_string (load_event r) = Inr r"
  by (simp add: result_string_def load_event_def)

lemma result_string_Inr_iff:
  "result_string e = Inr r \<longleftrightarrow> target e = Some \<lparr>result = ResultString r\<rparr>"
  by (cases "target e")
    (auto simp: result_string_def split: reader_result.splits intro: file_reader.equality)

lemma result_string_Inl: "result_string e = Inl err \<Longrightarrow> err = TypeError"
  by (auto simp: result_string_def split: option.splits reader_result.splits)

section \<open>The second piece of the result\<close>

lemma fileData_of_result_no_comma:
  "comma \<notin> set r \<Longrightarrow> fileData_of_result r = None"
  by (simp add: fileData_of_result_def)

lemma fileData_of_result_one_comma:
  "comma \<notin> set h \<Longrightarrow> comma \<notin> set p \<Longrightarrow> fileData_of_result (h @ comma # p) = Some p"
  by (simp add: fileData_of_result_def)

lemma fileData_of_result_first_comma:
  "comma \<notin> set h \<Longrightarrow>
   fileData_of_result (h @ comma # t) = Some (takeWhile (\<lambda>c. c \<noteq> comma) t)"
proof -
  assume "comma \<notin> set h"
  then have "fileData_of_result (h @ comma # t) = js_index (js_split comma t) 0"
    by (simp add: fileData_of_result_def)
  also have "\<dots> = Some (hd (js_split comma t))"
    by (cases "js_split comma t") simp_all
  finally show ?thesis by (simp add: hd_js_split)
qed

lemma fileData_of_result_None_iff: "fileData_of_result r = None \<longleftrightarrow> comma \<notin> set r"
proof
  assume "fileData_of_result r = None"
  then have "length (js_split comma r) \<le> 1"
    by (simp add: fileData_of_result_def js_index_None_iff)
  then show "comma \<notin> set r"
    by (simp add: length_js_split count_list_0_iff)
qed (rule fileData_of_result_no_comma)

lemma fileData_comma_free:
  "fileData_of_result r = Some p \<Longrightarrow> comma \<notin> set p"
  by (auto simp: fileData_of_result_def dest: js_index_in_set js_split_sep_free)

section \<open>The stored text\<close>

lemma object_of_undefined:
  "fileData d = None \<Longrightarrow>
   JSON_stringify (object_of d) =
   JSON_stringify [(js ''fileName'', JString (fileName d)), (js ''fileType'', JString (fileType d))]"
  using JSON_stringify_drop_undefined
    [of "[(js ''fileName'', JString (fileName d)), (js ''fileType'', JString (fileType d))]"]
  by (simp add: object_of_def)

lemma fileData_of_result_data_url:
  "comma \<notin> set (file_type file) \<Longrightarrow>
   fileData_of_result (data_url file) = Some (base64_encode (file_bytes file))"
  by (simp add: fileData_of_result_def js_split_data_url)

lemma uploadedFile_text_Some:
  "fileData_of_result r = Some d \<Longrightarrow>
   uploadedFile_text file r =
     JSON_stringify [(js ''fileName'', JString (file_name file)),
                     (js ''fileType'', JString (file_type file)),
                     (js ''fileData'', JString d)]"
  by (simp add: uploadedFile_text_def object_of_def fileData_obj_def)

lemma uploadedFile_text_data_url:
  "comma \<notin> set (file_type file) \<Longrightarrow>
   uploadedFile_text file (data_url file) =
     JSON_stringify [(js ''fileName'', JString (file_name file)),
                     (js ''fileType'', JString (file_type file)),
                     (js ''fileData'', JString (base64_encode (file_bytes file)))]"
  by (simp add: uploadedFile_text_Some fileData_of_result_data_url)

text \<open>Base64 digits and padding are copied by the quoting.\<close>

lemma plain_base64_alphabet: "list_all plain base64_alphabet"
  by (simp add: base64_alphabet_def js_def plain_def is_high_surrogate_def
      is_low_surrogate_def)

lemma plain_base64_encode [simp]: "list_all plain (base64_encode bs)"
proof -
  have "plain pad"
    by (simp add: pad_def plain_def is_high_surrogate_def is_low_surrogate_def)
  with plain_base64_alphabet have "plain c" if "c \<in> insert pad (set base64_alphabet)" for c
    using that by (auto simp: list_all_iff)
  with set_base64_encode [of bs] show ?thesis
    by (auto simp: list_all_iff)
qed

lemma length_uploadedFile_text_Some:
  "fileData_of_result r = Some d \<Longrightarrow>
   length (uploadedFile_text file r) =
     43 + length (quote_units (file_name file)) + length (quote_units (file_type file)) +
     length (quote_units d)"
  by (simp add: uploadedFile_text_Some JSON_stringify_three QuoteJSONString_def
      plain_js_letters)

lemma length_uploadedFile_text_data_url:
  "comma \<notin> set (file_type file) \<Longrightarrow>
   length (uploadedFile_text file (data_url file)) =
     43 + length (quote_units (file_name file)) + length (quote_units (file_type file)) +
     4 * ((length (file_bytes file) + 2) div 3)"
  by (simp add: length_uploadedFile_text_Some fileData_of_result_data_url
      length_base64_encode)

lemma length_storage_key [simp]: "length storage_key = 12"
  by (simp add: storage_key_def)

section \<open>The outcome of onload\<close>

lemma onload_TypeError:
  "result_string e = Inl err \<Longrightarrow> onload file e w = Inl TypeError"
  by (auto simp: onload_def dest: result_string_Inl)

lemma onload_Inr_iff:
  "onload file e w = Inr w' \<longleftrightarrow>
     (\<exists>r st. result_string e = Inr r \<and>
        setItem storage_key (uploadedFile_text file r) (sessionStorage w) = Inr st \<and>
        w' = setLocation editor_path (w\<lparr>sessionStorage := st\<rparr>))"
  by (auto simp: onload_def split: sum.splits)

lemma onload_Inl_iff:
  "onload file e w = Inl err \<longleftrightarrow>
     (result_string e = Inl err \<or>
      (\<exists>r. result_string e = Inr r \<and>
        setItem storage_key (uploadedFile_text file r) (sessionStorage w) = Inl err))"
  by (auto simp: onload_def split: sum.splits)

lemma setLocation_simps [simp]:
  "location (setLocation to w) = to"
  "history (setLocation to w) = location w # history w"
  "sessionStorage (setLocation to w) = sessionStorage w"
  "readers (setLocation to w) = readers w"
  "uncaught (setLocation to w) = uncaught w"
  by (simp_all add: setLocation_def)

lemma handleFileSelect_simps [simp]:
  "readers (handleFileSelect file w) = readers w @ [file]"
  "sessionStorage (handleFileSelect file w) = sessionStorage w"
  "location (handleFileSelect file w) = location w"
  "history (handleFileSelect file w) = history w"
  "uncaught (handleFileSelect file w) = uncaught w"
  by (simp_all add: handleFileSelect_def)

end
