(* ===== verification/Event_Loop.thy ===== *)
theory Event_Loop
  imports Home_Handler
begin

text \<open>
  The page under the browser's event loop. JavaScript runs one callback at a time,
  so an execution is a sequence of events, each handled to completion:

  \<^item> \<open>Select file\<close>: the upload widget calls \<open>onFileSelect\<close>, which is
    \<open>handleFileSelect\<close>;
  \<^item> \<open>Load i\<close>: the \<open>i\<close>-th pending reader finishes and its \<open>onload\<close> callback runs
    on the event that carries the encoded file; an exception the callback throws is
    reported to the event loop (\<open>report\<close>) and the state the callback had reached is
    kept;
  \<^item> \<open>Abort i\<close>: the \<open>i\<close>-th pending reader fails; the page installs no \<open>onerror\<close>
    callback, so the reader just goes away.

  The encoding the reader delivers is a parameter \<open>enc\<close> of the loop: the general
  lemmas hold for any browser, the specific ones for \<open>data_url\<close>. The loop lets the
  widget call \<open>onFileSelect\<close> in any state, which is more than a browser allows
  (the widget is gone once the page is left) and so is safe for invariants.

  \<open>fire\<close> is one event as a function, \<open>run\<close> a sequence of events, \<open>step\<close> and
  \<open>reachable\<close> the same as relations; they agree (\<open>step_iff_fire\<close>,
  \<open>reachable_iff_run\<close>). The invariants of the reachable worlds are proved one
  event at a time and lifted by rule induction (\<open>reachable_invariant\<close>): the store
  invariant, the keys that change, the exceptions that can be reported, that the
  location changes only with the store (\<open>untouched\<close>, \<open>navigated\<close>), and the shape of
  the history (\<open>trail\<close>).
\<close>

section \<open>Events\<close>

datatype event = Select File | Load nat | Abort nat

definition drop_reader :: "nat \<Rightarrow> world \<Rightarrow> world" where
  "drop_reader i w = w\<lparr>readers := take i (readers w) @ drop (Suc i) (readers w)\<rparr>"

definition report :: "js_error \<Rightarrow> world \<Rightarrow> world" where
  "report err w = w\<lparr>uncaught := err # uncaught w\<rparr>"

definition dispatch_load :: "(File \<Rightarrow> jsstring) \<Rightarrow> nat \<Rightarrow> world \<Rightarrow> world" where
  "dispatch_load enc i w =
     (case onload (readers w ! i) (load_event (enc (readers w ! i))) (drop_reader i w) of
        Inl err \<Rightarrow> report err (drop_reader i w)
      | Inr w' \<Rightarrow> w')"

fun fire :: "(File \<Rightarrow> jsstring) \<Rightarrow> event \<Rightarrow> world \<Rightarrow> world option" where
  "fire enc (Select file) w = Some (handleFileSelect file w)"
| "fire enc (Load i) w =
     (if i < length (readers w) then Some (dispatch_load enc i w) else None)"
| "fire enc (Abort i) w =
     (if i < length (readers w) then Some (drop_reader i w) else None)"

fun run :: "(File \<Rightarrow> jsstring) \<Rightarrow> event list \<Rightarrow> world \<Rightarrow> world option" where
  "run enc [] w = Some w"
| "run enc (e # es) w = (case fire enc e w of None \<Rightarrow> None | Some w' \<Rightarrow> run enc es w')"

inductive step :: "(File \<Rightarrow> jsstring) \<Rightarrow> world \<Rightarrow> event \<Rightarrow> world \<Rightarrow> bool"
  for enc :: "File \<Rightarrow> jsstring" where
  select: "step enc w (Select file) (handleFileSelect file w)"
| load: "i < length (readers w) \<Longrightarrow> step enc w (Load i) (dispatch_load enc i w)"
| abort: "i < length (readers w) \<Longrightarrow> step enc w (Abort i) (drop_reader i w)"

inductive reachable :: "(File \<Rightarrow> jsstring) \<Rightarrow> world \<Rightarrow> world \<Rightarrow> bool"
  for enc :: "File \<Rightarrow> jsstring" and w0 :: world where
  init: "reachable enc w0 w0"
| after: "reachable enc w0 w \<Longrightarrow> step enc w e w' \<Longrightarrow> reachable enc w0 w'"

definition initial :: "storage \<Rightarrow> jsstring \<Rightarrow> world" where
  "initial st loc =
     \<lparr>sessionStorage = st, location = loc, history = [], readers = [], uncaught = []\<rparr>"

lemmas loop_defs [eval_simps] = drop_reader_def report_def dispatch_load_def initial_def

inductive_cases step_SelectE [elim!]: "step enc w (Select file) w'"
inductive_cases step_LoadE [elim!]: "step enc w (Load i) w'"
inductive_cases step_AbortE [elim!]: "step enc w (Abort i) w'"

section \<open>Functions and relations agree\<close>

lemma step_iff_fire: "step enc w e w' \<longleftrightarrow> fire enc e w = Some w'"
  by (cases e) (auto intro: step.intros)

text \<open>Induction along a run: the first event fires, the rest is a run.\<close>

lemma run_induct [consumes 1, case_names Nil Cons]:
  assumes run: "run enc es w = Some w'"
    and nil: "\<And>w. P [] w w"
    and cons: "\<And>e es w w1 w'. fire enc e w = Some w1 \<Longrightarrow> run enc es w1 = Some w' \<Longrightarrow>
      P es w1 w' \<Longrightarrow> P (e # es) w w'"
  shows "P es w w'"
  using run
proof (induction es arbitrary: w)
  case Nil
  then show ?case by (simp add: nil)
next
  case (Cons e es)
  from Cons.prems obtain w1 where w1: "fire enc e w = Some w1" and rest: "run enc es w1 = Some w'"
    by (cases "fire enc e w") simp_all
  from w1 rest Cons.IH [OF rest] show ?case by (rule cons)
qed

lemma run_append:
  "run enc (es @ es') w = (case run enc es w of None \<Rightarrow> None | Some w' \<Rightarrow> run enc es' w')"
  by (induction es arbitrary: w) (auto split: option.splits)

lemma run_snoc:
  "run enc es w0 = Some w \<Longrightarrow> fire enc e w = Some w' \<Longrightarrow> run enc (es @ [e]) w0 = Some w'"
  by (simp add: run_append)

lemma run_reachable: "run enc es w0 = Some w \<Longrightarrow> reachable enc w0 w"
proof (induction es arbitrary: w rule: rev_induct)
  case Nil
  then show ?case by (simp add: reachable.init)
next
  case (snoc e es)
  from snoc.prems obtain w1 where w1: "run enc es w0 = Some w1" and e: "fire enc e w1 = Some w"
    by (auto simp: run_append split: option.splits)
  from w1 have "reachable enc w0 w1" by (rule snoc.IH)
  with e show ?case by (auto intro: reachable.after simp: step_iff_fire)
qed

lemma reachable_run: "reachable enc w0 w \<Longrightarrow> \<exists>es. run enc es w0 = Some w"
proof (induction rule: reachable.induct)
  case init
  have "run enc [] w0 = Some w0" by simp
  then show ?case ..
next
  case (after w e w')
  then obtain es where "run enc es w0 = Some w" by blast
  with after.hyps(2) have "run enc (es @ [e]) w0 = Some w'"
    by (simp add: run_snoc step_iff_fire)
  then show ?case ..
qed

lemma reachable_iff_run: "reachable enc w0 w \<longleftrightarrow> (\<exists>es. run enc es w0 = Some w)"
  by (blast intro: run_reachable dest: reachable_run)

section \<open>What one event changes\<close>

lemma drop_reader_simps [simp]:
  "sessionStorage (drop_reader i w) = sessionStorage w"
  "location (drop_reader i w) = location w"
  "history (drop_reader i w) = history w"
  "uncaught (drop_reader i w) = uncaught w"
  "readers (drop_reader i w) = take i (readers w) @ drop (Suc i) (readers w)"
  by (simp_all add: drop_reader_def)

lemma report_simps [simp]:
  "sessionStorage (report err w) = sessionStorage w"
  "location (report err w) = location w"
  "history (report err w) = history w"
  "uncaught (report err w) = err # uncaught w"
  "readers (report err w) = readers w"
  by (simp_all add: report_def)

lemma length_drop_reader:
  "i < length (readers w) \<Longrightarrow> Suc (length (readers (drop_reader i w))) = length (readers w)"
  by (simp add: min_def)

text \<open>
  A load event either stores and navigates, or reports the exception and changes
  neither the store nor the location. Every property of a load goes through this
  case distinction.
\<close>

lemma dispatch_load_cases [case_names stored thrown]:
  assumes stored: "\<And>st.
      setItem storage_key (uploadedFile_text (readers w ! i) (enc (readers w ! i)))
        (sessionStorage w) = Inr st \<Longrightarrow>
      dispatch_load enc i w =
        setLocation editor_path (drop_reader i w\<lparr>sessionStorage := st\<rparr>) \<Longrightarrow> P"
    and thrown: "
      setItem storage_key (uploadedFile_text (readers w ! i) (enc (readers w ! i)))
        (sessionStorage w) = Inl QuotaExceededError \<Longrightarrow>
      dispatch_load enc i w = report QuotaExceededError (drop_reader i w) \<Longrightarrow> P"
  shows P
proof (cases "setItem storage_key (uploadedFile_text (readers w ! i) (enc (readers w ! i)))
    (sessionStorage w)")
  case (Inl err)
  then have "err = QuotaExceededError"
    by (simp add: setItem_Inl_iff)
  with Inl show ?thesis
    by (intro thrown) (simp_all add: dispatch_load_def onload_def)
next
  case (Inr st)
  then show ?thesis
    by (intro stored [of st]) (simp_all add: dispatch_load_def onload_def)
qed

text \<open>The same for any event: the four ways a world can change.\<close>

lemma fire_cases [consumes 1, case_names select stored thrown abort]:
  assumes fire: "fire enc e w = Some w'"
    and select: "\<And>file. e = Select file \<Longrightarrow> w' = handleFileSelect file w \<Longrightarrow> P"
    and stored: "\<And>i st. e = Load i \<Longrightarrow> i < length (readers w) \<Longrightarrow>
      setItem storage_key (uploadedFile_text (readers w ! i) (enc (readers w ! i)))
        (sessionStorage w) = Inr st \<Longrightarrow>
      w' = setLocation editor_path (drop_reader i w\<lparr>sessionStorage := st\<rparr>) \<Longrightarrow> P"
    and thrown: "\<And>i. e = Load i \<Longrightarrow> i < length (readers w) \<Longrightarrow>
      setItem storage_key (uploadedFile_text (readers w ! i) (enc (readers w ! i)))
        (sessionStorage w) = Inl QuotaExceededError \<Longrightarrow>
      w' = report QuotaExceededError (drop_reader i w) \<Longrightarrow> P"
    and abort: "\<And>i. e = Abort i \<Longrightarrow> i < length (readers w) \<Longrightarrow>
      w' = drop_reader i w \<Longrightarrow> P"
  shows P
proof (cases e)
  case (Select f)
  with fire show ?thesis by (intro select [of f]) simp_all
next
  case (Load i)
  with fire have i: "i < length (readers w)" and w': "w' = dispatch_load enc i w"
    by (simp_all split: if_splits)
  show ?thesis
  proof (cases rule: dispatch_load_cases [of w i enc])
    case (stored st)
    with Load i w' show ?thesis by (intro assms(3) [of i st]) simp_all
  next
    case thrown
    with Load i w' show ?thesis by (intro assms(4) [of i]) simp_all
  qed
next
  case (Abort i)
  with fire show ?thesis by (intro abort [of i]) (simp_all split: if_splits)
qed

section \<open>Invariants of one event\<close>

lemma fire_storage_ok:
  "fire enc e w = Some w' \<Longrightarrow> storage_ok (sessionStorage w) \<Longrightarrow>
   storage_ok (sessionStorage w')"
  by (cases rule: fire_cases) (auto intro: setItem_storage_ok)

lemma fire_quota:
  "fire enc e w = Some w' \<Longrightarrow> quota (sessionStorage w') = quota (sessionStorage w)"
  by (cases rule: fire_cases) auto

lemma fire_other_keys:
  "fire enc e w = Some w' \<Longrightarrow> k \<noteq> storage_key \<Longrightarrow>
   getItem k (sessionStorage w') = getItem k (sessionStorage w)"
  by (cases rule: fire_cases) auto

lemma fire_uncaught:
  "fire enc e w = Some w' \<Longrightarrow>
   uncaught w' = uncaught w \<or> uncaught w' = QuotaExceededError # uncaught w"
  by (cases rule: fire_cases) auto

lemma fire_navigation:
  "fire enc e w = Some w' \<Longrightarrow>
   (history w' = history w \<and> location w' = location w \<and>
      sessionStorage w' = sessionStorage w) \<or>
   (history w' = location w # history w \<and> location w' = editor_path \<and>
      (\<exists>file \<in> set (readers w).
         getItem storage_key (sessionStorage w') = Some (uploadedFile_text file (enc file))))"
  by (cases rule: fire_cases) auto

lemma fire_readers:
  assumes "fire enc e w = Some w'"
  shows "length (readers w') =
     (case e of Select file \<Rightarrow> Suc (length (readers w)) | Load i \<Rightarrow> length (readers w) - 1
      | Abort i \<Rightarrow> length (readers w) - 1)"
  using assms by (cases rule: fire_cases) (simp_all add: min_def)


lemma dispatch_load_stored:
  assumes "fits storage_key (uploadedFile_text (readers w ! i) (enc (readers w ! i)))
      (sessionStorage w)"
  shows "dispatch_load enc i w =
     setLocation editor_path (drop_reader i w\<lparr>sessionStorage := (sessionStorage w)
       \<lparr>items := AList.update storage_key
          (uploadedFile_text (readers w ! i) (enc (readers w ! i)))
          (items (sessionStorage w))\<rparr>\<rparr>)"
  using assms by (simp add: setItem_fits_iff dispatch_load_def onload_def)

lemma dispatch_load_thrown:
  assumes "\<not> fits storage_key (uploadedFile_text (readers w ! i) (enc (readers w ! i)))
      (sessionStorage w)"
  shows "dispatch_load enc i w = report QuotaExceededError (drop_reader i w)"
  using assms by (simp add: setItem_not_fits_iff dispatch_load_def onload_def)

lemma dispatch_load_fits [simp]:
  assumes "fits storage_key (uploadedFile_text (readers w ! i) (enc (readers w ! i)))
      (sessionStorage w)"
  shows "getItem storage_key (sessionStorage (dispatch_load enc i w)) =
      Some (uploadedFile_text (readers w ! i) (enc (readers w ! i)))"
    and "location (dispatch_load enc i w) = editor_path"
    and "history (dispatch_load enc i w) = location w # history w"
    and "readers (dispatch_load enc i w) = take i (readers w) @ drop (Suc i) (readers w)"
    and "uncaught (dispatch_load enc i w) = uncaught w"
    and "fits storage_key v (sessionStorage (dispatch_load enc i w)) \<longleftrightarrow>
      fits storage_key v (sessionStorage w)"
  by (simp_all add: dispatch_load_stored [where enc = enc and w = w and i = i, OF assms]
      getItem_def AList.update_conv')

lemma dispatch_load_not_fits [simp]:
  assumes "\<not> fits storage_key (uploadedFile_text (readers w ! i) (enc (readers w ! i)))
      (sessionStorage w)"
  shows "sessionStorage (dispatch_load enc i w) = sessionStorage w"
    and "location (dispatch_load enc i w) = location w"
    and "history (dispatch_load enc i w) = history w"
    and "readers (dispatch_load enc i w) = take i (readers w) @ drop (Suc i) (readers w)"
    and "uncaught (dispatch_load enc i w) = QuotaExceededError # uncaught w"
  by (simp_all add: dispatch_load_thrown [where enc = enc and w = w and i = i, OF assms])

lemma readers_dispatch_load:
  "readers (dispatch_load enc i w) = take i (readers w) @ drop (Suc i) (readers w)"
  by (cases "fits storage_key (uploadedFile_text (readers w ! i) (enc (readers w ! i)))
      (sessionStorage w)") simp_all

lemma initial_simps [simp]:
  "sessionStorage (initial st loc) = st" "location (initial st loc) = loc"
  "history (initial st loc) = []" "readers (initial st loc) = []"
  "uncaught (initial st loc) = []"
  by (simp_all add: initial_def)

section \<open>Invariants of the reachable worlds\<close>

text \<open>
  A property that every event keeps holds in every world that is reachable from
  a world in which it holds.
\<close>

lemma reachable_invariant [consumes 1, case_names init fire]:
  assumes reach: "reachable enc w0 w"
    and init: "P w0"
    and fire: "\<And>w e w'. reachable enc w0 w \<Longrightarrow> P w \<Longrightarrow> fire enc e w = Some w' \<Longrightarrow> P w'"
  shows "P w"
  using reach
proof (induction rule: reachable.induct)
  case init
  show ?case by (rule assms(2))
next
  case (after w e w')
  then show ?case by (auto intro: assms(3) simp: step_iff_fire)
qed

lemma reachable_storage_ok:
  "reachable enc w0 w \<Longrightarrow> storage_ok (sessionStorage w0) \<Longrightarrow> storage_ok (sessionStorage w)"
  by (induction rule: reachable_invariant) (auto intro: fire_storage_ok)

lemma reachable_quota:
  "reachable enc w0 w \<Longrightarrow> quota (sessionStorage w) = quota (sessionStorage w0)"
  by (induction rule: reachable_invariant) (auto simp: fire_quota)

lemma reachable_other_keys:
  "reachable enc w0 w \<Longrightarrow> k \<noteq> storage_key \<Longrightarrow>
   getItem k (sessionStorage w) = getItem k (sessionStorage w0)"
  by (induction rule: reachable_invariant) (auto simp: fire_other_keys)

lemma reachable_uncaught:
  "reachable enc w0 w \<Longrightarrow> set (uncaught w) \<subseteq> insert QuotaExceededError (set (uncaught w0))"
proof (induction rule: reachable_invariant)
  case init
  show ?case by auto
next
  case (fire w e w')
  from fire.hyps(2)
  have "uncaught w' = uncaught w \<or> uncaught w' = QuotaExceededError # uncaught w"
    by (rule fire_uncaught)
  with fire.IH show ?case by auto
qed

text \<open>
  The history records the navigations. As long as it has its initial length
  nothing has been stored and the location is the initial one; once it is longer,
  the location is the editor's and the store holds the record of some file.
\<close>

definition navigated :: "(File \<Rightarrow> jsstring) \<Rightarrow> world \<Rightarrow> world \<Rightarrow> bool" where
  "navigated enc w0 w \<longleftrightarrow>
     length (history w0) < length (history w) \<and> location w = editor_path \<and>
     (\<exists>file. getItem storage_key (sessionStorage w) = Some (uploadedFile_text file (enc file)))"

definition untouched :: "world \<Rightarrow> world \<Rightarrow> bool" where
  "untouched w0 w \<longleftrightarrow>
     history w = history w0 \<and> location w = location w0 \<and> sessionStorage w = sessionStorage w0"

lemma fire_untouched_or_navigated:
  assumes "fire enc e w = Some w'" and "untouched w0 w \<or> navigated enc w0 w"
  shows "untouched w0 w' \<or> navigated enc w0 w'"
proof -
  from assms(1) consider
    (same) "history w' = history w" "location w' = location w"
      "sessionStorage w' = sessionStorage w"
    | (nav) f where "history w' = location w # history w" "location w' = editor_path"
      "getItem storage_key (sessionStorage w') = Some (uploadedFile_text f (enc f))"
    using fire_navigation [of enc e w w'] by blast
  then show ?thesis
  proof cases
    case same
    with assms(2) show ?thesis by (auto simp: untouched_def navigated_def)
  next
    case nav
    from assms(2) have "length (history w0) \<le> length (history w)"
      by (auto simp: untouched_def navigated_def)
    with nav have "navigated enc w0 w'"
      by (auto simp: navigated_def)
    then show ?thesis ..
  qed
qed

lemma reachable_untouched_or_navigated:
  "reachable enc w0 w \<Longrightarrow> untouched w0 w \<or> navigated enc w0 w"
proof (induction rule: reachable_invariant)
  case init
  show ?case by (simp add: untouched_def)
next
  case (fire w e w')
  from fire.hyps(2) fire.IH show ?case by (rule fire_untouched_or_navigated)
qed

section \<open>Where the page goes\<close>

text \<open>
  \<open>trail loc w\<close>: the page is where it was mounted and has no history, or it is in
  the editor and its history is the place of mounting under a number of visits to
  the editor.
\<close>

definition trail :: "jsstring \<Rightarrow> world \<Rightarrow> bool" where
  "trail loc w \<longleftrightarrow>
     (location w = loc \<and> history w = []) \<or>
     (location w = editor_path \<and>
      history w = replicate (length (history w) - 1) editor_path @ [loc] \<and> history w \<noteq> [])"

lemma trail_cases [consumes 1, case_names home editor]:
  assumes "trail loc w"
  obtains "location w = loc" "history w = []"
    | "location w = editor_path" "history w \<noteq> []"
      "history w = replicate (length (history w) - 1) editor_path @ [loc]"
  using assms unfolding trail_def by blast

lemma trail_initial [simp]: "trail loc (initial st loc)"
  by (simp add: trail_def)

lemma trail_push:
  assumes "trail loc w"
  shows "trail loc (w\<lparr>history := location w # history w, location := editor_path\<rparr>)"
proof -
  from assms consider "location w = loc" "history w = []"
    | "location w = editor_path"
      "history w = replicate (length (history w) - 1) editor_path @ [loc]" "history w \<noteq> []"
    by (auto simp: trail_def)
  then show ?thesis
  proof cases
    case 1
    then show ?thesis by (simp add: trail_def)
  next
    case 2
    from 2(2) have "editor_path # history w =
        replicate (length (history w)) editor_path @ [loc]"
      using 2(3) by (cases "history w") (simp_all flip: replicate_Suc)
    with 2 show ?thesis by (simp add: trail_def)
  qed
qed

lemma fire_trail:
  assumes fire: "fire enc e w = Some w'" and trail: "trail loc w"
  shows "trail loc w'"
  using fire
proof (cases rule: fire_cases)
  case (stored i st)
  from trail have "trail loc (drop_reader i w\<lparr>sessionStorage := st\<rparr>)"
    by (simp add: trail_def drop_reader_def)
  from trail_push [OF this] stored(4) show ?thesis
    by (simp add: setLocation_def)
qed (use trail in \<open>simp_all add: trail_def handleFileSelect_def report_def drop_reader_def\<close>)

lemma reachable_trail: "reachable enc (initial st loc) w \<Longrightarrow> trail loc w"
proof (induction rule: reachable_invariant)
  case init
  show ?case by simp
next
  case (fire w e w')
  from fire.hyps(2) fire.IH show ?case by (rule fire_trail)
qed

end
