(* ===== verification/Handoff.thy ===== *)
theory Handoff
  imports Event_Loop
begin

text \<open>
  What the page promises to the editor, as an abstract machine, and that the
  handlers implement it.

  The editor sees three things of a world: the finite map of the session store,
  the current location and the history behind it. On these the page has one
  operation: \<open>deliver text\<close> puts \<open>text\<close> under \<open>uploadedFile\<close> and enters
  \<open>/editor\<close>. \<open>abstraction\<close> forgets the rest of a world (the order of the stored
  pairs, the quota, the pending readers, the reported exceptions).

  \<open>delivery\<close> is the text an event delivers in a world, if it delivers one: the
  record of the file whose read finished, when the store has room for it.
  \<open>deliveries\<close> collects the texts delivered along a run.

  Lemmas: each handler either leaves the abstract state alone or performs
  \<open>deliver\<close> (a functional refinement, \<open>abstraction (f w) = g (abstraction w)\<close>);
  what \<open>deliver\<close> does to the abstract state; and that every delivery uses up a
  pending reader. The root theory lifts these to runs.
\<close>

section \<open>The abstract machine\<close>

record handoff =
  slots :: "jsstring \<rightharpoonup> jsstring"
  page :: jsstring
  trail :: "jsstring list"

definition deliver :: "jsstring \<Rightarrow> handoff \<Rightarrow> handoff" where
  "deliver text h =
     \<lparr>slots = (slots h)(storage_key \<mapsto> text), page = editor_path, trail = page h # trail h\<rparr>"

definition abstraction :: "world \<Rightarrow> handoff" where
  "abstraction w =
     \<lparr>slots = contents (sessionStorage w), page = location w, trail = history w\<rparr>"

section \<open>What a run delivers\<close>

definition delivery :: "(File \<Rightarrow> jsstring) \<Rightarrow> event \<Rightarrow> world \<Rightarrow> jsstring option" where
  "delivery enc e w =
     (case e of
        Load i \<Rightarrow>
          (let text = uploadedFile_text (readers w ! i) (enc (readers w ! i))
           in if i < length (readers w) \<and> fits storage_key text (sessionStorage w)
              then Some text else None)
      | _ \<Rightarrow> None)"

fun deliveries :: "(File \<Rightarrow> jsstring) \<Rightarrow> event list \<Rightarrow> world \<Rightarrow> jsstring list" where
  "deliveries enc [] w = []"
| "deliveries enc (e # es) w =
     (case fire enc e w of
        None \<Rightarrow> []
      | Some w' \<Rightarrow>
          (case delivery enc e w of None \<Rightarrow> [] | Some text \<Rightarrow> [text]) @ deliveries enc es w')"

fun is_select :: "event \<Rightarrow> bool" where
  "is_select (Select file) = True"
| "is_select (Load i) = False"
| "is_select (Abort i) = False"

definition perform :: "jsstring option \<Rightarrow> handoff \<Rightarrow> handoff" where
  "perform d h = (case d of None \<Rightarrow> h | Some text \<Rightarrow> deliver text h)"

lemmas handoff_defs [eval_simps] = deliver_def abstraction_def delivery_def perform_def

section \<open>The abstract operation\<close>

lemma deliver_simps [simp]:
  "slots (deliver text h) storage_key = Some text"
  "k \<noteq> storage_key \<Longrightarrow> slots (deliver text h) k = slots h k"
  "page (deliver text h) = editor_path"
  "trail (deliver text h) = page h # trail h"
  by (simp_all add: deliver_def)

lemma perform_simps [simp]:
  "perform None h = h"
  "perform (Some text) h = deliver text h"
  by (simp_all add: perform_def)

lemma abstraction_simps [simp]:
  "slots (abstraction w) = contents (sessionStorage w)"
  "page (abstraction w) = location w"
  "trail (abstraction w) = history w"
  by (simp_all add: abstraction_def)

lemma foldl_perform_Some:
  "foldl (\<lambda>h text. deliver text h) h (texts @ [text]) =
   deliver text (foldl (\<lambda>h text. deliver text h) h texts)"
  by simp

section \<open>The handlers refine it\<close>

lemma abstraction_handleFileSelect [simp]:
  "abstraction (handleFileSelect file w) = abstraction w"
  by (simp add: abstraction_def handleFileSelect_def)

lemma abstraction_drop_reader [simp]: "abstraction (drop_reader i w) = abstraction w"
  by (simp add: abstraction_def drop_reader_def)

lemma abstraction_report [simp]: "abstraction (report err w) = abstraction w"
  by (simp add: abstraction_def report_def)

lemma abstraction_onload:
  "onload file e w = Inr w' \<Longrightarrow>
   \<exists>r. result_string e = Inr r \<and>
     abstraction w' = deliver (uploadedFile_text file r) (abstraction w)"
  by (auto simp: onload_Inr_iff abstraction_def deliver_def setLocation_def
      contents_setItem)

lemma abstraction_dispatch_load:
  "abstraction (dispatch_load enc i w) =
     (if fits storage_key (uploadedFile_text (readers w ! i) (enc (readers w ! i)))
          (sessionStorage w)
      then deliver (uploadedFile_text (readers w ! i) (enc (readers w ! i))) (abstraction w)
      else abstraction w)"
proof (cases "fits storage_key (uploadedFile_text (readers w ! i) (enc (readers w ! i)))
    (sessionStorage w)")
  case True
  note stored = dispatch_load_stored [where enc = enc and w = w and i = i, OF True]
  show ?thesis
    using True by (simp add: stored abstraction_def deliver_def contents_def
        AList.update_conv')
next
  case False
  note thrown = dispatch_load_thrown [where enc = enc and w = w and i = i, OF False]
  show ?thesis
    using False by (simp add: thrown abstraction_def)
qed

lemma abstraction_fire:
  "fire enc e w = Some w' \<Longrightarrow> abstraction w' = perform (delivery enc e w) (abstraction w)"
  by (cases e) (auto simp: abstraction_dispatch_load delivery_def Let_def split: if_splits)

section \<open>What is delivered\<close>

lemma delivery_Some_iff:
  "delivery enc e w = Some text \<longleftrightarrow>
     (\<exists>i. e = Load i \<and> i < length (readers w) \<and>
        text = uploadedFile_text (readers w ! i) (enc (readers w ! i)) \<and>
        fits storage_key text (sessionStorage w))"
  by (cases e) (auto simp: delivery_def Let_def)

lemma delivery_of_pending_reader:
  "delivery enc e w = Some text \<Longrightarrow>
   \<exists>f \<in> set (readers w). text = uploadedFile_text f (enc f)"
  by (auto simp: delivery_Some_iff)

lemma length_deliveries: "length (deliveries enc es w) \<le> length (filter (\<lambda>e. \<exists>i. e = Load i) es)"
proof (induction es arbitrary: w)
  case Nil
  then show ?case by simp
next
  case (Cons e es)
  show ?case
  proof (cases "fire enc e w")
    case None
    then show ?thesis by simp
  next
    case (Some w1)
    have "length (case delivery enc e w of None \<Rightarrow> [] | Some text \<Rightarrow> [text]) \<le>
        length (filter (\<lambda>e. \<exists>i. e = Load i) [e])"
      by (cases e) (simp_all add: delivery_def Let_def)
    with Cons.IH [of w1] Some show ?thesis
      by (cases "\<exists>i. e = Load i") simp_all
  qed
qed


text \<open>
  Every delivery uses up a pending reader, and only a selection adds one: this is
  the step of the count that bounds the deliveries of a run by its selections.
\<close>

lemma delivery_uses_reader:
  assumes "fire enc e w = Some w'"
  shows "length (case delivery enc e w of None \<Rightarrow> [] | Some text \<Rightarrow> [text]) +
      length (readers w') \<le> length (readers w) + (if is_select e then 1 else 0)"
proof (cases e)
  case (Select f)
  with assms show ?thesis by (auto simp: delivery_def)
next
  case (Load i)
  with assms fire_readers [OF assms] show ?thesis
    by (auto simp: delivery_def Let_def split: if_splits)
next
  case (Abort i)
  with assms fire_readers [OF assms] show ?thesis
    by (auto simp: delivery_def split: if_splits)
qed

end
