(* ===== verification/Home_View.thy ===== *)
theory Home_View
  imports Home_Handler
begin

text \<open>
  What \<open>Home\<close> renders (\<open>src/client/src/pages/home.tsx\<close>, lines 24 to 90): the
  element tree of the JSX, one definition per part of the page. A host element is
  its tag, its props and its children; an imported component is its name and the
  props it is given (what it renders is decided elsewhere); markup text is 8-bit
  because it is fixed ASCII. A callback prop names the function that is passed:
  \<open>call\<close> says which function of the page a name stands for.

  The functions \<open>nodes\<close>, \<open>class_names\<close>, \<open>callbacks\<close>, \<open>texts\<close>, \<open>headings\<close> and
  \<open>component_names\<close> read a tree; they are the vocabulary of the lemmas and model
  no code. \<open>imported\<close> lists the bindings the module imports (lines 1 to 4).

  \<open>feature_card\<close> is the template the four feature cards are written from and
  \<open>feature_table\<close> its four rows; \<open>class_ok\<close> says that a class attribute is a
  list of distinct, non-empty tokens.

  Lemmas: the four cards are the template at the rows of the table; how
  \<open>callbacks\<close> and \<open>classes_ok\<close> of an element are made of those of its
  children; a card has well-formed classes when its two computed attributes have.
  The outline of headings and texts, the one callback of the tree, the components
  against the imports, the feature section as the template mapped over the table,
  and the class attributes of the whole page are evaluated here. The tree is a
  constant, so these lemmas check the transcription and say nothing of behaviour.
\<close>

section \<open>Element trees\<close>

datatype callback = HandleFileSelect

datatype jsx_prop = ClassName string | Size nat | OnFileSelect callback

datatype vnode =
    Element string "jsx_prop list" "vnode list"
  | Component string "jsx_prop list"
  | Text string

fun call :: "callback \<Rightarrow> File \<Rightarrow> world \<Rightarrow> world" where
  "call HandleFileSelect = handleFileSelect"

section \<open>Imports\<close>

text \<open>
  The bindings the module imports (lines 1 to 4): the router hook and the four
  components the JSX names, each with the module it comes from.
\<close>

datatype imported = UseLocation | UploadArea | BottomNavigation | WandSparkles | Menu

fun imported_name :: "imported \<Rightarrow> string" where
  "imported_name UseLocation = ''useLocation''"
| "imported_name UploadArea = ''UploadArea''"
| "imported_name BottomNavigation = ''BottomNavigation''"
| "imported_name WandSparkles = ''WandSparkles''"
| "imported_name Menu = ''Menu''"

fun module_of :: "imported \<Rightarrow> string" where
  "module_of UseLocation = ''wouter''"
| "module_of UploadArea = ''@/components/ui/upload-area''"
| "module_of BottomNavigation = ''@/components/ui/bottom-navigation''"
| "module_of WandSparkles = ''lucide-react''"
| "module_of Menu = ''lucide-react''"

definition imported_components :: "imported list" where
  "imported_components = [UploadArea, BottomNavigation, WandSparkles, Menu]"

section \<open>The page\<close>

definition renderMainContent :: vnode where
  "renderMainContent = Component ''UploadArea'' [OnFileSelect HandleFileSelect]"

definition header :: vnode where
  "header =
     Element ''header'' [ClassName ''bg-white shadow-sm border-b border-slate-200'']
      [Element ''div''
         [ClassName ''max-w-md mx-auto px-4 py-3 flex items-center justify-between'']
         [Element ''div'' [ClassName ''flex items-center space-x-3'']
            [Element ''div''
               [ClassName ''w-8 h-8 bg-gradient-to-br from-primary to-secondary rounded-lg flex items-center justify-center'']
               [Component ''WandSparkles'' [ClassName ''text-white text-sm'', Size 16]],
             Element ''h1'' [ClassName ''text-lg font-semibold text-slate-800'']
               [Text ''AI Image Editor'']],
          Element ''button''
            [ClassName ''w-8 h-8 flex items-center justify-center text-slate-600'']
            [Component ''Menu'' [Size 16]]]]"

definition feature_auto_background :: vnode where
  "feature_auto_background =
     Element ''div'' [ClassName ''bg-white rounded-xl p-4 shadow-sm border border-slate-200'']
      [Element ''div''
         [ClassName ''w-10 h-10 bg-primary/10 rounded-lg flex items-center justify-center mb-3'']
         [Element ''i'' [ClassName ''fas fa-cut text-primary''] []],
       Element ''h4'' [ClassName ''font-medium text-slate-800 mb-1''] [Text ''Auto Background''],
       Element ''p'' [ClassName ''text-xs text-slate-600'']
         [Text ''Remove backgrounds instantly with AI'']]"

definition feature_ai_processing :: vnode where
  "feature_ai_processing =
     Element ''div'' [ClassName ''bg-white rounded-xl p-4 shadow-sm border border-slate-200'']
      [Element ''div''
         [ClassName ''w-10 h-10 bg-secondary/10 rounded-lg flex items-center justify-center mb-3'']
         [Element ''i'' [ClassName ''fas fa-magic text-secondary''] []],
       Element ''h4'' [ClassName ''font-medium text-slate-800 mb-1''] [Text ''AI Processing''],
       Element ''p'' [ClassName ''text-xs text-slate-600'']
         [Text ''Fast and accurate AI processing'']]"

definition feature_fast_processing :: vnode where
  "feature_fast_processing =
     Element ''div'' [ClassName ''bg-white rounded-xl p-4 shadow-sm border border-slate-200'']
      [Element ''div''
         [ClassName ''w-10 h-10 bg-accent/10 rounded-lg flex items-center justify-center mb-3'']
         [Element ''i'' [ClassName ''fas fa-lightning-bolt text-accent''] []],
       Element ''h4'' [ClassName ''font-medium text-slate-800 mb-1''] [Text ''Fast Processing''],
       Element ''p'' [ClassName ''text-xs text-slate-600''] [Text ''Get results in seconds'']]"

definition feature_high_quality :: vnode where
  "feature_high_quality =
     Element ''div'' [ClassName ''bg-white rounded-xl p-4 shadow-sm border border-slate-200'']
      [Element ''div''
         [ClassName ''w-10 h-10 bg-green-500/10 rounded-lg flex items-center justify-center mb-3'']
         [Element ''i'' [ClassName ''fas fa-shield-alt text-green-500''] []],
       Element ''h4'' [ClassName ''font-medium text-slate-800 mb-1''] [Text ''High Quality''],
       Element ''p'' [ClassName ''text-xs text-slate-600''] [Text ''Professional-grade results'']]"

definition features_section :: vnode where
  "features_section =
     Element ''section'' [ClassName ''py-6'']
      [Element ''h3'' [ClassName ''font-semibold text-slate-800 mb-4''] [Text ''Features''],
       Element ''div'' [ClassName ''grid grid-cols-2 gap-3'']
         [feature_auto_background, feature_ai_processing, feature_fast_processing,
          feature_high_quality]]"

definition main_content :: vnode where
  "main_content =
     Element ''main'' [ClassName ''max-w-md mx-auto px-4 pb-20'']
       [renderMainContent, features_section]"

definition Home :: vnode where
  "Home =
     Element ''div'' [ClassName ''bg-slate-50 min-h-screen font-sans'']
       [header, main_content, Component ''BottomNavigation'' []]"

lemmas view_defs [eval_simps] =
  renderMainContent_def header_def feature_auto_background_def feature_ai_processing_def
  feature_fast_processing_def feature_high_quality_def features_section_def main_content_def
  Home_def

section \<open>Reading a tree\<close>

fun props_of :: "vnode \<Rightarrow> jsx_prop list" where
  "props_of (Element tag ps cs) = ps"
| "props_of (Component name ps) = ps"
| "props_of (Text s) = []"

fun label :: "vnode \<Rightarrow> string" where
  "label (Element tag ps cs) = tag"
| "label (Component name ps) = name"
| "label (Text s) = []"

fun nodes :: "vnode \<Rightarrow> vnode list" where
  "nodes (Element tag ps cs) = Element tag ps cs # concat (map nodes cs)"
| "nodes (Component name ps) = [Component name ps]"
| "nodes (Text s) = [Text s]"

fun texts :: "vnode \<Rightarrow> string list" where
  "texts (Element tag ps cs) = concat (map texts cs)"
| "texts (Component name ps) = []"
| "texts (Text s) = [s]"

definition class_names :: "vnode \<Rightarrow> string list" where
  "class_names n = concat (map (\<lambda>p. case p of ClassName c \<Rightarrow> [c] | _ \<Rightarrow> []) (props_of n))"

definition callbacks_of :: "vnode \<Rightarrow> callback list" where
  "callbacks_of n = concat (map (\<lambda>p. case p of OnFileSelect h \<Rightarrow> [h] | _ \<Rightarrow> []) (props_of n))"

definition callbacks :: "vnode \<Rightarrow> (string \<times> callback) list" where
  "callbacks t = concat (map (\<lambda>n. map (Pair (label n)) (callbacks_of n)) (nodes t))"

definition tokens :: "string \<Rightarrow> string list" where
  "tokens c = js_split CHR '' '' c"

definition class_ok :: "string \<Rightarrow> bool" where
  "class_ok c \<longleftrightarrow> [] \<notin> set (tokens c) \<and> distinct (tokens c)"

definition classes_ok :: "vnode \<Rightarrow> bool" where
  "classes_ok t = list_all (\<lambda>n. list_all class_ok (class_names n)) (nodes t)"

fun component_name :: "vnode \<Rightarrow> string list" where
  "component_name (Component name ps) = [name]"
| "component_name (Element tag ps cs) = []"
| "component_name (Text s) = []"

definition component_names :: "vnode \<Rightarrow> string list" where
  "component_names t = concat (map component_name (nodes t))"

definition headings :: "vnode \<Rightarrow> string list" where
  "headings t = filter (\<lambda>l. l \<in> set [''h1'', ''h2'', ''h3'', ''h4'', ''h5'', ''h6'']) (map label (nodes t))"

lemmas tree_defs [eval_simps] =
  class_names_def callbacks_of_def callbacks_def tokens_def headings_def component_names_def
  imported_components_def

declare class_ok_def [wf_simps] classes_ok_def [wf_simps]

section \<open>The feature cards are one template\<close>

definition feature_card :: "string \<Rightarrow> string \<Rightarrow> string \<Rightarrow> string \<Rightarrow> vnode" where
  "feature_card colour icon title descr =
     Element ''div'' [ClassName ''bg-white rounded-xl p-4 shadow-sm border border-slate-200'']
      [Element ''div''
         [ClassName (''w-10 h-10 bg-'' @ colour @ ''/10 rounded-lg flex items-center justify-center mb-3'')]
         [Element ''i'' [ClassName (''fas '' @ icon @ '' text-'' @ colour)] []],
       Element ''h4'' [ClassName ''font-medium text-slate-800 mb-1''] [Text title],
       Element ''p'' [ClassName ''text-xs text-slate-600''] [Text descr]]"

definition feature_table :: "(string \<times> string \<times> string \<times> string) list" where
  "feature_table =
     [(''primary'', ''fa-cut'', ''Auto Background'', ''Remove backgrounds instantly with AI''),
      (''secondary'', ''fa-magic'', ''AI Processing'', ''Fast and accurate AI processing''),
      (''accent'', ''fa-lightning-bolt'', ''Fast Processing'', ''Get results in seconds''),
      (''green-500'', ''fa-shield-alt'', ''High Quality'', ''Professional-grade results'')]"

lemma feature_cards_from_table:
  "map (\<lambda>(colour, icon, title, descr). feature_card colour icon title descr) feature_table =
   [feature_auto_background, feature_ai_processing, feature_fast_processing,
    feature_high_quality]"
  by (simp add: feature_table_def feature_card_def feature_auto_background_def
      feature_ai_processing_def feature_fast_processing_def feature_high_quality_def)

section \<open>Generic facts about trees\<close>

lemma nodes_not_Nil [simp]: "nodes t \<noteq> []"
  by (cases t) simp_all

lemma hd_nodes [simp]: "hd (nodes t) = t"
  by (cases t) simp_all

lemma callbacks_Element:
  "callbacks (Element tag ps cs) =
   map (Pair tag) (callbacks_of (Element tag ps cs)) @ concat (map callbacks cs)"
  by (induction cs) (simp_all add: callbacks_def)

lemma classes_ok_Element:
  "classes_ok (Element tag ps cs) \<longleftrightarrow>
   list_all class_ok (class_names (Element tag ps cs)) \<and> list_all classes_ok cs"
  by (auto simp: classes_ok_def class_names_def list_all_iff)

lemma classes_ok_feature_card:
  "class_ok (''w-10 h-10 bg-'' @ colour @ ''/10 rounded-lg flex items-center justify-center mb-3'')
   \<Longrightarrow> class_ok (''fas '' @ icon @ '' text-'' @ colour)
   \<Longrightarrow> classes_ok (feature_card colour icon title descr)"
  by (simp add: feature_card_def classes_ok_Element class_names_def classes_ok_def class_ok_def
      tokens_def js_split_Cons)

section \<open>Headings and texts\<close>

text \<open>
  The page has one \<open>h1\<close>, the title; the features section is headed by an \<open>h3\<close>
  and its cards by \<open>h4\<close>, so there is no \<open>h2\<close>.
\<close>

lemma Home_headings_and_texts:
  "headings Home = [''h1'', ''h3'', ''h4'', ''h4'', ''h4'', ''h4''] \<and>
   texts Home =
     [''AI Image Editor'', ''Features'',
      ''Auto Background'', ''Remove backgrounds instantly with AI'',
      ''AI Processing'', ''Fast and accurate AI processing'',
      ''Fast Processing'', ''Get results in seconds'',
      ''High Quality'', ''Professional-grade results'']"
  by (simp add: eval_simps)

section \<open>Callbacks\<close>

text \<open>
  The tree passes one function of the page to one component: \<open>handleFileSelect\<close>
  as \<open>onFileSelect\<close> of the upload widget. No host element has a handler; the
  menu button of the header in particular has none.
\<close>

lemma Home_callbacks: "callbacks Home = [(''UploadArea'', HandleFileSelect)]"
  by (simp add: eval_simps)

section \<open>Components and imports\<close>

text \<open>
  Every component the tree names is bound by an import of the module, and every
  component the module imports is rendered: the JSX has no unbound name and the
  module no unused component import.
\<close>

lemma Home_components_are_imported:
  "list_all (\<lambda>n. n \<in> set (map imported_name imported_components)) (component_names Home) \<and>
   list_all (\<lambda>i. imported_name i \<in> set (component_names Home)) imported_components"
  by (simp add: eval_simps)

section \<open>Templates and class attributes\<close>

text \<open>
  The four cards of the features section are the instances of one template at the
  rows of \<open>feature_table\<close>, in the order of the table: they differ in colour, icon,
  title and description only.
\<close>

lemma feature_cards_are_template_instances:
  "features_section =
     Element ''section'' [ClassName ''py-6'']
      [Element ''h3'' [ClassName ''font-semibold text-slate-800 mb-4''] [Text ''Features''],
       Element ''div'' [ClassName ''grid grid-cols-2 gap-3'']
         (map (\<lambda>(colour, icon, title, descr). feature_card colour icon title descr)
            feature_table)]"
  by (simp add: features_section_def feature_cards_from_table)

text \<open>
  Every \<open>className\<close> of the page is a list of non-empty, pairwise distinct tokens
  separated by single spaces: no attribute has a leading, trailing or doubled space,
  and none names a class twice.
\<close>

lemma Home_classes_ok:
  "classes_ok Home"
  by (simp add: eval_simps wf_simps)

end
