(* ===== verification/Base64_Decode.thy ===== *)
theory Base64_Decode
  imports Base64
begin

text \<open>
  Reading base64 back (RFC 4648, section 4), as the consumer of the record has to:
  four digits become three bytes, and a last group that ends in one or two padding
  characters becomes two bytes or one. A text whose length is not a multiple of
  four, or that contains a code unit outside the alphabet (padding anywhere but at
  the end included), has no decoding.

  \<open>digit_value\<close> is the position of a digit in the alphabet; \<open>index_of\<close> is the
  search it uses.

  Lemmas: decoding undoes \<open>base64_encode\<close>, so the encoding is injective: the
  text determines the bytes.
\<close>

section \<open>Definitions\<close>

fun index_of :: "'a \<Rightarrow> 'a list \<Rightarrow> nat option" where
  "index_of x [] = None"
| "index_of x (y # ys) = (if x = y then Some 0 else map_option Suc (index_of x ys))"

definition digit_value :: "code_unit \<Rightarrow> byte option" where
  "digit_value c = map_option of_nat (index_of c base64_alphabet)"

definition octet1 :: "byte \<Rightarrow> byte \<Rightarrow> byte" where
  "octet1 p q = push_bit 2 p OR drop_bit 4 q"

definition octet2 :: "byte \<Rightarrow> byte \<Rightarrow> byte" where
  "octet2 q r = push_bit 4 (q AND 0xF) OR drop_bit 2 r"

definition octet3 :: "byte \<Rightarrow> byte \<Rightarrow> byte" where
  "octet3 r s = push_bit 6 (r AND 3) OR s"

fun base64_decode :: "jsstring \<Rightarrow> byte list option" where
  "base64_decode [] = Some []"
| "base64_decode (a # b # c # d # rest) =
     (case (digit_value a, digit_value b) of
        (Some p, Some q) \<Rightarrow>
          (if rest = [] \<and> c = pad \<and> d = pad then Some [octet1 p q]
           else (case digit_value c of
              None \<Rightarrow> None
            | Some r \<Rightarrow>
                (if rest = [] \<and> d = pad then Some [octet1 p q, octet2 q r]
                 else (case (digit_value d, base64_decode rest) of
                    (Some s, Some bs) \<Rightarrow> Some (octet1 p q # octet2 q r # octet3 r s # bs)
                  | _ \<Rightarrow> None))))
      | _ \<Rightarrow> None)"
| "base64_decode _ = None"

lemmas base64_decode_defs [eval_simps] = digit_value_def octet1_def octet2_def octet3_def

section \<open>Positions in the alphabet\<close>

lemma index_of_nth:
  "distinct xs \<Longrightarrow> n < length xs \<Longrightarrow> index_of (xs ! n) xs = Some n"
proof (induction xs arbitrary: n)
  case Nil
  then show ?case by simp
next
  case (Cons x xs)
  then show ?case by (cases n) auto
qed

lemma index_of_Some_iff:
  "index_of x xs = Some n \<longleftrightarrow> n < length xs \<and> xs ! n = x \<and> x \<notin> set (take n xs)"
proof (induction xs arbitrary: n)
  case Nil
  then show ?case by simp
next
  case (Cons y ys)
  then show ?case by (cases n) auto
qed

lemma index_of_None_iff: "index_of x xs = None \<longleftrightarrow> x \<notin> set xs"
  by (induction xs) auto

lemma distinct_base64_alphabet: "distinct base64_alphabet"
  by (simp add: base64_alphabet_def js_def)

lemma digit_value_digit [simp]: "digit_value (base64_digit v) = Some (v AND 0x3F)"
  by (simp add: digit_value_def base64_digit_def index_of_nth distinct_base64_alphabet
      unat_sextet_less)

lemma digit_value_pad [simp]: "digit_value pad = None"
  by (simp add: digit_value_def index_of_None_iff)

lemma base64_digit_not_pad [simp]: "base64_digit v \<noteq> pad"
  using base64_digit_in_alphabet [of v] pad_not_in_alphabet by metis

lemma digit_value_less: "digit_value c = Some v \<Longrightarrow> v < 64"
proof -
  assume "digit_value c = Some v"
  then obtain n where "index_of c base64_alphabet = Some n" and v: "v = of_nat n"
    by (auto simp: digit_value_def)
  then have "n < 64"
    by (simp add: index_of_Some_iff)
  then have "unat (of_nat n :: byte) < 64"
    by (simp add: unat_of_nat)
  then show ?thesis
    by (simp add: v word_less_nat_alt)
qed

section \<open>Bytes from sextets\<close>

text \<open>Two bytes are equal when their eight bits are.\<close>

lemma bit_index_cases:
  "n < 8 \<Longrightarrow> n = 0 \<or> n = 1 \<or> n = 2 \<or> n = 3 \<or> n = 4 \<or> n = 5 \<or> n = 6 \<or> (n::nat) = 7"
  by arith

lemma byte_eqI:
  fixes a b :: byte
  assumes "bit a 0 = bit b 0" "bit a 1 = bit b 1" "bit a 2 = bit b 2" "bit a 3 = bit b 3"
    "bit a 4 = bit b 4" "bit a 5 = bit b 5" "bit a 6 = bit b 6" "bit a 7 = bit b 7"
  shows "a = b"
proof (rule bit_word_eqI)
  fix n assume "n < LENGTH(8)"
  then have "n < 8" by simp
  from bit_index_cases [OF this] assms show "bit a n = bit b n"
    by auto
qed

lemma octet1_sextets [simp]:
  "octet1 (drop_bit 2 a AND 63) ((push_bit 4 a AND 48 OR drop_bit 4 b) AND 63) = a"
  by (rule byte_eqI) (simp_all add: octet1_def bit_simps)

lemma octet1_last [simp]:
  "octet1 (drop_bit 2 a AND 63) ((push_bit 4 a AND 48) AND 63) = a"
  by (rule byte_eqI) (simp_all add: octet1_def bit_simps)

lemma octet2_sextets [simp]:
  "octet2 ((push_bit 4 a AND 48 OR drop_bit 4 b) AND 63)
     ((push_bit 2 b AND 60 OR drop_bit 6 c) AND 63) = b"
  by (rule byte_eqI) (simp_all add: octet2_def bit_simps)

lemma octet2_last [simp]:
  "octet2 ((push_bit 4 a AND 48 OR drop_bit 4 b) AND 63) ((push_bit 2 b AND 60) AND 63) = b"
  by (rule byte_eqI) (simp_all add: octet2_def bit_simps)

lemma octet3_sextets [simp]:
  "octet3 ((push_bit 2 b AND 60 OR drop_bit 6 c) AND 63) (c AND 63) = c"
  by (rule byte_eqI) (simp_all add: octet3_def bit_simps)

section \<open>Round trip\<close>

lemma base64_decode_encode [simp]: "base64_decode (base64_encode bs) = Some bs"
  by (induction bs rule: base64_encode.induct) simp_all

lemma base64_encode_inject [simp]: "base64_encode bs = base64_encode bs' \<longleftrightarrow> bs = bs'"
proof
  assume "base64_encode bs = base64_encode bs'"
  then have "base64_decode (base64_encode bs) = base64_decode (base64_encode bs')"
    by simp
  then show "bs = bs'" by simp
qed simp

lemma base64_decode_group:
  assumes "base64_decode (a # b # c # d # rest) = Some bs"
  shows "(rest = [] \<and> length bs \<le> 3) \<or>
     (\<exists>bs'. base64_decode rest = Some bs' \<and> length bs = 3 + length bs')"
  using assms by (auto split: option.splits if_splits)

lemma base64_decode_length:
  "base64_decode s = Some bs \<Longrightarrow> length s mod 4 = 0 \<and> length bs \<le> 3 * (length s div 4)"
proof (induction "length s" arbitrary: s bs rule: less_induct)
  case less
  show ?case
  proof (cases s rule: base64_decode.cases)
    case 1
    with less.prems show ?thesis by simp
  next
    case (2 a b c d rest)
    from base64_decode_group [OF less.prems [unfolded 2]] show ?thesis
    proof
      assume "rest = [] \<and> length bs \<le> 3"
      with 2 show ?thesis by simp
    next
      assume "\<exists>bs'. base64_decode rest = Some bs' \<and> length bs = 3 + length bs'"
      then obtain bs' where rest: "base64_decode rest = Some bs'"
        and bs: "length bs = 3 + length bs'"
        by blast
      have len: "length s = length rest + 4"
        by (simp add: 2)
      have "length rest mod 4 = 0 \<and> length bs' \<le> 3 * (length rest div 4)"
        by (rule less.hyps [OF _ rest]) (simp add: len)
      then show ?thesis
        by (simp only: len bs mod_add_self2 div_add_self2) simp
    qed
  qed (use less.prems in simp_all)
qed

end
