(* ===== verification/JSON_Parse.thy ===== *)
theory JSON_Parse
  imports JSON_Text
begin

text \<open>
  Reading the record back. The page that is navigated to gets the text from the
  store and passes it to \<open>JSON.parse\<close>. This theory has the part of \<open>JSON.parse\<close>
  that reads what \<open>JSON_stringify\<close> writes: an object whose members are strings,
  with no white space between the tokens.

  \<^item> \<open>parse_units\<close> reads the inside of a string literal up to the closing quote:
    a backslash starts one of the eight short escapes or \<open>\uXXXX\<close> with four
    hexadecimal digits of either case, a control character is an error, every
    other code unit stands for itself.
  \<^item> \<open>parse_member\<close> reads \<open>"key":"value"\<close>, \<open>parse_members\<close> a list of members
    separated by commas, \<open>JSON_parse\<close> an object.

  Every function returns what it read and the text that is left, or \<open>None\<close> for a
  text outside this fragment (which may still be JSON: numbers, nested values and
  white space are not read here).

  Lemmas: reading undoes writing (\<open>parse_units\<close> after \<open>quote_units\<close>,
  \<open>JSON_parse\<close> after \<open>JSON_stringify\<close>), so quoting is injective; every reader
  consumes at least one code unit, which is the termination argument of
  \<open>parse_members\<close>; and the writer never produces a control character.
\<close>

section \<open>String literals\<close>

definition hex_value :: "code_unit \<Rightarrow> code_unit option" where
  "hex_value c =
     (if 0x30 \<le> c \<and> c \<le> 0x39 then Some (c - 0x30)
      else if 0x61 \<le> c \<and> c \<le> 0x66 then Some (c - 0x57)
      else if 0x41 \<le> c \<and> c \<le> 0x46 then Some (c - 0x37)
      else None)"

definition hex4 :: "code_unit \<Rightarrow> code_unit \<Rightarrow> code_unit \<Rightarrow> code_unit \<Rightarrow> code_unit option" where
  "hex4 h1 h2 h3 h4 =
     (case (hex_value h1, hex_value h2, hex_value h3, hex_value h4) of
        (Some a, Some b, Some c, Some d) \<Rightarrow>
          Some (push_bit 12 a OR push_bit 8 b OR push_bit 4 c OR d)
      | _ \<Rightarrow> None)"

definition short_escape :: "code_unit \<Rightarrow> code_unit option" where
  "short_escape e =
     (if e = 0x62 then Some 0x08
      else if e = 0x74 then Some 0x09
      else if e = 0x6E then Some 0x0A
      else if e = 0x66 then Some 0x0C
      else if e = 0x72 then Some 0x0D
      else if e = 0x22 then Some 0x22
      else if e = 0x5C then Some 0x5C
      else if e = 0x2F then Some 0x2F
      else None)"

definition cons_unit :: "code_unit \<Rightarrow> (jsstring \<times> jsstring) option \<Rightarrow> (jsstring \<times> jsstring) option" where
  "cons_unit u r = map_option (\<lambda>(s, rest). (u # s, rest)) r"

fun parse_units :: "jsstring \<Rightarrow> (jsstring \<times> jsstring) option" where
  "parse_units [] = None"
| "parse_units (c # cs) =
     (if c = 0x22 then Some ([], cs)
      else if c = 0x5C then
        (case cs of
           [] \<Rightarrow> None
         | e # rest \<Rightarrow>
             (if e = 0x75 then
                (case rest of
                   h1 # h2 # h3 # h4 # rest' \<Rightarrow>
                     (case hex4 h1 h2 h3 h4 of
                        None \<Rightarrow> None
                      | Some u \<Rightarrow> cons_unit u (parse_units rest'))
                 | _ \<Rightarrow> None)
              else
                (case short_escape e of
                   None \<Rightarrow> None
                 | Some u \<Rightarrow> cons_unit u (parse_units rest))))
      else if c < 0x20 then None
      else cons_unit c (parse_units cs))"

definition parse_string :: "jsstring \<Rightarrow> (jsstring \<times> jsstring) option" where
  "parse_string s = (case s of [] \<Rightarrow> None | c # cs \<Rightarrow> if c = 0x22 then parse_units cs else None)"

section \<open>Objects of strings\<close>

definition parse_member :: "jsstring \<Rightarrow> ((jsstring \<times> jsstring) \<times> jsstring) option" where
  "parse_member s =
     (case parse_string s of
        Some (k, c # rest) \<Rightarrow>
          (if c = 0x3A then
             (case parse_string rest of
                Some (v, rest') \<Rightarrow> Some ((k, v), rest')
              | None \<Rightarrow> None)
           else None)
      | _ \<Rightarrow> None)"

lemma cons_unit_Some_iff:
  "cons_unit u r = Some (s, rest) \<longleftrightarrow> (\<exists>s'. r = Some (s', rest) \<and> s = u # s')"
  by (cases r) (auto simp: cons_unit_def)

lemma parse_units_shorter: "parse_units s = Some (v, rest) \<Longrightarrow> length rest < length s"
proof (induction s arbitrary: v rule: parse_units.induct)
  case 1
  then show ?case by simp
next
  case (2 c cs)
  show ?case
  proof (cases "c = 0x22")
    case True
    with "2.prems" show ?thesis by simp
  next
    case quote: False
    show ?thesis
    proof (cases "c = 0x5C")
      case False
      with quote "2.prems" "2.IH"(3) show ?thesis
        by (fastforce simp: cons_unit_Some_iff split: if_splits)
    next
      case True
      with quote "2.prems" "2.IH"(1,2) show ?thesis
        by (fastforce simp: cons_unit_Some_iff split: if_splits list.splits option.splits)
    qed
  qed
qed

lemma parse_string_shorter: "parse_string s = Some (v, rest) \<Longrightarrow> length rest < length s"
  by (auto simp: parse_string_def split: list.splits if_splits dest: parse_units_shorter)

lemma parse_member_shorter: "parse_member s = Some (m, rest) \<Longrightarrow> length rest < length s"
  by (fastforce simp: parse_member_def split: option.splits list.splits if_splits prod.splits
      dest: parse_string_shorter)

function parse_members :: "jsstring \<Rightarrow> (jsstring \<times> jsstring) list option" where
  "parse_members s =
     (case parse_member s of
        Some (m, c # rest) \<Rightarrow>
          (if c = 0x7D \<and> rest = [] then Some [m]
           else if c = 0x2C then map_option (Cons m) (parse_members rest)
           else None)
      | _ \<Rightarrow> None)"
  by pat_completeness auto
termination
  by (relation "measure length") (auto dest: parse_member_shorter)

definition JSON_parse :: "jsstring \<Rightarrow> (jsstring \<times> jsstring) list option" where
  "JSON_parse s =
     (case s of
        c # rest \<Rightarrow>
          (if c = 0x7B then (if rest = [0x7D] then Some [] else parse_members rest) else None)
      | [] \<Rightarrow> None)"

declare parse_members.simps [simp del]

lemmas json_parse_defs [eval_simps] =
  hex_value_def hex4_def short_escape_def cons_unit_def parse_string_def parse_member_def
  JSON_parse_def parse_members.simps

section \<open>Hexadecimal digits\<close>

lemma nibble_less: "(x AND 0xF :: code_unit) < 16"
proof -
  have "x AND 0xF \<le> 0xF" by (rule word_and_le1)
  then show ?thesis by (simp add: word_le_nat_alt word_less_nat_alt)
qed

lemma hex_value_hex_digit: "d < 16 \<Longrightarrow> hex_value (hex_digit d) = Some d"
  unfolding hex_value_def hex_digit_def
  by (simp add: word_less_nat_alt word_le_nat_alt unat_word_ariths)

lemma hex_value_nibble [simp]: "hex_value (hex_digit (x AND 0xF)) = Some (x AND 0xF)"
  by (rule hex_value_hex_digit) (rule nibble_less)

lemma nibble_take_bit: "x AND 0xF = take_bit 4 x" for x :: code_unit
  by (simp add: take_bit_eq_mask mask_eq_exp_minus_1)

lemma nibbles_join:
  "push_bit 12 (drop_bit 12 c AND 0xF) OR push_bit 8 (drop_bit 8 c AND 0xF) OR
   push_bit 4 (drop_bit 4 c AND 0xF) OR (c AND 0xF) = c" for c :: code_unit
  unfolding nibble_take_bit
proof (rule bit_word_eqI)
  fix n :: nat
  assume n: "n < LENGTH(16)"
  consider "n < 4" | "4 \<le> n \<and> n < 8" | "8 \<le> n \<and> n < 12" | "12 \<le> n"
    by linarith
  then show "bit (push_bit 12 (take_bit 4 (drop_bit 12 c)) OR push_bit 8 (take_bit 4 (drop_bit 8 c)) OR
      push_bit 4 (take_bit 4 (drop_bit 4 c)) OR take_bit 4 c) n = bit c n"
    using n by cases (auto simp: bit_simps)
qed

section \<open>Reading what was quoted\<close>

lemma parse_units_unicode_escape:
  "parse_units (0x5C # 0x75 # h1 # h2 # h3 # h4 # rest) =
   (case hex4 h1 h2 h3 h4 of None \<Rightarrow> None | Some u \<Rightarrow> cons_unit u (parse_units rest))"
  by simp

lemma hex4_unicode_escape:
  "unicode_escape c = [0x5C, 0x75, h1, h2, h3, h4] \<Longrightarrow> hex4 h1 h2 h3 h4 = Some c"
  using nibbles_join [of c] by (auto simp: unicode_escape_def hex4_def)

lemma parse_units_escape_unit:
  "parse_units (escape_unit c @ s) = cons_unit c (parse_units s)"
proof -
  have u: "parse_units (unicode_escape c @ s) = cons_unit c (parse_units s)"
    using nibbles_join [of c] by (simp add: unicode_escape_def hex4_def)
  show ?thesis
    by (simp add: escape_unit_def u short_escape_def is_high_surrogate_def is_low_surrogate_def)
qed

lemma surrogate_not_special:
  "is_high_surrogate c \<or> is_low_surrogate c \<Longrightarrow> c \<noteq> 0x22 \<and> c \<noteq> 0x5C \<and> \<not> c < 0x20"
  by (auto simp: is_high_surrogate_def is_low_surrogate_def word_le_nat_alt word_less_nat_alt)

lemma parse_units_quote_units [simp]:
  "parse_units (quote_units s @ 0x22 # rest) = Some (s, rest)"
proof (induction s rule: quote_units.induct)
  case 1
  then show ?case by simp
next
  case (2 c)
  then show ?case by (simp add: parse_units_escape_unit cons_unit_def)
next
  case (3 c d cs)
  show ?case
  proof (cases "is_high_surrogate c \<and> is_low_surrogate d")
    case True
    with surrogate_not_special [of c] surrogate_not_special [of d] "3.IH"(1) [OF True]
    show ?thesis
      by (simp add: cons_unit_def)
  next
    case False
    then have "quote_units (c # d # cs) = escape_unit c @ quote_units (d # cs)"
      by auto
    with "3.IH"(2) [OF False] show ?thesis
      by (simp add: parse_units_escape_unit cons_unit_def del: parse_units.simps quote_units.simps)
  qed
qed

lemma parse_string_QuoteJSONString [simp]:
  "parse_string (QuoteJSONString s @ rest) = Some (s, rest)"
  by (simp add: parse_string_def QuoteJSONString_def)

lemma parse_member_serialized [simp]:
  "parse_member (QuoteJSONString k @ 0x3A # QuoteJSONString v @ rest) = Some ((k, v), rest)"
  by (simp add: parse_member_def)


section \<open>Reading a list of members\<close>

lemma parse_members_last:
  "parse_member s = Some (m, [0x7D]) \<Longrightarrow> parse_members s = Some [m]"
  by (simp add: parse_members.simps)

lemma parse_members_more:
  "parse_member s = Some (m, 0x2C # rest) \<Longrightarrow>
   parse_members s = map_option (Cons m) (parse_members rest)"
  by (simp add: parse_members.simps)

lemma parse_members_None: "parse_member s = None \<Longrightarrow> parse_members s = None"
  by (simp add: parse_members.simps)

fun serialized :: "jsstring \<times> jsstring \<Rightarrow> jsstring" where
  "serialized (k, v) = QuoteJSONString k @ 0x3A # QuoteJSONString v"

lemma parse_member_serialized_pair [simp]:
  "parse_member (serialized m @ rest) = Some (m, rest)"
  by (cases m) simp

lemma parse_members_join [simp]:
  "parse_members (js_join comma (serialized m # map serialized ms) @ [0x7D]) = Some (m # ms)"
proof (induction ms arbitrary: m)
  case Nil
  then show ?case by (simp add: parse_members_last)
next
  case (Cons m' ms)
  have "parse_members (js_join comma (serialized m # map serialized (m' # ms)) @ [0x7D]) =
      map_option (Cons m) (parse_members (js_join comma (serialized m' # map serialized ms) @ [0x7D]))"
    by (rule parse_members_more) (simp add: comma_def)
  with Cons [of m'] show ?case by simp
qed

text \<open>
  The members \<open>JSON_stringify\<close> writes are those whose value is a string;
  \<open>string_members\<close> lists them.
\<close>

definition string_members :: "(jsstring \<times> json_value) list \<Rightarrow> (jsstring \<times> jsstring) list" where
  "string_members props =
     List.map_filter (\<lambda>(k, v). case v of JUndefined \<Rightarrow> None | JString s \<Rightarrow> Some (k, s)) props"

lemma map_filter_serialize_member:
  "List.map_filter serialize_member props = map serialized (string_members props)"
proof (induction props)
  case Nil
  then show ?case by (simp add: string_members_def List.map_filter_simps)
next
  case (Cons p props)
  obtain k v where p: "p = (k, v)" by (cases p)
  with Cons show ?case
    by (cases v) (simp_all add: string_members_def List.map_filter_simps)
qed

lemma JSON_parse_stringify [simp]:
  "JSON_parse (JSON_stringify props) = Some (string_members props)"
proof (cases "string_members props")
  case Nil
  then show ?thesis
    by (simp add: JSON_parse_def JSON_stringify_def map_filter_serialize_member)
next
  case (Cons m ms)
  have "QuoteJSONString k \<noteq> [0x7D]" for k
    by (simp add: QuoteJSONString_def)
  then have "js_join comma (map serialized (m # ms)) @ [0x7D] \<noteq> [0x7D]"
    by (cases m) (simp add: js_join_Nil_iff QuoteJSONString_def)
  with Cons show ?thesis
    by (simp add: JSON_parse_def JSON_stringify_def map_filter_serialize_member
        del: js_join.simps)
qed

lemma QuoteJSONString_inject [simp]: "QuoteJSONString s = QuoteJSONString t \<longleftrightarrow> s = t"
proof
  assume "QuoteJSONString s = QuoteJSONString t"
  then have "parse_string (QuoteJSONString s @ []) = parse_string (QuoteJSONString t @ [])"
    by simp
  then show "s = t"
    by (simp only: parse_string_QuoteJSONString) simp
qed simp

section \<open>The text has no control characters\<close>

text \<open>
  A control character inside a string literal is an error for the reader, so the
  writer must not produce one: everything \<open>JSON_stringify\<close> writes is
  \<open>printable\<close>.
\<close>

definition printable :: "code_unit \<Rightarrow> bool" where
  "printable c \<longleftrightarrow> 0x20 \<le> c"

lemma printable_hex_digit: "d < 16 \<Longrightarrow> printable (hex_digit d)"
  by (simp add: printable_def hex_digit_def word_less_nat_alt word_le_nat_alt unat_word_ariths)

lemma printable_unicode_escape: "list_all printable (unicode_escape c)"
  using printable_hex_digit [OF nibble_less]
  by (simp add: unicode_escape_def) (simp add: printable_def)

lemma printable_escape_unit: "list_all printable (escape_unit c)"
  using printable_unicode_escape [of c]
  by (auto simp: escape_unit_def printable_def not_less)

lemma printable_surrogate: "is_high_surrogate c \<or> is_low_surrogate c \<Longrightarrow> printable c"
  using surrogate_not_special [of c] by (auto simp: printable_def not_less)

lemma printable_quote_units: "list_all printable (quote_units s)"
  by (induction s rule: quote_units.induct)
    (auto simp: printable_escape_unit printable_surrogate)

lemma printable_QuoteJSONString: "list_all printable (QuoteJSONString s)"
  by (simp add: QuoteJSONString_def printable_quote_units) (simp add: printable_def)

lemma printable_js_join:
  "printable sep \<Longrightarrow> list_all (list_all printable) ps \<Longrightarrow> list_all printable (js_join sep ps)"
  by (induction sep ps rule: js_join.induct) simp_all

lemma printable_serialize_member:
  "serialize_member p = Some m \<Longrightarrow> list_all printable m"
  by (cases p rule: serialize_member.cases)
    (auto simp: printable_QuoteJSONString, simp add: printable_def)

lemma printable_JSON_stringify: "list_all printable (JSON_stringify props)"
proof -
  have c: "printable comma" "printable 0x7B" "printable 0x7D"
    by (simp_all add: printable_def comma_def)
  have "list_all (list_all printable) (List.map_filter serialize_member props)"
  proof (induction props)
    case Nil
    then show ?case by (simp add: List.map_filter_simps)
  next
    case (Cons p props)
    then show ?case
      by (cases "serialize_member p") (simp_all add: List.map_filter_simps printable_serialize_member)
  qed
  with c show ?thesis
    by (auto simp: JSON_stringify_def split: list.splits intro!: printable_js_join)
qed

end
