(* ===== verification/Record_Reader.thy ===== *)
theory Record_Reader
  imports Home_Handler Base64_Decode JSON_Parse
begin

text \<open>
  The other end of the hand-off: what the page that is navigated to can get out of
  the store. \<open>read_uploadedFile\<close> gets the text under \<open>uploadedFile\<close>, parses it
  and reads the three properties of the record (\<open>fileData\<close> may be missing, the
  other two may not); \<open>file_of_record\<close> decodes the base64 text into the bytes of
  the file.

  Lemmas: the reader gets back the object the page built, whatever the result of
  the read was; for the data URL of a file whose media type has no comma it gets
  back the file; so the text the page stores determines the record.
\<close>

section \<open>Definitions\<close>

definition read_uploadedFile :: "storage \<Rightarrow> file_data option" where
  "read_uploadedFile st =
     (case getItem storage_key st of
        None \<Rightarrow> None
      | Some text \<Rightarrow>
          (case JSON_parse text of
             None \<Rightarrow> None
           | Some ms \<Rightarrow>
               (case (map_of ms (js ''fileName''), map_of ms (js ''fileType'')) of
                  (Some n, Some t) \<Rightarrow>
                    Some \<lparr>fileName = n, fileType = t, fileData = map_of ms (js ''fileData'')\<rparr>
                | _ \<Rightarrow> None)))"

definition file_of_record :: "file_data \<Rightarrow> File option" where
  "file_of_record d =
     (case fileData d of
        None \<Rightarrow> None
      | Some text \<Rightarrow>
          (case base64_decode text of
             None \<Rightarrow> None
           | Some bs \<Rightarrow> Some \<lparr>file_name = fileName d, file_type = fileType d, file_bytes = bs\<rparr>))"

lemmas reader_defs [eval_simps] = read_uploadedFile_def file_of_record_def

section \<open>Reading the record back\<close>

lemma string_members_object_of:
  "string_members (object_of d) =
     (js ''fileName'', fileName d) # (js ''fileType'', fileType d) #
     (case fileData d of None \<Rightarrow> [] | Some text \<Rightarrow> [(js ''fileData'', text)])"
  by (cases "fileData d") (simp_all add: string_members_def object_of_def List.map_filter_simps)

lemma JSON_parse_object_of [simp]:
  "JSON_parse (JSON_stringify (object_of d)) =
     Some ((js ''fileName'', fileName d) # (js ''fileType'', fileType d) #
       (case fileData d of None \<Rightarrow> [] | Some text \<Rightarrow> [(js ''fileData'', text)]))"
  by (simp add: string_members_object_of)

lemma read_uploadedFile_stored:
  "getItem storage_key st = Some (JSON_stringify (object_of d)) \<Longrightarrow> read_uploadedFile st = Some d"
  by (cases "fileData d") (simp_all add: read_uploadedFile_def string_members_object_of)

lemma read_uploadedFile_empty [simp]: "read_uploadedFile (empty_storage q) = None"
  by (simp add: read_uploadedFile_def)

lemma JSON_stringify_object_of_inject [simp]:
  "JSON_stringify (object_of d) = JSON_stringify (object_of d') \<longleftrightarrow> d = d'"
proof
  assume eq: "JSON_stringify (object_of d) = JSON_stringify (object_of d')"
  let ?st = "\<lparr>items = [(storage_key, JSON_stringify (object_of d))], quota = 0\<rparr>"
  have "read_uploadedFile ?st = Some d"
    by (rule read_uploadedFile_stored) (simp add: getItem_def)
  moreover have "read_uploadedFile ?st = Some d'"
    by (rule read_uploadedFile_stored) (simp add: getItem_def eq)
  ultimately show "d = d'" by simp
qed simp

section \<open>Decoding the file\<close>

lemma file_of_record_data_url:
  "comma \<notin> set (file_type file) \<Longrightarrow>
   file_of_record (fileData_obj file (data_url file)) = Some file"
  by (simp add: file_of_record_def fileData_obj_def fileData_of_result_data_url)

lemma file_of_record_None_iff:
  "file_of_record d = None \<longleftrightarrow>
     fileData d = None \<or> (\<exists>text. fileData d = Some text \<and> base64_decode text = None)"
  by (auto simp: file_of_record_def split: option.splits)

end
