(* ===== verification/Split_Loop.thy ===== *)
theory Split_Loop
  imports JS_String "HOL-Library.While_Combinator"
begin

text \<open>
  \<open>String.prototype.split\<close> as the standard states it: a loop over two indices
  into the string. \<open>p\<close> is where the current piece starts, \<open>q\<close> where the separator
  is looked for next; a match at \<open>q\<close> appends the piece from \<open>p\<close> to \<open>q\<close> to the
  array \<open>A\<close> and moves both indices behind the separator. The array never grows
  past \<open>2\<^sup>3\<^sup>2 - 1\<close> pieces (the default of the \<open>limit\<close> argument, which the page
  does not pass): the loop returns as soon as it has that many.

  \<open>split_loop\<close> is the algorithm for a separator of one code unit, with the loop
  kept as a loop (\<open>while_option\<close> on the record \<open>split_state\<close>); \<open>SplitMatch\<close> and
  \<open>substring\<close> are the operations of the standard it uses.

  Lemmas: the loop stops on every string, and it computes the first
  \<open>2\<^sup>3\<^sup>2 - 1\<close> pieces of the recursive \<open>js_split\<close>, so the two agree on every
  index below the limit.
\<close>

section \<open>The algorithm\<close>

definition split_limit :: nat where
  "split_limit = 2 ^ 32 - 1"

definition SplitMatch :: "'a list \<Rightarrow> nat \<Rightarrow> 'a \<Rightarrow> nat option" where
  "SplitMatch S q R =
     (if length S < q + 1 then None else if S ! q \<noteq> R then None else Some (q + 1))"

definition substring :: "'a list \<Rightarrow> nat \<Rightarrow> nat \<Rightarrow> 'a list" where
  "substring S i j = take (j - i) (drop i S)"

record 'a split_state =
  split_A :: "'a list list"
  split_p :: nat
  split_q :: nat
  split_returned :: bool

definition split_step :: "'a \<Rightarrow> 'a list \<Rightarrow> 'a split_state \<Rightarrow> 'a split_state" where
  "split_step R S st =
     (case SplitMatch S (split_q st) R of
        None \<Rightarrow> st\<lparr>split_q := split_q st + 1\<rparr>
      | Some e \<Rightarrow>
          (if e = split_p st then st\<lparr>split_q := split_q st + 1\<rparr>
           else
             (let A' = split_A st @ [substring S (split_p st) (split_q st)]
              in if length A' = split_limit then st\<lparr>split_A := A', split_returned := True\<rparr>
                 else st\<lparr>split_A := A', split_p := e, split_q := e\<rparr>)))"

definition split_running :: "'a list \<Rightarrow> 'a split_state \<Rightarrow> bool" where
  "split_running S st \<longleftrightarrow> \<not> split_returned st \<and> split_q st < length S"

definition split_finish :: "'a list \<Rightarrow> 'a split_state \<Rightarrow> 'a list list" where
  "split_finish S st =
     (if split_returned st then split_A st
      else split_A st @ [substring S (split_p st) (length S)])"

definition split_loop :: "'a \<Rightarrow> 'a list \<Rightarrow> 'a list list option" where
  "split_loop R S =
     (if length S = 0 then (case SplitMatch S 0 R of None \<Rightarrow> Some [S] | Some z \<Rightarrow> Some [])
      else map_option (split_finish S)
        (while_option (split_running S) (split_step R S)
           \<lparr>split_A = [], split_p = 0, split_q = 0, split_returned = False\<rparr>))"

lemmas split_loop_defs [eval_simps] =
  split_limit_def SplitMatch_def substring_def split_step_def split_running_def
  split_finish_def split_loop_def

section \<open>Substrings\<close>

lemma substring_snoc:
  "i \<le> j \<Longrightarrow> j < length S \<Longrightarrow> substring S i (Suc j) = substring S i j @ [S ! j]"
  by (simp add: substring_def Suc_diff_le take_Suc_conv_app_nth)

lemma substring_to_end [simp]: "substring S i (length S) = drop i S"
  by (simp add: substring_def)

lemma substring_empty [simp]: "substring S i i = []"
  by (simp add: substring_def)

lemma drop_at_separator:
  assumes "i \<le> j" and "j < length S"
  shows "drop i S = substring S i j @ S ! j # drop (Suc j) S"
proof -
  from assms have "j - i < length (drop i S)"
    by simp
  then have "drop i S = take (j - i) (drop i S) @ drop i S ! (j - i) # drop (Suc (j - i)) (drop i S)"
    by (rule id_take_nth_drop)
  with assms show ?thesis
    by (simp add: substring_def Suc_diff_le [symmetric] add.commute)
qed

section \<open>The invariant of the loop\<close>

text \<open>
  While the loop runs, the pieces in \<open>A\<close> followed by the pieces of the rest of the
  string from \<open>p\<close> on are the pieces of the string, no separator lies between \<open>p\<close>
  and \<open>q\<close>, and \<open>A\<close> is below the limit; once it has returned, \<open>A\<close> is the first
  \<open>split_limit\<close> pieces.
\<close>

definition split_inv :: "'a \<Rightarrow> 'a list \<Rightarrow> 'a split_state \<Rightarrow> bool" where
  "split_inv R S st =
     (if split_returned st
      then split_A st = take split_limit (js_split R S)
      else split_p st \<le> split_q st \<and> split_q st \<le> length S \<and>
        R \<notin> set (substring S (split_p st) (split_q st)) \<and>
        js_split R S = split_A st @ js_split R (drop (split_p st) S) \<and>
        length (split_A st) < split_limit)"

lemma split_inv_initial:
  "split_inv R S \<lparr>split_A = [], split_p = 0, split_q = 0, split_returned = False\<rparr>"
  by (simp add: split_inv_def split_limit_def)

lemma split_inv_step:
  assumes inv: "split_inv R S st" and run: "split_running S st"
  shows "split_inv R S (split_step R S st)"
proof -
  let ?p = "split_p st" and ?q = "split_q st"
  from run have nr: "\<not> split_returned st" and q: "?q < length S"
    by (simp_all add: split_running_def)
  from inv nr have pq: "?p \<le> ?q" and free: "R \<notin> set (substring S ?p ?q)"
    and pieces: "js_split R S = split_A st @ js_split R (drop ?p S)"
    and below: "length (split_A st) < split_limit"
    by (simp_all add: split_inv_def)
  show ?thesis
  proof (cases "S ! ?q = R")
    case False
    with q have "split_step R S st = st\<lparr>split_q := ?q + 1\<rparr>"
      by (simp add: split_step_def SplitMatch_def)
    with False nr pq q free pieces below show ?thesis
      by (simp add: split_inv_def substring_snoc)
  next
    case True
    let ?A = "split_A st @ [substring S ?p ?q]"
    from drop_at_separator [OF pq q] True free
    have "js_split R (drop ?p S) = substring S ?p ?q # js_split R (drop (Suc ?q) S)"
      by simp
    with pieces have all: "js_split R S = ?A @ js_split R (drop (Suc ?q) S)"
      by simp
    from True q pq have step: "split_step R S st =
        (if length ?A = split_limit then st\<lparr>split_A := ?A, split_returned := True\<rparr>
         else st\<lparr>split_A := ?A, split_p := Suc ?q, split_q := Suc ?q\<rparr>)"
      by (simp add: split_step_def SplitMatch_def Let_def)
    show ?thesis
    proof (cases "length ?A = split_limit")
      case True
      then have "take split_limit (js_split R S) = ?A"
        by (simp only: all [unfolded True [symmetric]] True [symmetric]) simp
      with True show ?thesis
        by (simp add: step split_inv_def)
    next
      case False
      with below q nr all show ?thesis
        by (simp add: step split_inv_def)
    qed
  qed
qed

lemma split_step_decreases:
  assumes "split_running S st"
  shows "(if split_returned (split_step R S st) then 0
          else Suc (length S - split_q (split_step R S st)))
       < (if split_returned st then 0 else Suc (length S - split_q st))"
  using assms
  by (auto simp: split_running_def split_step_def SplitMatch_def Let_def split: option.splits)

section \<open>Termination and result\<close>

lemma split_while_halts:
  "\<exists>st. while_option (split_running S) (split_step R S)
       \<lparr>split_A = [], split_p = 0, split_q = 0, split_returned = False\<rparr> = Some st"
  by (rule measure_while_option_Some [where P = "split_inv R S" and
        f = "\<lambda>st. if split_returned st then 0 else Suc (length S - split_q st)"])
    (simp_all add: split_inv_step split_step_decreases split_inv_initial)

lemma split_finish_stopped:
  assumes inv: "split_inv R S st" and stop: "\<not> split_running S st"
  shows "split_finish S st = take split_limit (js_split R S)"
proof (cases "split_returned st")
  case True
  with inv show ?thesis
    by (simp add: split_finish_def split_inv_def)
next
  case False
  with stop inv have q: "split_q st = length S"
    by (simp add: split_running_def split_inv_def)
  with False inv have "R \<notin> set (drop (split_p st) S)"
    and pieces: "js_split R S = split_A st @ js_split R (drop (split_p st) S)"
    and below: "length (split_A st) < split_limit"
    by (simp_all add: split_inv_def)
  then have "js_split R S = split_A st @ [drop (split_p st) S]"
    by simp
  with False below show ?thesis
    by (simp add: split_finish_def)
qed

lemma split_loop_js_split: "split_loop R S = Some (take split_limit (js_split R S))"
proof (cases "S = []")
  case True
  then show ?thesis
    by (simp add: split_loop_def SplitMatch_def split_limit_def)
next
  case False
  from split_while_halts [of S R] obtain st where
    st: "while_option (split_running S) (split_step R S)
      \<lparr>split_A = [], split_p = 0, split_q = 0, split_returned = False\<rparr> = Some st"
    by blast
  have inv: "split_inv R S st"
    by (rule while_option_rule [where P = "split_inv R S", OF _ st])
      (simp_all add: split_inv_step split_inv_initial)
  from while_option_stop [OF st] inv have "split_finish S st = take split_limit (js_split R S)"
    by (rule split_finish_stopped [rotated])
  with False st show ?thesis
    by (simp add: split_loop_def)
qed

lemma split_loop_below_limit:
  "count_list S R < split_limit \<Longrightarrow> split_loop R S = Some (js_split R S)"
  by (simp add: split_loop_js_split length_js_split)

lemma js_index_take: "i < n \<Longrightarrow> js_index (take n xs) i = js_index xs i"
  by (simp add: js_index_def)

end
