(* ===== verification/UTF16.thy ===== *)
theory UTF16
  imports JSON_Parse
begin

text \<open>
  Well-formed UTF-16: every high surrogate is followed by a low surrogate and no
  low surrogate stands alone. A JavaScript string need not be well formed (a file
  name can hold a lone surrogate), but a text that is written to a store or sent
  over a wire should be: a lone surrogate has no encoding in UTF-8.

  \<open>JSON.stringify\<close> is specified to produce well-formed text from any string: it
  copies a surrogate pair and escapes a surrogate that is not part of one.

  Lemmas: \<open>QuoteJSONString\<close> and \<open>JSON_stringify\<close> produce well-formed text for
  every argument; appending well-formed texts gives a well-formed text.
\<close>

section \<open>Definitions\<close>

definition surrogate :: "code_unit \<Rightarrow> bool" where
  "surrogate c \<longleftrightarrow> is_high_surrogate c \<or> is_low_surrogate c"

fun well_formed :: "jsstring \<Rightarrow> bool" where
  "well_formed [] = True"
| "well_formed [c] = (\<not> surrogate c)"
| "well_formed (c # d # cs) =
     (if is_high_surrogate c then is_low_surrogate d \<and> well_formed cs
      else \<not> is_low_surrogate c \<and> well_formed (d # cs))"

declare surrogate_def [wf_simps]

section \<open>Appending\<close>

lemma high_not_low: "is_high_surrogate c \<Longrightarrow> \<not> is_low_surrogate c"
  by (auto simp: is_high_surrogate_def is_low_surrogate_def word_le_nat_alt)

lemma well_formed_Cons_plain [simp]: "\<not> surrogate c \<Longrightarrow> well_formed (c # s) = well_formed s"
  by (cases s) (simp_all add: surrogate_def)

lemma well_formed_pair [simp]:
  "is_high_surrogate c \<Longrightarrow> well_formed (c # d # s) = (is_low_surrogate d \<and> well_formed s)"
  by simp

lemma well_formed_append [simp]: "well_formed a \<Longrightarrow> well_formed (a @ b) = well_formed b"
proof (induction a rule: well_formed.induct)
  case 1
  then show ?case by simp
next
  case (2 c)
  then show ?case by simp
next
  case (3 c d cs)
  then show ?case
    by (cases "is_high_surrogate c") (auto simp: surrogate_def)
qed

declare well_formed.simps(3) [simp del]

lemma well_formed_plain: "list_all (\<lambda>c. \<not> surrogate c) s \<Longrightarrow> well_formed s"
  by (induction s) simp_all

lemma well_formed_js [simp]: "well_formed (js s)"
proof (rule well_formed_plain)
  have "\<not> surrogate c" if "c < 0x100" for c
    using that by (auto simp: surrogate_def is_high_surrogate_def is_low_surrogate_def
        word_le_nat_alt word_less_nat_alt)
  with is_ascii_js [of s] show "list_all (\<lambda>c. \<not> surrogate c) (js s)"
    by (auto simp: is_ascii_def list_all_iff)
qed

section \<open>Quoting\<close>

lemma hex_digit_not_surrogate: "d < 16 \<Longrightarrow> \<not> surrogate (hex_digit d)"
  by (simp add: surrogate_def hex_digit_def is_high_surrogate_def is_low_surrogate_def
      word_less_nat_alt word_le_nat_alt unat_word_ariths)

lemma well_formed_unicode_escape [simp]: "well_formed (unicode_escape c)"
proof -
  have "\<not> surrogate (0x5C :: code_unit)" "\<not> surrogate (0x75 :: code_unit)"
    by (simp_all add: surrogate_def is_high_surrogate_def is_low_surrogate_def)
  then show ?thesis
    by (simp add: unicode_escape_def hex_digit_not_surrogate [OF nibble_less])
qed

lemma well_formed_escape_unit [simp]: "well_formed (escape_unit c)"
proof (cases "surrogate c")
  case True
  then have "escape_unit c = unicode_escape c"
    by (auto simp: escape_unit_def surrogate_def is_high_surrogate_def is_low_surrogate_def)
  then show ?thesis by simp
next
  case False
  moreover have "\<not> surrogate (0x5C :: code_unit)" "\<not> surrogate (0x62 :: code_unit)"
    "\<not> surrogate (0x74 :: code_unit)" "\<not> surrogate (0x6E :: code_unit)"
    "\<not> surrogate (0x66 :: code_unit)" "\<not> surrogate (0x72 :: code_unit)"
    "\<not> surrogate (0x22 :: code_unit)"
    by (simp_all add: surrogate_def is_high_surrogate_def is_low_surrogate_def)
  ultimately show ?thesis
    by (simp add: escape_unit_def)
qed

lemma quote_units_pair:
  "is_high_surrogate c \<and> is_low_surrogate d \<Longrightarrow>
   quote_units (c # d # cs) = c # d # quote_units cs"
  by simp

lemma quote_units_escape:
  "\<not> (is_high_surrogate c \<and> is_low_surrogate d) \<Longrightarrow>
   quote_units (c # d # cs) = escape_unit c @ quote_units (d # cs)"
  by auto

lemma well_formed_quote_units [simp]: "well_formed (quote_units s)"
proof (induction s rule: quote_units.induct)
  case (3 c d cs)
  show ?case
  proof (cases "is_high_surrogate c \<and> is_low_surrogate d")
    case True
    with "3.IH"(1) [OF True] show ?thesis
      by (simp only: quote_units_pair [OF True] well_formed_pair)
  next
    case False
    with "3.IH"(2) [OF False] show ?thesis
      by (simp only: quote_units_escape [OF False] well_formed_append well_formed_escape_unit)
  qed
qed simp_all

lemma quote_not_surrogate: "\<not> surrogate (0x22 :: code_unit)"
  by (simp add: surrogate_def is_high_surrogate_def is_low_surrogate_def)

lemma well_formed_QuoteJSONString [simp]: "well_formed (QuoteJSONString s)"
  by (simp add: QuoteJSONString_def quote_not_surrogate)

section \<open>Objects\<close>

lemma well_formed_serialize_member:
  "serialize_member p = Some m \<Longrightarrow> well_formed m"
proof (cases p rule: serialize_member.cases)
  case (2 k s)
  have "\<not> surrogate (0x3A :: code_unit)"
    by (simp add: surrogate_def is_high_surrogate_def is_low_surrogate_def)
  moreover assume "serialize_member p = Some m"
  ultimately show ?thesis using 2 by auto
qed simp

lemma well_formed_js_join:
  "\<not> surrogate sep \<Longrightarrow> list_all well_formed ps \<Longrightarrow> well_formed (js_join sep ps)"
  by (induction sep ps rule: js_join.induct) simp_all

lemma well_formed_JSON_stringify [simp]: "well_formed (JSON_stringify props)"
proof -
  have c: "\<not> surrogate comma" "\<not> surrogate (0x7B :: code_unit)" "\<not> surrogate (0x7D :: code_unit)"
    by (simp_all add: surrogate_def comma_def is_high_surrogate_def is_low_surrogate_def)
  have "list_all well_formed (List.map_filter serialize_member props)"
  proof (induction props)
    case Nil
    then show ?case by (simp add: List.map_filter_simps)
  next
    case (Cons p props)
    then show ?case
      by (cases "serialize_member p")
        (simp_all add: List.map_filter_simps well_formed_serialize_member)
  qed
  then have "well_formed (js_join comma (List.map_filter serialize_member props))"
    using c(1) by (rule well_formed_js_join [rotated])
  with c show ?thesis
    by (cases "List.map_filter serialize_member props") (simp_all add: JSON_stringify_def)
qed

end
