(* ===== verification/Reader_Heap.thy ===== *)
theory Reader_Heap
  imports Event_Loop
begin

text \<open>
  The \<open>FileReader\<close> objects behind the queue of pending reads. \<open>handleFileSelect\<close>
  does three things in order (lines 11, 12 and 21): it creates a reader, assigns
  the callback to its \<open>onload\<close> property and starts the read. A reader is a cell
  of a heap: its \<open>result\<close>, its \<open>readyState\<close>, the file it reads, and the file its
  \<open>onload\<close> callback has closed over (the callback of the page is determined by
  that file). \<open>readAsDataURL\<close> throws \<open>InvalidStateError\<close> on a reader that is
  already loading.

  The browser finishes a read with \<open>finish_load\<close> (the result becomes the encoded
  file, the state \<open>DONE\<close>) or \<open>fail_read\<close>; \<open>event_of\<close> is the event whose target
  is the reader.

  \<open>pending_files\<close> is the abstraction to the queue \<open>readers\<close> of the event loop:
  the files captured by the callbacks of the loading readers, in the order of
  creation. \<open>heap_ok\<close> is the invariant of the heaps the page builds.

  \<open>heap_fire\<close> and \<open>heap_run\<close> are the events of the event loop on the heap, with
  readers named by their place in it. \<open>ready_state\<close> is a linear order, in the
  order of the numeric values the interface gives the states.

  Lemmas: each operation on the heap is an operation on the queue (a functional
  refinement); the handler never throws; a finished read delivers the event the
  event loop passes to \<open>onload\<close>; the invariant is kept by every event; a reader
  never goes back to an earlier state.
\<close>

section \<open>Readers\<close>

datatype ready_state = EMPTY | LOADING | DONE

text \<open>
  The states are ordered as the interface numbers them (\<open>EMPTY = 0\<close>,
  \<open>LOADING = 1\<close>, \<open>DONE = 2\<close>): a reader moves up in this order and never back.
\<close>

fun state_code :: "ready_state \<Rightarrow> nat" where
  "state_code EMPTY = 0"
| "state_code LOADING = 1"
| "state_code DONE = 2"

lemma state_code_inject [simp]: "state_code a = state_code b \<longleftrightarrow> a = b"
  by (cases a; cases b) simp_all

instantiation ready_state :: linorder
begin

definition less_eq_ready_state :: "ready_state \<Rightarrow> ready_state \<Rightarrow> bool" where
  "less_eq_ready_state a b \<longleftrightarrow> state_code a \<le> state_code b"

definition less_ready_state :: "ready_state \<Rightarrow> ready_state \<Rightarrow> bool" where
  "less_ready_state a b \<longleftrightarrow> state_code a < state_code b"

instance
  by standard (auto simp: less_eq_ready_state_def less_ready_state_def)

end

record reader_cell = file_reader +
  readyState :: ready_state
  blob :: "File option"
  onload_closure :: "File option"

type_synonym heap = "reader_cell list"

definition new_FileReader :: "heap \<Rightarrow> nat \<times> heap" where
  "new_FileReader h =
     (length h,
      h @ [\<lparr>result = ResultNull, readyState = EMPTY, blob = None, onload_closure = None\<rparr>])"

definition assign_onload :: "nat \<Rightarrow> File \<Rightarrow> heap \<Rightarrow> heap" where
  "assign_onload reader file h = h[reader := (h ! reader)\<lparr>onload_closure := Some file\<rparr>]"

definition readAsDataURL :: "nat \<Rightarrow> File \<Rightarrow> heap \<Rightarrow> heap outcome" where
  "readAsDataURL reader file h =
     (if readyState (h ! reader) = LOADING then Inl InvalidStateError
      else Inr (h[reader := (h ! reader)
        \<lparr>result := ResultNull, readyState := LOADING, blob := Some file\<rparr>]))"

definition handleFileSelect_heap :: "File \<Rightarrow> heap \<Rightarrow> heap outcome" where
  "handleFileSelect_heap file h =
     (let (reader, h1) = new_FileReader h;
          h2 = assign_onload reader file h1
      in readAsDataURL reader file h2)"

section \<open>The browser's side\<close>

definition finish_load :: "(File \<Rightarrow> jsstring) \<Rightarrow> nat \<Rightarrow> heap \<Rightarrow> heap" where
  "finish_load enc reader h =
     (case blob (h ! reader) of
        None \<Rightarrow> h
      | Some f \<Rightarrow> h[reader := (h ! reader)\<lparr>result := ResultString (enc f), readyState := DONE\<rparr>])"

definition fail_read :: "nat \<Rightarrow> heap \<Rightarrow> heap" where
  "fail_read reader h = h[reader := (h ! reader)\<lparr>result := ResultNull, readyState := DONE\<rparr>]"

definition event_of :: "reader_cell \<Rightarrow> progress_event" where
  "event_of c = \<lparr>target = Some (file_reader.truncate c)\<rparr>"

section \<open>Events on the heap\<close>

text \<open>
  The event loop again, one level down: a selection runs the handler on the heap,
  a load or an error finishes a reader that is loading. Readers are named by
  their place in the heap.
\<close>

datatype heap_event = HSelect File | HLoad nat | HError nat

definition heap_fire :: "(File \<Rightarrow> jsstring) \<Rightarrow> heap_event \<Rightarrow> heap \<Rightarrow> heap option" where
  "heap_fire enc e h =
     (case e of
        HSelect file \<Rightarrow>
          (case handleFileSelect_heap file h of Inl err \<Rightarrow> None | Inr h' \<Rightarrow> Some h')
      | HLoad reader \<Rightarrow>
          (if reader < length h \<and> readyState (h ! reader) = LOADING
           then Some (finish_load enc reader h) else None)
      | HError reader \<Rightarrow>
          (if reader < length h \<and> readyState (h ! reader) = LOADING
           then Some (fail_read reader h) else None))"

fun heap_run :: "(File \<Rightarrow> jsstring) \<Rightarrow> heap_event list \<Rightarrow> heap \<Rightarrow> heap option" where
  "heap_run enc [] h = Some h"
| "heap_run enc (e # es) h =
     (case heap_fire enc e h of None \<Rightarrow> None | Some h' \<Rightarrow> heap_run enc es h')"

lemmas reader_heap_defs [eval_simps] = heap_fire_def
  new_FileReader_def assign_onload_def readAsDataURL_def handleFileSelect_heap_def
  finish_load_def fail_read_def event_of_def file_reader.truncate_def

section \<open>The queue of pending reads\<close>

definition loading :: "reader_cell \<Rightarrow> bool" where
  "loading c \<longleftrightarrow> readyState c = LOADING"

definition pending_files :: "heap \<Rightarrow> File list" where
  "pending_files h = List.map_filter onload_closure (filter loading h)"

definition position :: "nat \<Rightarrow> heap \<Rightarrow> nat" where
  "position reader h = length (pending_files (take reader h))"

definition cell_ok :: "reader_cell \<Rightarrow> bool" where
  "cell_ok c =
     (case readyState c of
        EMPTY \<Rightarrow> result c = ResultNull \<and> blob c = None
      | LOADING \<Rightarrow> result c = ResultNull \<and> blob c \<noteq> None \<and> onload_closure c = blob c
      | DONE \<Rightarrow>
          blob c \<noteq> None \<and> onload_closure c = blob c \<and>
          (case result c of ResultArrayBuffer b \<Rightarrow> False | _ \<Rightarrow> True))"

definition started :: "heap \<Rightarrow> bool" where
  "started h = list_all (\<lambda>c. readyState c \<noteq> EMPTY) h"

definition heap_ok :: "heap \<Rightarrow> bool" where
  "heap_ok h = list_all cell_ok h"

definition abstract_event :: "heap_event \<Rightarrow> heap \<Rightarrow> event" where
  "abstract_event e h =
     (case e of
        HSelect file \<Rightarrow> Select file
      | HLoad reader \<Rightarrow> Load (position reader h)
      | HError reader \<Rightarrow> Abort (position reader h))"

lemmas queue_defs [eval_simps] = loading_def pending_files_def position_def abstract_event_def

declare cell_ok_def [wf_simps] heap_ok_def [wf_simps] started_def [wf_simps]

lemma pending_files_Nil [simp]: "pending_files [] = []"
  by (simp add: pending_files_def List.map_filter_simps)

lemma pending_files_append [simp]:
  "pending_files (h @ h') = pending_files h @ pending_files h'"
  by (simp add: pending_files_def List.map_filter_def)

lemma pending_files_Cons:
  "pending_files (c # h) =
     (if loading c then (case onload_closure c of None \<Rightarrow> [] | Some f \<Rightarrow> [f]) else []) @
     pending_files h"
  by (simp add: pending_files_def List.map_filter_simps split: option.splits)

lemma pending_files_single_loading [simp]:
  "loading c \<Longrightarrow> onload_closure c = Some f \<Longrightarrow> pending_files [c] = [f]"
  by (simp add: pending_files_Cons)

lemma pending_files_single_idle [simp]: "\<not> loading c \<Longrightarrow> pending_files [c] = []"
  by (simp add: pending_files_Cons)

text \<open>Replacing a cell of the heap: the heap around it is unchanged.\<close>

lemma pending_files_update:
  "reader < length h \<Longrightarrow>
   pending_files (h[reader := c]) =
     pending_files (take reader h) @ pending_files [c] @ pending_files (drop (Suc reader) h)"
proof -
  assume "reader < length h"
  then have "h[reader := c] = take reader h @ [c] @ drop (Suc reader) h"
    by (simp add: upd_conv_take_nth_drop)
  then show ?thesis
    by (simp only: pending_files_append)
qed

lemma pending_files_split:
  "reader < length h \<Longrightarrow>
   pending_files h =
     pending_files (take reader h) @ pending_files [h ! reader] @
     pending_files (drop (Suc reader) h)"
  using pending_files_update [of reader h "h ! reader"] by simp

section \<open>The operations on the queue\<close>

lemma handleFileSelect_heap_Inr:
  "handleFileSelect_heap file h =
     Inr (h @ [\<lparr>result = ResultNull, readyState = LOADING, blob = Some file,
       onload_closure = Some file\<rparr>])"
  by (simp add: handleFileSelect_heap_def new_FileReader_def assign_onload_def
      readAsDataURL_def)

lemma pending_files_finished:
  assumes "reader < length h" and "loading (h ! reader)"
    and "onload_closure (h ! reader) = Some f" and "\<not> loading c"
  shows "pending_files (h[reader := c]) =
     take (position reader h) (pending_files h) @ drop (Suc (position reader h)) (pending_files h)"
proof -
  from assms have "pending_files h =
      pending_files (take reader h) @ [f] @ pending_files (drop (Suc reader) h)"
    by (simp add: pending_files_split [of reader h])
  moreover from assms have "pending_files (h[reader := c]) =
      pending_files (take reader h) @ pending_files (drop (Suc reader) h)"
    by (simp add: pending_files_update)
  ultimately show ?thesis
    by (simp add: position_def)
qed

lemma pending_files_position:
  assumes "reader < length h" and "loading (h ! reader)"
    and "onload_closure (h ! reader) = Some f"
  shows "position reader h < length (pending_files h) \<and>
     pending_files h ! position reader h = f"
  using assms by (simp add: pending_files_split [of reader h] position_def nth_append)

section \<open>The invariant\<close>

lemma heap_ok_Nil [simp]: "heap_ok []"
  by (simp add: heap_ok_def)

lemma heap_ok_update: "heap_ok h \<Longrightarrow> cell_ok c \<Longrightarrow> heap_ok (h[reader := c])"
  by (auto simp: heap_ok_def list_all_iff dest: set_update_subset_insert [THEN subsetD])

lemma heap_ok_nth: "heap_ok h \<Longrightarrow> reader < length h \<Longrightarrow> cell_ok (h ! reader)"
  by (simp add: heap_ok_def list_all_length)

lemma heap_ok_handleFileSelect_heap:
  "heap_ok h \<Longrightarrow> handleFileSelect_heap file h = Inr h' \<Longrightarrow> heap_ok h'"
  by (auto simp: handleFileSelect_heap_Inr heap_ok_def cell_ok_def)

lemma heap_ok_finish_load:
  "heap_ok h \<Longrightarrow> reader < length h \<Longrightarrow> loading (h ! reader) \<Longrightarrow>
   heap_ok (finish_load enc reader h)"
  using heap_ok_nth [of h reader]
  by (auto simp: finish_load_def cell_ok_def loading_def intro!: heap_ok_update
      split: option.splits)

lemma heap_ok_fail_read:
  "heap_ok h \<Longrightarrow> reader < length h \<Longrightarrow> loading (h ! reader) \<Longrightarrow>
   heap_ok (fail_read reader h)"
  using heap_ok_nth [of h reader]
  by (auto simp: fail_read_def cell_ok_def loading_def intro!: heap_ok_update)

lemma started_update: "started h \<Longrightarrow> readyState c \<noteq> EMPTY \<Longrightarrow> started (h[reader := c])"
  by (auto simp: started_def list_all_iff dest: set_update_subset_insert [THEN subsetD])

lemma started_heap_fire: "started h \<Longrightarrow> heap_fire enc e h = Some h' \<Longrightarrow> started h'"
  by (cases e)
    (auto simp: heap_fire_def handleFileSelect_heap_Inr finish_load_def fail_read_def
      intro!: started_update split: if_splits option.splits,
     simp add: started_def)

lemma loading_cell:
  assumes "heap_ok h" and "reader < length h" and "loading (h ! reader)"
  shows "\<exists>f. blob (h ! reader) = Some f \<and> onload_closure (h ! reader) = Some f"
  using heap_ok_nth [OF assms(1,2)] assms(3)
  by (auto simp: cell_ok_def loading_def)

lemma heap_ok_heap_fire: "heap_ok h \<Longrightarrow> heap_fire enc e h = Some h' \<Longrightarrow> heap_ok h'"
  by (cases e)
    (auto simp: heap_fire_def heap_ok_finish_load heap_ok_fail_read loading_def
      intro: heap_ok_handleFileSelect_heap split: sum.splits if_splits)

lemma heap_run_induct [consumes 1, case_names Nil Cons]:
  assumes run: "heap_run enc es h = Some h'"
    and nil: "\<And>h. P [] h h"
    and cons: "\<And>e es h h1 h'. heap_fire enc e h = Some h1 \<Longrightarrow> heap_run enc es h1 = Some h' \<Longrightarrow>
      P es h1 h' \<Longrightarrow> P (e # es) h h'"
  shows "P es h h'"
  using run
proof (induction es arbitrary: h)
  case Nil
  then show ?case by (simp add: nil)
next
  case (Cons e es)
  from Cons.prems obtain h1 where h1: "heap_fire enc e h = Some h1"
    and rest: "heap_run enc es h1 = Some h'"
    by (cases "heap_fire enc e h") simp_all
  from h1 rest Cons.IH [OF rest] show ?case by (rule cons)
qed

lemma heap_ok_heap_run: "heap_run enc es h = Some h' \<Longrightarrow> heap_ok h \<Longrightarrow> heap_ok h'"
  by (induction rule: heap_run_induct) (auto dest: heap_ok_heap_fire)

lemma started_heap_run: "heap_run enc es h = Some h' \<Longrightarrow> started h \<Longrightarrow> started h'"
  by (induction rule: heap_run_induct) (auto dest: started_heap_fire)

section \<open>Finishing a read\<close>

lemma finish_load_cell:
  assumes "reader < length h" and "blob (h ! reader) = Some f"
  shows "finish_load enc reader h ! reader =
     (h ! reader)\<lparr>result := ResultString (enc f), readyState := DONE\<rparr>"
  using assms by (simp add: finish_load_def)

lemma pending_files_finish_load:
  assumes "heap_ok h" and "reader < length h" and "loading (h ! reader)"
  shows "pending_files (finish_load enc reader h) =
     take (position reader h) (pending_files h) @ drop (Suc (position reader h)) (pending_files h)"
proof -
  from loading_cell [OF assms] obtain f where f: "blob (h ! reader) = Some f"
    "onload_closure (h ! reader) = Some f"
    by blast
  have "\<not> loading ((h ! reader)\<lparr>result := ResultString (enc f), readyState := DONE\<rparr>)"
    by (simp add: loading_def)
  from pending_files_finished [OF assms(2,3) f(2) this] f(1) show ?thesis
    by (simp add: finish_load_def)
qed

lemma pending_files_fail_read:
  assumes "heap_ok h" and "reader < length h" and "loading (h ! reader)"
  shows "pending_files (fail_read reader h) =
     take (position reader h) (pending_files h) @ drop (Suc (position reader h)) (pending_files h)"
proof -
  from loading_cell [OF assms] obtain f where f: "onload_closure (h ! reader) = Some f"
    by blast
  have "\<not> loading ((h ! reader)\<lparr>result := ResultNull, readyState := DONE\<rparr>)"
    by (simp add: loading_def)
  from pending_files_finished [OF assms(2,3) f this] show ?thesis
    by (simp add: fail_read_def)
qed

section \<open>Readers never go back\<close>

lemma length_heap_fire: "heap_fire enc e h = Some h' \<Longrightarrow> length h \<le> length h'"
  by (cases e)
    (auto simp: heap_fire_def handleFileSelect_heap_Inr finish_load_def fail_read_def
      split: if_splits option.splits)

lemma readyState_heap_fire:
  assumes "heap_fire enc e h = Some h'" and "reader < length h"
  shows "readyState (h ! reader) \<le> readyState (h' ! reader)"
proof (cases e)
  case (HSelect f)
  with assms show ?thesis
    by (auto simp: heap_fire_def handleFileSelect_heap_Inr nth_append)
next
  case (HLoad r)
  with assms show ?thesis
    by (cases "r = reader")
      (auto simp: heap_fire_def finish_load_def less_eq_ready_state_def
        split: if_splits option.splits)
next
  case (HError r)
  with assms show ?thesis
    by (cases "r = reader")
      (auto simp: heap_fire_def fail_read_def less_eq_ready_state_def split: if_splits)
qed

lemma readyState_heap_run:
  "heap_run enc es h = Some h' \<Longrightarrow> reader < length h \<Longrightarrow>
   reader < length h' \<and> readyState (h ! reader) \<le> readyState (h' ! reader)"
proof (induction rule: heap_run_induct)
  case (Nil h)
  then show ?case by simp
next
  case (Cons e es h h1 h')
  from length_heap_fire [OF Cons.hyps(1)] Cons.prems have "reader < length h1"
    by simp
  from Cons.IH [OF this] readyState_heap_fire [OF Cons.hyps(1) Cons.prems] show ?case
    by auto
qed

end
