(* ===== verification/Page.thy ===== *)
theory Page
  imports Reader_Heap
begin

text \<open>
  The page as a whole: the store, the router and the heap of readers in one
  state, and the three kinds of event on it. This is the machine the browser runs;
  \<open>world\<close> with its queue of pending files is what is left of it when the readers
  are forgotten.

  \<^item> \<open>HSelect file\<close>: the upload widget calls the handler, which runs on the heap;
  \<^item> \<open>HLoad reader\<close>: the browser finishes the read, then calls the callback the
    reader holds with the event whose target is the reader; the callback is
    \<open>onload\<close> of the file it closed over, and it sees the store and the router
    through \<open>world_of\<close>;
  \<^item> \<open>HError reader\<close>: the browser fails the read; no callback is installed for
    that.

  An exception that escapes a callback is reported and the state the callback had
  reached is kept.

  Lemmas: \<open>world_of\<close> is a simulation: an event of the page is the corresponding
  event of the event loop on \<open>world_of\<close> the page, for single events and for runs,
  so every invariant of the reachable worlds holds of the reachable pages.
\<close>

section \<open>State\<close>

record page =
  page_storage :: storage
  page_location :: jsstring
  page_history :: "jsstring list"
  page_heap :: heap
  page_uncaught :: "js_error list"

definition world_of :: "page \<Rightarrow> world" where
  "world_of p =
     \<lparr>sessionStorage = page_storage p, location = page_location p, history = page_history p,
      readers = pending_files (page_heap p), uncaught = page_uncaught p\<rparr>"

definition put_world :: "world \<Rightarrow> page \<Rightarrow> page" where
  "put_world w p =
     p\<lparr>page_storage := sessionStorage w, page_location := location w,
       page_history := history w, page_uncaught := uncaught w\<rparr>"

definition initial_page :: "storage \<Rightarrow> jsstring \<Rightarrow> page" where
  "initial_page st loc =
     \<lparr>page_storage = st, page_location = loc, page_history = [], page_heap = [],
      page_uncaught = []\<rparr>"

section \<open>Events\<close>

definition page_report :: "js_error \<Rightarrow> page \<Rightarrow> page" where
  "page_report err p = p\<lparr>page_uncaught := err # page_uncaught p\<rparr>"

definition page_select :: "File \<Rightarrow> page \<Rightarrow> page" where
  "page_select file p =
     (case handleFileSelect_heap file (page_heap p) of
        Inl err \<Rightarrow> page_report err p
      | Inr h \<Rightarrow> p\<lparr>page_heap := h\<rparr>)"

definition page_load :: "(File \<Rightarrow> jsstring) \<Rightarrow> nat \<Rightarrow> page \<Rightarrow> page" where
  "page_load enc reader p =
     (let p1 = p\<lparr>page_heap := finish_load enc reader (page_heap p)\<rparr>;
          cell = page_heap p1 ! reader
      in case onload_closure cell of
           None \<Rightarrow> p1
         | Some file \<Rightarrow>
             (case onload file (event_of cell) (world_of p1) of
                Inl err \<Rightarrow> page_report err p1
              | Inr w \<Rightarrow> put_world w p1))"

definition page_fire :: "(File \<Rightarrow> jsstring) \<Rightarrow> heap_event \<Rightarrow> page \<Rightarrow> page option" where
  "page_fire enc e p =
     (case e of
        HSelect file \<Rightarrow> Some (page_select file p)
      | HLoad reader \<Rightarrow>
          (if reader < length (page_heap p) \<and> readyState (page_heap p ! reader) = LOADING
           then Some (page_load enc reader p) else None)
      | HError reader \<Rightarrow>
          (if reader < length (page_heap p) \<and> readyState (page_heap p ! reader) = LOADING
           then Some (p\<lparr>page_heap := fail_read reader (page_heap p)\<rparr>) else None))"

fun page_run :: "(File \<Rightarrow> jsstring) \<Rightarrow> heap_event list \<Rightarrow> page \<Rightarrow> page option" where
  "page_run enc [] p = Some p"
| "page_run enc (e # es) p =
     (case page_fire enc e p of None \<Rightarrow> None | Some p' \<Rightarrow> page_run enc es p')"

fun abstract_events :: "(File \<Rightarrow> jsstring) \<Rightarrow> heap_event list \<Rightarrow> heap \<Rightarrow> event list" where
  "abstract_events enc [] h = []"
| "abstract_events enc (e # es) h =
     abstract_event e h #
     (case heap_fire enc e h of None \<Rightarrow> [] | Some h' \<Rightarrow> abstract_events enc es h')"

lemmas page_defs [eval_simps] =
  world_of_def put_world_def initial_page_def page_report_def page_select_def page_load_def
  page_fire_def

section \<open>The parts of a page\<close>

lemma world_of_simps [simp]:
  "sessionStorage (world_of p) = page_storage p"
  "location (world_of p) = page_location p"
  "history (world_of p) = page_history p"
  "readers (world_of p) = pending_files (page_heap p)"
  "uncaught (world_of p) = page_uncaught p"
  by (simp_all add: world_of_def)

lemma world_of_initial_page [simp]: "world_of (initial_page st loc) = initial st loc"
  by (simp add: world_of_def initial_page_def initial_def)

lemma page_heap_initial [simp]: "page_heap (initial_page st loc) = []"
  by (simp add: initial_page_def)

lemma world_of_put_world:
  "readers w = pending_files (page_heap p) \<Longrightarrow> world_of (put_world w p) = w"
  by (simp add: world_of_def put_world_def)

lemma world_of_page_report: "world_of (page_report err p) = report err (world_of p)"
  by (simp add: world_of_def page_report_def report_def)

text \<open>The heap of a page moves as \<open>heap_fire\<close> says, whatever the callback does.\<close>

lemma page_heap_put_world [simp]: "page_heap (put_world w p) = page_heap p"
  by (simp add: put_world_def)

lemma page_heap_page_report [simp]: "page_heap (page_report err p) = page_heap p"
  by (simp add: page_report_def)

lemma page_heap_page_load [simp]:
  "page_heap (page_load enc reader p) = finish_load enc reader (page_heap p)"
  by (simp add: page_load_def Let_def split: option.splits sum.splits)

lemma page_heap_page_fire:
  "page_fire enc e p = Some p' \<Longrightarrow> heap_fire enc e (page_heap p) = Some (page_heap p')"
  by (cases e)
    (auto simp: page_fire_def heap_fire_def page_select_def handleFileSelect_heap_Inr
      split: if_splits)

section \<open>Simulation\<close>

lemma world_of_page_select:
  "world_of (page_select file p) = handleFileSelect file (world_of p)"
  by (simp add: page_select_def handleFileSelect_heap_Inr world_of_def handleFileSelect_def
      loading_def)

lemma world_of_page_error:
  assumes "heap_ok (page_heap p)" and "reader < length (page_heap p)"
    and "readyState (page_heap p ! reader) = LOADING"
  shows "world_of (p\<lparr>page_heap := fail_read reader (page_heap p)\<rparr>) =
     drop_reader (position reader (page_heap p)) (world_of p)"
  using pending_files_fail_read [OF assms(1,2)] assms(3)
  by (simp add: world_of_def drop_reader_def loading_def)

lemma world_of_page_load:
  assumes ok: "heap_ok (page_heap p)" and r: "reader < length (page_heap p)"
    and l: "readyState (page_heap p ! reader) = LOADING"
  shows "world_of (page_load enc reader p) =
     dispatch_load enc (position reader (page_heap p)) (world_of p)"
proof -
  let ?h = "page_heap p" and ?i = "position reader (page_heap p)"
  let ?p1 = "p\<lparr>page_heap := finish_load enc reader ?h\<rparr>"
  from l have loading: "loading (?h ! reader)"
    by (simp add: loading_def)
  from loading_cell [OF ok r loading] obtain f where f: "blob (?h ! reader) = Some f"
    "onload_closure (?h ! reader) = Some f"
    by blast
  from r f(1) have cell: "finish_load enc reader ?h ! reader =
      (?h ! reader)\<lparr>result := ResultString (enc f), readyState := DONE\<rparr>"
    by (rule finish_load_cell)
  from pending_files_position [OF r loading f(2)]
  have i: "?i < length (pending_files ?h)" and at: "pending_files ?h ! ?i = f"
    by simp_all
  have event: "event_of ((?h ! reader)\<lparr>result := ResultString (enc f), readyState := DONE\<rparr>) =
      load_event (enc f)"
    by (simp add: event_of_def load_event_def file_reader.truncate_def)
  have w1: "world_of ?p1 = drop_reader ?i (world_of p)"
    using pending_files_finish_load [OF ok r loading, of enc]
    by (simp add: world_of_def drop_reader_def)
  have "world_of (page_load enc reader p) =
      (case onload f (load_event (enc f)) (world_of ?p1) of
         Inl err \<Rightarrow> report err (world_of ?p1) | Inr w \<Rightarrow> w)"
  proof (cases "onload f (load_event (enc f)) (world_of ?p1)")
    case (Inl err)
    then show ?thesis
      by (simp add: page_load_def Let_def cell f event world_of_page_report)
  next
    case (Inr w)
    then have "readers w = readers (world_of ?p1)"
      by (auto simp: onload_Inr_iff setLocation_def)
    with Inr show ?thesis
      by (simp add: page_load_def Let_def cell f event world_of_put_world)
  qed
  then show ?thesis
    unfolding w1 by (simp add: dispatch_load_def at)
qed

lemma world_of_page_fire:
  assumes "heap_ok (page_heap p)" and "page_fire enc e p = Some p'"
  shows "fire enc (abstract_event e (page_heap p)) (world_of p) = Some (world_of p')"
proof (cases e)
  case (HSelect f)
  with assms(2) show ?thesis
    by (auto simp: page_fire_def abstract_event_def world_of_page_select)
next
  case (HLoad r)
  with assms(2) have r: "r < length (page_heap p)" "readyState (page_heap p ! r) = LOADING"
    and p': "p' = page_load enc r p"
    by (auto simp: page_fire_def split: if_splits)
  from r have "loading (page_heap p ! r)"
    by (simp add: loading_def)
  from loading_cell [OF assms(1) r(1) this] obtain f where
    "onload_closure (page_heap p ! r) = Some f"
    by blast
  from pending_files_position [OF r(1) \<open>loading (page_heap p ! r)\<close> this]
    world_of_page_load [OF assms(1) r, of enc]
  show ?thesis
    by (simp add: HLoad abstract_event_def p')
next
  case (HError r)
  with assms(2) have r: "r < length (page_heap p)" "readyState (page_heap p ! r) = LOADING"
    and p': "p' = p\<lparr>page_heap := fail_read r (page_heap p)\<rparr>"
    by (auto simp: page_fire_def split: if_splits)
  from r have "loading (page_heap p ! r)"
    by (simp add: loading_def)
  from loading_cell [OF assms(1) r(1) this] obtain f where
    "onload_closure (page_heap p ! r) = Some f"
    by blast
  from pending_files_position [OF r(1) \<open>loading (page_heap p ! r)\<close> this]
    world_of_page_error [OF assms(1) r]
  show ?thesis
    by (simp add: HError abstract_event_def p')
qed

lemma heap_ok_page_fire:
  "heap_ok (page_heap p) \<Longrightarrow> page_fire enc e p = Some p' \<Longrightarrow> heap_ok (page_heap p')"
  by (auto dest: page_heap_page_fire heap_ok_heap_fire)

section \<open>Runs\<close>

lemma page_run_induct [consumes 1, case_names Nil Cons]:
  assumes run: "page_run enc es p = Some p'"
    and nil: "\<And>p. P [] p p"
    and cons: "\<And>e es p p1 p'. page_fire enc e p = Some p1 \<Longrightarrow> page_run enc es p1 = Some p' \<Longrightarrow>
      P es p1 p' \<Longrightarrow> P (e # es) p p'"
  shows "P es p p'"
  using run
proof (induction es arbitrary: p)
  case Nil
  then show ?case by (simp add: nil)
next
  case (Cons e es)
  from Cons.prems obtain p1 where p1: "page_fire enc e p = Some p1"
    and rest: "page_run enc es p1 = Some p'"
    by (cases "page_fire enc e p") simp_all
  from p1 rest Cons.IH [OF rest] show ?case by (rule cons)
qed

lemma heap_ok_page_run:
  "page_run enc es p = Some p' \<Longrightarrow> heap_ok (page_heap p) \<Longrightarrow> heap_ok (page_heap p')"
  by (induction rule: page_run_induct) (auto dest: heap_ok_page_fire)

text \<open>Every page a run reaches is, through \<open>world_of\<close>, a world the event loop reaches.\<close>

lemma page_run_reachable:
  "page_run enc es p = Some p' \<Longrightarrow> heap_ok (page_heap p) \<Longrightarrow>
   reachable enc w0 (world_of p) \<Longrightarrow> reachable enc w0 (world_of p')"
proof (induction rule: page_run_induct)
  case (Nil p)
  then show ?case by simp
next
  case (Cons e es p p1 p')
  from world_of_page_fire [OF Cons.prems(1) Cons.hyps(1)] Cons.prems(2)
  have "reachable enc w0 (world_of p1)"
    by (auto intro: reachable.after simp: step_iff_fire)
  with heap_ok_page_fire [OF Cons.prems(1) Cons.hyps(1)] show ?case
    by (rule Cons.IH)
qed

lemma page_heap_page_run:
  "page_run enc es p = Some p' \<Longrightarrow> heap_run enc es (page_heap p) = Some (page_heap p')"
  by (induction rule: page_run_induct) (auto dest: page_heap_page_fire)

end
