(* ===== verification/Traceback.thy ===== *)
theory Traceback
  imports Handoff "HOL-Library.Sublist"
begin

text \<open>
  Where the reads and the record of a world come from, traced back along the run
  that led to it.

  \<open>selected es\<close> is the list of the files the user selected in the trace \<open>es\<close>, in
  the order of selection. It is vocabulary of the statements, not code: the page
  keeps no such list.

  Lemmas: the pending reads after a run are a subsequence of the reads pending
  before it followed by the selections of the run (\<open>readers_run_subseq\<close>: a read
  is never duplicated, reordered or invented, only started by
  \<open>handleFileSelect\<close> and used up by its load or its failure); every text a run
  delivers is the record of such a file (\<open>deliveries_traceback\<close>); the record
  under \<open>uploadedFile\<close> after a run is the last text delivered, or the record
  before the run when nothing was delivered (\<open>run_store_last_delivery\<close>); and
  so it is the record of a pending or selected file (\<open>run_store_traceback\<close>).
\<close>

section \<open>The selections of a trace\<close>

fun selected :: "event list \<Rightarrow> File list" where
  "selected [] = []"
| "selected (Select file # es) = file # selected es"
| "selected (Load i # es) = selected es"
| "selected (Abort i # es) = selected es"

lemma selected_Cons: "selected (e # es) = selected [e] @ selected es"
  by (cases e) simp_all

lemma selected_append [simp]: "selected (es @ es') = selected es @ selected es'"
  by (induction es rule: selected.induct) simp_all

lemma length_selected: "length (selected es) = length (filter is_select es)"
  by (induction es rule: selected.induct) simp_all

section \<open>Pending reads\<close>

lemma subseq_drop_nth: "subseq (take i xs @ drop (Suc i) xs) xs"
proof (induction xs arbitrary: i)
  case Nil
  show ?case by simp
next
  case (Cons x xs)
  show ?case
  proof (cases i)
    case 0
    then show ?thesis by (simp add: list_emb_Cons)
  next
    case (Suc j)
    with Cons.IH [of j] show ?thesis by simp
  qed
qed

lemma readers_fire_subseq:
  assumes "fire enc e w = Some w'"
  shows "subseq (readers w') (readers w @ selected [e])"
  using assms by (cases rule: fire_cases) (simp_all add: subseq_drop_nth)

lemma readers_run_subseq:
  "run enc es w = Some w' \<Longrightarrow> subseq (readers w') (readers w @ selected es)"
proof (induction rule: run_induct)
  case (Nil w)
  show ?case by simp
next
  case (Cons e es w w1 w')
  from readers_fire_subseq [OF Cons.hyps(1)]
  have "subseq (readers w1 @ selected es) ((readers w @ selected [e]) @ selected es)"
    by (rule list_emb_append_mono) simp
  with Cons.IH have "subseq (readers w') ((readers w @ selected [e]) @ selected es)"
    by (rule subseq_order.trans)
  then show ?case by (simp add: selected_Cons [of e es])
qed

lemma subseq_subsetD: "subseq xs ys \<Longrightarrow> set xs \<subseteq> set ys"
  by (induction rule: list_emb.induct) auto

lemma readers_fire_subset:
  "fire enc e w = Some w' \<Longrightarrow> set (readers w') \<subseteq> set (readers w) \<union> set (selected [e])"
  using subseq_subsetD [OF readers_fire_subseq, of enc e w w'] by simp

section \<open>Deliveries\<close>

lemma deliveries_traceback:
  "run enc es w = Some w' \<Longrightarrow> text \<in> set (deliveries enc es w) \<Longrightarrow>
   \<exists>f \<in> set (readers w @ selected es). text = uploadedFile_text f (enc f)"
proof (induction rule: run_induct)
  case (Nil w)
  then show ?case by simp
next
  case (Cons e es w w1 w')
  from Cons.prems Cons.hyps(1) consider "delivery enc e w = Some text"
    | "text \<in> set (deliveries enc es w1)"
    by (auto split: option.splits)
  then show ?case
  proof cases
    case 1
    then show ?thesis by (auto dest: delivery_of_pending_reader)
  next
    case 2
    then obtain f where "f \<in> set (readers w1 @ selected es)"
      and f: "text = uploadedFile_text f (enc f)"
      using Cons.IH by blast
    with readers_fire_subset [OF Cons.hyps(1)]
    have "f \<in> set (readers w @ selected (e # es))"
      by (auto simp: selected_Cons [of e es])
    with f show ?thesis ..
  qed
qed

lemma run_store_last_delivery:
  "run enc es w = Some w' \<Longrightarrow>
   getItem storage_key (sessionStorage w') =
     (if deliveries enc es w = [] then getItem storage_key (sessionStorage w)
      else Some (last (deliveries enc es w)))"
proof (induction rule: run_induct)
  case (Nil w)
  show ?case by simp
next
  case (Cons e es w w1 w')
  from abstraction_fire [OF Cons.hyps(1)]
  have "slots (abstraction w1) storage_key =
      slots (perform (delivery enc e w) (abstraction w)) storage_key"
    by simp
  then have "getItem storage_key (sessionStorage w1) =
      (case delivery enc e w of None \<Rightarrow> getItem storage_key (sessionStorage w)
       | Some text \<Rightarrow> Some text)"
    by (simp add: contents_getItem split: option.splits)
  with Cons.IH show ?case
    by (simp add: Cons.hyps(1) split: option.splits)
qed

lemma run_store_traceback:
  assumes "run enc es w = Some w'"
  shows "getItem storage_key (sessionStorage w') = getItem storage_key (sessionStorage w) \<or>
     (\<exists>f \<in> set (readers w @ selected es).
        getItem storage_key (sessionStorage w') = Some (uploadedFile_text f (enc f)))"
proof (cases "deliveries enc es w = []")
  case True
  with run_store_last_delivery [OF assms] show ?thesis by simp
next
  case False
  then have "last (deliveries enc es w) \<in> set (deliveries enc es w)"
    by simp
  from deliveries_traceback [OF assms this] run_store_last_delivery [OF assms] False
  show ?thesis by auto
qed

end
