(* ===== verification/Spec2Isabelle.thy ===== *)
theory Spec2Isabelle
  imports Handoff Home_View Record_Reader Split_Loop UTF16 Page Traceback
begin

text \<open>
  \<^bold>\<open>The program.\<close> \<open>src/client/src/pages/home.tsx\<close> is the home page of an image
  editor: a React component \<open>Home\<close> that renders a header, an upload widget, a list
  of features and a navigation bar, and that hands the file the user selects to the
  editor page. The hand-off is the only behaviour: \<open>handleFileSelect\<close> starts a
  \<open>FileReader\<close> on the file; when the reader fires \<open>onload\<close>, the callback cuts the
  data URL at its commas, keeps the second piece as \<open>fileData\<close>, serialises
  \<open>{fileName, fileType, fileData}\<close> with \<open>JSON.stringify\<close>, stores the text in
  \<open>sessionStorage\<close> under \<open>uploadedFile\<close> and navigates to \<open>/editor\<close>.

  \<^bold>\<open>The theories.\<close>
  \<^item> \<open>JS_Prelude\<close>: strings as lists of 16-bit code units, bytes, exceptions as
    values, the fact collections, and the lemmas about cutting a list at a separator.
  \<^item> \<open>JS_String\<close>: \<open>String.prototype.split\<close> with a one-unit separator
    (\<open>js_split\<close>) and array indexing that yields \<open>undefined\<close> out of range
    (\<open>js_index\<close>); line 16 of the source.
  \<^item> \<open>Split_Loop\<close>: the same \<open>split\<close> as the index loop of the standard
    (\<open>while_option\<close> over the variables \<open>A\<close>, \<open>p\<close>, \<open>q\<close>), with its limit of
    \<open>2\<^sup>3\<^sup>2 - 1\<close> pieces.
  \<^item> \<open>Base64\<close>, \<open>File_Reader\<close>: the \<open>File\<close> the handler receives, the event it is
    called with, and the data URL a reader produces (line 21).
  \<^item> \<open>JSON_Text\<close>: \<open>JSON.stringify\<close> on objects of strings and \<open>undefined\<close>
    (line 18).
  \<^item> \<open>Web_Storage\<close>: \<open>sessionStorage\<close> with its quota (line 18).
  \<^item> \<open>Home_Handler\<close>: \<open>handleFileSelect\<close> and \<open>onload\<close> (lines 9 to 22) over the
    record \<open>world\<close> of everything they read and write.
  \<^item> \<open>Reader_Heap\<close>: the \<open>FileReader\<close> objects of lines 11, 12 and 21 as cells
    of a heap (\<open>new_FileReader\<close>, \<open>assign_onload\<close>, \<open>readAsDataURL\<close>), the
    handler on the heap, and the abstraction \<open>pending_files\<close> to the queue
    \<open>readers\<close> of \<open>world\<close>.
  \<^item> \<open>Page\<close>: the page as one state (store, router, heap of readers) with the
    events on it, and \<open>world_of\<close>, which forgets the readers.
  \<^item> \<open>Event_Loop\<close>: the callbacks under the browser's event loop: selections, loads
    and failed reads in any order (\<open>fire\<close>, \<open>run\<close>, \<open>step\<close>, \<open>reachable\<close>).
  \<^item> \<open>Handoff\<close>: what the page promises to the editor as an abstract machine
    with the one operation \<open>deliver\<close>, the abstraction of a \<open>world\<close> to it, and
    the texts a run delivers (\<open>deliveries\<close>).
  \<^item> \<open>Traceback\<close>: the files selected in a trace (\<open>selected\<close>) and the lemmas
    that trace the pending reads and the stored record back to them.
  \<^item> \<open>Base64_Decode\<close>, \<open>JSON_Parse\<close>, \<open>Record_Reader\<close>: the other end of the
    hand-off: base64 decoding, \<open>JSON.parse\<close> on objects of strings, and the reader
    \<open>read_uploadedFile\<close> that gets the record out of the store. They are there to
    state that nothing is lost on the way.
  \<^item> \<open>UTF16\<close>: well-formed UTF-16 and that \<open>JSON.stringify\<close> produces it.
  \<^item> \<open>Home_View\<close>: the import declarations (lines 1 to 4) and the element tree
    that \<open>Home\<close> returns (lines 24 to 90), one definition per part of the JSX, the
    functions that read a tree, and the lemmas about the tree alone (headings and
    texts, the one callback, components and imports, the feature cards as
    instances of one template, well-formed class attributes).
  \<^item> This theory: the properties that span those components.

  \<^bold>\<open>Correspondence.\<close> Each function of the source is one definition with the
  source's name; a call that changes state takes the world and returns the new one;
  a call that can throw returns \<open>js_error + 'a\<close>. The browser's own functions are
  modelled from their standards (ECMAScript for \<open>split\<close> and \<open>JSON.stringify\<close>, the
  File API for \<open>readAsDataURL\<close>, the HTML standard for \<open>Storage\<close>) as far as the
  program uses them: one-unit separators, objects of strings, \<open>setItem\<close> and
  \<open>getItem\<close>.

  \<^bold>\<open>What is assumed of the browser and the router.\<close> These definitions are not
  translated from the source; the theorems hold relative to them.
  \<^item> \<open>setLocation\<close> is the \<open>navigate\<close> of wouter, whose code is not among the
    sources: it is taken to push the current location on the history and to
    replace it.
  \<^item> A load event carries a string (\<open>dispatch_load\<close>, \<open>finish_load\<close>), as the
    File API says of \<open>readAsDataURL\<close>; the \<open>TypeError\<close> branch of \<open>onload\<close> is
    therefore unreachable under the event loop by construction, and is stated of
    \<open>onload\<close> alone.
  \<^item> A failed read runs no code of the page (\<open>Abort\<close>, \<open>HError\<close>): the handler
    assigns \<open>onload\<close> only, and the model has no \<open>onerror\<close> to call.
  \<^item> \<open>data_url\<close> is the result of a successful read in current browsers, with
    \<open>application/octet-stream\<close> for a file without a type. The lemmas about the
    event loop take the encoding as a parameter \<open>enc\<close> and so hold for a browser
    that encodes differently (one that returns \<open>data:\<close> for an empty file, say);
    the theorems about \<open>fileData\<close> are stated for \<open>data_url\<close>.
  \<^item> The store counts code units of keys and values against a quota that is a
    parameter; the editor's reading of the record uses the same key constant as
    the page, so the theorems compare the two ends with each other and not with
    the editor's code, which is not among the sources.

  \<^bold>\<open>What the theorems show.\<close> What \<open>onload\<close> does on every branch: the record it
  stores for a well-formed data URL, the two exceptions it can throw and what they
  prevent, and the two inputs on which the stored record is not the file (a result
  with no comma, a media type with a comma). Under the event loop: no key but
  \<open>uploadedFile\<close> changes, the location changes only together with the store, no
  exception other than \<open>QuotaExceededError\<close> is reported, and with two reads
  pending the record that stays is that of the read that finishes last. For whole
  runs: selecting a file and letting the read finish hands the file off; a run
  refines the sequence of its deliveries on the abstract machine; at most one
  record is stored per selection; the reads pending after a run are a subsequence
  of the files selected, and the record in the store is that of a selected file.
  Round trips: a reader of the store gets back the object the callback built, and
  decoding \<open>fileData\<close> gives the bytes of the file. Order: a selection commutes
  with a pending load, and storing the same record again cannot fail. The handler
  on the heap of readers refines the handler on the queue and always succeeds; the
  reader it creates delivers to its callback the encoding of the file the callback
  captured; the events of the heap simulate those of the queue; the page as a
  whole simulates the event loop, goes nowhere but to \<open>/editor\<close>, its readers
  never go back to an earlier state, and one selection followed by the end of its
  read leaves a record that the editor decodes to the selected file. The loop of
  the standard for \<open>split\<close> stops and agrees with the recursive definition on
  the piece the callback keeps. Progress: the pending reads can always finish, and
  each ends in a navigation or in a reported exception. Sizes: the length of the
  stored text, the quota that is enough for it and the quota that is too small
  for it, in terms of the size of a file whose media type has no comma.

  The component theories hold what is true of one component alone and is used
  here: the invariant of the store and its preservation by every event
  (\<open>Web_Storage\<close>, \<open>Event_Loop\<close>), that \<open>JSON.stringify\<close> is injective, produces
  no control character and produces well-formed UTF-16 (\<open>JSON_Parse\<close>, \<open>UTF16\<close>),
  and the facts about the rendered tree (\<open>Home_View\<close>).

  \<^bold>\<open>Bounds.\<close> Strings, files, the store and the number of pending readers are
  arbitrary, the quota is a parameter. The only bound is the one the standard has:
  \<open>split\<close> returns at most \<open>split_limit\<close> pieces, which \<open>split_loop\<close> has and
  \<open>js_split\<close> has not; the two agree below the limit and always on index 1.
  \<open>split_loop\<close> is a \<open>while_option\<close> that is proved to return (the measure is the
  distance of \<open>q\<close> from the end of the string). \<open>js_split\<close> is a
  \<open>function\<close> whose termination is proved by the length of the string that is
  left, and so is \<open>parse_members\<close> (every member that is read consumes at least
  one code unit); everything else is structurally recursive. No fuel is used.

  \<^bold>\<open>Partly modelled.\<close> The browser's interfaces are modelled as far as the page
  calls them, and no further, because nothing in the sources exercises the rest:
  \<open>split\<close> with a separator of one code unit and no explicit limit;
  \<open>JSON.stringify\<close> on an object of strings; \<open>setItem\<close> and \<open>getItem\<close> of
  \<open>Storage\<close>; \<open>readAsDataURL\<close>, \<open>onload\<close> and the three states of a \<open>FileReader\<close>;
  navigation by pushing a location. Every line of the source is translated by some
  definition.

  \<^bold>\<open>Not modelled.\<close> The widgets \<open>UploadArea\<close> and \<open>BottomNavigation\<close> and the icons
  are imported from files that are not part of the sources: they appear in the
  tree as named components and in the event loop as the event \<open>Select\<close>. The
  editor page is not part of the sources either; of it only the reading of the
  record is modelled, and \<open>JSON_parse\<close> reads objects of strings without white
  space only, which is what the page writes. What the class names mean to the style
  sheet is not modelled; they are kept as strings. Arguments of
  \<open>JSON.stringify\<close> other than objects of strings, separators of \<open>split\<close> longer
  than one code unit, and the remaining methods of \<open>Storage\<close> are never used by the
  page.
\<close>

section \<open>The callback on a result string\<close>

text \<open>
  C1 (onload, success): when the event carries a string and the store has room for
  the key and the serialised record, \<open>onload\<close> returns normally; afterwards the store
  holds the serialised record under \<open>uploadedFile\<close>, every other key is as before,
  the location is \<open>/editor\<close> with the old location pushed on the history, and the
  pending readers and reported exceptions are untouched.
\<close>

theorem onload_stores_then_navigates:
  assumes room: "storage_size (items (sessionStorage w)) + length storage_key +
      length (uploadedFile_text file r) \<le> quota (sessionStorage w)"
  shows "\<exists>w'. onload file (load_event r) w = Inr w' \<and>
      getItem storage_key (sessionStorage w') = Some (uploadedFile_text file r) \<and>
      (\<forall>k. k \<noteq> storage_key \<longrightarrow> getItem k (sessionStorage w') = getItem k (sessionStorage w)) \<and>
      location w' = editor_path \<and> history w' = location w # history w \<and>
      readers w' = readers w \<and> uncaught w' = uncaught w"
proof -
  let ?st = "(sessionStorage w)\<lparr>items :=
    AList.update storage_key (uploadedFile_text file r) (items (sessionStorage w))\<rparr>"
  from room have set: "setItem storage_key (uploadedFile_text file r) (sessionStorage w) = Inr ?st"
    by (rule setItem_fits)
  then have "onload file (load_event r) w =
      Inr (setLocation editor_path (w\<lparr>sessionStorage := ?st\<rparr>))"
    by (simp add: onload_def)
  moreover from set have "getItem k ?st =
      (if k = storage_key then Some (uploadedFile_text file r) else getItem k (sessionStorage w))" for k
    by (rule getItem_setItem)
  ultimately show ?thesis by simp
qed

theorem onload_stores_then_navigates_witness:
  "\<exists>w'. onload \<lparr>file_name = js ''a'', file_type = js ''t'', file_bytes = []\<rparr>
        (load_event (js ''d,x'')) (initial (empty_storage 100) (js ''/'')) = Inr w' \<and>
      getItem storage_key (sessionStorage w') =
        Some (uploadedFile_text \<lparr>file_name = js ''a'', file_type = js ''t'', file_bytes = []\<rparr>
          (js ''d,x'')) \<and>
      location w' = editor_path \<and> history w' = [js ''/'']"
proof -
  have "storage_size (items (sessionStorage (initial (empty_storage 100) (js ''/'')))) +
      length storage_key +
      length (uploadedFile_text \<lparr>file_name = js ''a'', file_type = js ''t'', file_bytes = []\<rparr>
        (js ''d,x'')) \<le> quota (sessionStorage (initial (empty_storage 100) (js ''/'')))"
    by (simp add: eval_simps)
  from onload_stores_then_navigates [OF this] show ?thesis
    by (auto simp: initial_def)
qed

text \<open>
  C2 (fileData excludes the prefix): for a file whose media type contains no comma,
  the \<open>fileData\<close> field of the record built from the file's data URL is exactly the
  base64 encoding of the file's bytes: the header \<open>data:...;base64,\<close> is gone and
  nothing of the payload is lost.
\<close>

theorem fileData_excludes_prefix:
  assumes "comma \<notin> set (file_type file)"
  shows "fileData (fileData_obj file (data_url file)) = Some (base64_encode (file_bytes file))"
  using assms
  by (simp add: fileData_obj_def fileData_of_result_def js_split_data_url)

theorem fileData_excludes_prefix_witness:
  "fileData (fileData_obj \<lparr>file_name = js ''a.png'', file_type = js ''image/png'',
       file_bytes = [0x4D, 0x61, 0x6E]\<rparr>
     (data_url \<lparr>file_name = js ''a.png'', file_type = js ''image/png'',
       file_bytes = [0x4D, 0x61, 0x6E]\<rparr>)) = Some (js ''TWFu'')"
proof -
  have "comma \<notin> set (file_type \<lparr>file_name = js ''a.png'', file_type = js ''image/png'',
      file_bytes = [0x4D, 0x61, 0x6E]\<rparr>)"
    by (simp add: eval_simps)
  from fileData_excludes_prefix [OF this] show ?thesis
    by (simp add: eval_simps)
qed

text \<open>
  C3 (onload, store full): when the serialised record does not fit into the quota,
  \<open>setItem\<close> throws, so \<open>onload\<close> throws \<open>QuotaExceededError\<close> and never reaches
  \<open>setLocation\<close>; under the event loop the world keeps its store, its location
  and its history, and the exception is reported.
\<close>

theorem onload_quota_exceeded:
  assumes full: "quota (sessionStorage w) <
      storage_size (AList.update storage_key (uploadedFile_text file r) (items (sessionStorage w)))"
  shows "onload file (load_event r) w = Inl QuotaExceededError"
proof -
  from full have "setItem storage_key (uploadedFile_text file r) (sessionStorage w) =
      Inl QuotaExceededError"
    by (simp only: setItem_Inl_iff)
  then show ?thesis by (simp add: onload_def)
qed

theorem onload_quota_exceeded_witness:
  "onload \<lparr>file_name = js ''a'', file_type = js ''t'', file_bytes = []\<rparr>
     (load_event (js ''d,x'')) (initial (empty_storage 10) (js ''/'')) = Inl QuotaExceededError"
  by (rule onload_quota_exceeded) (simp add: eval_simps)

text \<open>
  C4 (onload, no string): when the event has no target, or the target's result is
  not a string, the call of \<open>split\<close> throws \<open>TypeError\<close> before anything is stored.
\<close>

theorem onload_not_a_string:
  assumes "\<And>r. target e \<noteq> Some \<lparr>result = ResultString r\<rparr>"
  shows "onload file e w = Inl TypeError"
proof (cases "target e")
  case None
  then show ?thesis by (simp add: onload_def result_string_def)
next
  case (Some rd)
  with assms have "result rd \<noteq> ResultString r" for r
    by (cases rd) auto
  with Some show ?thesis
    by (simp add: onload_def result_string_def split: reader_result.splits)
qed

theorem onload_not_a_string_witness:
  "onload \<lparr>file_name = js ''a'', file_type = js ''t'', file_bytes = []\<rparr>
     \<lparr>target = None\<rparr> (initial (empty_storage 100) (js ''/'')) = Inl TypeError \<and>
   onload \<lparr>file_name = js ''a'', file_type = js ''t'', file_bytes = []\<rparr>
     \<lparr>target = Some \<lparr>result = ResultNull\<rparr>\<rparr> (initial (empty_storage 100) (js ''/'')) =
     Inl TypeError"
  by (intro conjI onload_not_a_string) simp_all


section \<open>Results that are not a well-formed data URL\<close>

text \<open>
  C22 (no comma in the result): when the result contains no comma, \<open>split\<close> returns
  one piece, the index \<open>[1]\<close> is \<open>undefined\<close>, and \<open>JSON.stringify\<close> leaves the
  property out: the stored text is that of an object with \<open>fileName\<close> and
  \<open>fileType\<close> only. The reader of the record finds no \<open>fileData\<close> at all.
\<close>

theorem result_without_comma_drops_fileData:
  assumes "comma \<notin> set r"
  shows "uploadedFile_text file r =
     JSON_stringify [(js ''fileName'', JString (file_name file)),
                     (js ''fileType'', JString (file_type file))]"
proof -
  from assms have "fileData (fileData_obj file r) = None"
    by (simp add: fileData_obj_def fileData_of_result_def)
  then have "uploadedFile_text file r =
      JSON_stringify [(js ''fileName'', JString (fileName (fileData_obj file r))),
                      (js ''fileType'', JString (fileType (fileData_obj file r)))]"
    unfolding uploadedFile_text_def by (rule object_of_undefined)
  then show ?thesis by (simp add: fileData_obj_def)
qed

theorem result_without_comma_drops_fileData_witness:
  "uploadedFile_text \<lparr>file_name = js ''a'', file_type = js ''t'', file_bytes = []\<rparr> (js ''data:'') =
     JSON_stringify [(js ''fileName'', JString (js ''a'')), (js ''fileType'', JString (js ''t''))]"
proof -
  have "comma \<notin> set (js ''data:'')" by simp
  from result_without_comma_drops_fileData [OF this] show ?thesis by simp
qed

text \<open>
  C23 (comma in the media type): when the file's type contains a comma, the second
  piece of the data URL lies inside the header, so the \<open>fileData\<close> that is stored
  does not depend on the bytes of the file: any two files of this name and type
  are stored as the same record.
\<close>

theorem comma_in_type_ignores_content:
  assumes "comma \<in> set (file_type file)"
  shows "fileData_of_result (data_url (file\<lparr>file_bytes := bs\<rparr>)) =
     fileData_of_result (data_url file)"
proof -
  from assms obtain h t where ty: "file_type file = h @ comma # t" and h: "comma \<notin> set h"
    by (auto dest: split_list_first)
  have url: "data_url (file\<lparr>file_bytes := b\<rparr>) =
      (js ''data:'' @ h) @ comma # ((t @ js '';base64'') @ comma # base64_encode b)" for b
    by (simp add: data_url_def data_url_header_def media_type_def ty)
  from h have h': "comma \<notin> set (js ''data:'' @ h)" by simp
  have "fileData_of_result (data_url (file\<lparr>file_bytes := b\<rparr>)) =
      Some (takeWhile (\<lambda>c. c \<noteq> comma) (t @ js '';base64''))" for b
  proof -
    have "fileData_of_result (data_url (file\<lparr>file_bytes := b\<rparr>)) =
        Some (takeWhile (\<lambda>c. c \<noteq> comma) ((t @ js '';base64'') @ comma # base64_encode b))"
      unfolding url using h' by (rule fileData_of_result_first_comma)
    also have "takeWhile (\<lambda>c. c \<noteq> comma) ((t @ js '';base64'') @ comma # base64_encode b) =
        takeWhile (\<lambda>c. c \<noteq> comma) (t @ js '';base64'')"
      by (rule takeWhile_tail) simp
    finally show ?thesis .
  qed
  from this [of bs] this [of "file_bytes file"] show ?thesis by simp
qed

theorem comma_in_type_ignores_content_witness:
  "fileData_of_result (data_url (\<lparr>file_name = js ''a'', file_type = js ''x,y'',
       file_bytes = [0x4D]\<rparr>\<lparr>file_bytes := []\<rparr>)) =
   fileData_of_result (data_url \<lparr>file_name = js ''a'', file_type = js ''x,y'',
       file_bytes = [0x4D]\<rparr>)"
  by (rule comma_in_type_ignores_content) (simp add: eval_simps)

section \<open>The page under the event loop\<close>

lemma run_select_load:
  "run enc [Select file, Load 0] w = Some (dispatch_load enc 0 (handleFileSelect file w))"
  by simp

text \<open>
  C14 (navigation and store go together): a reachable world either still has the
  initial history, location and store, or its history is longer, its location is
  \<open>/editor\<close> and its store holds under \<open>uploadedFile\<close> the serialised record of
  some file. The page never navigates without having stored a record, and never
  stores without navigating.
\<close>

theorem navigation_only_with_record:
  assumes "reachable enc w0 w"
  shows "(history w = history w0 \<and> location w = location w0 \<and>
        sessionStorage w = sessionStorage w0) \<or>
     (length (history w0) < length (history w) \<and> location w = editor_path \<and>
        (\<exists>file. getItem storage_key (sessionStorage w) =
           Some (uploadedFile_text file (enc file))))"
  using reachable_untouched_or_navigated [OF assms]
  by (simp add: untouched_def navigated_def)

theorem navigation_only_with_record_witness:
  "location (dispatch_load data_url 0
      (handleFileSelect \<lparr>file_name = js ''a'', file_type = js ''t'', file_bytes = [0x4D]\<rparr>
        (initial (empty_storage 100) (js ''/'')))) = editor_path \<and>
   (\<exists>file. getItem storage_key (sessionStorage (dispatch_load data_url 0
      (handleFileSelect \<lparr>file_name = js ''a'', file_type = js ''t'', file_bytes = [0x4D]\<rparr>
        (initial (empty_storage 100) (js ''/''))))) =
      Some (uploadedFile_text file (data_url file)))"
proof -
  let ?w = "dispatch_load data_url 0
      (handleFileSelect \<lparr>file_name = js ''a'', file_type = js ''t'', file_bytes = [0x4D]\<rparr>
        (initial (empty_storage 100) (js ''/'')))"
  have reach: "reachable data_url (initial (empty_storage 100) (js ''/'')) ?w"
    by (rule run_reachable [OF run_select_load])
  have "history ?w \<noteq> history (initial (empty_storage 100) (js ''/''))"
    by (simp add: eval_simps)
  with navigation_only_with_record [OF reach] show ?thesis
    by blast
qed

text \<open>
  C26 (only one key is written): whatever happens, every key of the session
  storage other than \<open>uploadedFile\<close> has the value it had when the page was
  mounted.
\<close>

theorem other_keys_untouched:
  assumes "reachable enc w0 w" and "k \<noteq> storage_key"
  shows "getItem k (sessionStorage w) = getItem k (sessionStorage w0)"
  using assms by (rule reachable_other_keys)

theorem other_keys_untouched_witness:
  "getItem (js ''theme'') (sessionStorage (dispatch_load data_url 0
      (handleFileSelect \<lparr>file_name = js ''a'', file_type = js ''t'', file_bytes = [0x4D]\<rparr>
        (initial (empty_storage 100) (js ''/''))))) =
   getItem (js ''theme'') (sessionStorage (initial (empty_storage 100) (js ''/'')))"
  by (rule other_keys_untouched [OF run_reachable [OF run_select_load]])
    (simp add: storage_key_def)

text \<open>
  C27 (no TypeError under the event loop): the reader delivers a string to every
  \<open>onload\<close>, so the only exception that can reach the event loop is the
  \<open>QuotaExceededError\<close> of \<open>setItem\<close>; the \<open>TypeError\<close> of the cast
  \<open>as string\<close> cannot arise.
\<close>

theorem no_TypeError_under_event_loop:
  assumes "reachable enc w0 w" and "TypeError \<notin> set (uncaught w0)"
  shows "TypeError \<notin> set (uncaught w) \<and>
     set (uncaught w) \<subseteq> insert QuotaExceededError (set (uncaught w0))"
  using reachable_uncaught [OF assms(1)] assms(2) by auto

theorem no_TypeError_under_event_loop_witness:
  "TypeError \<notin> set (uncaught (dispatch_load data_url 0
      (handleFileSelect \<lparr>file_name = js ''a'', file_type = js ''t'', file_bytes = [0x4D]\<rparr>
        (initial (empty_storage 10) (js ''/'')))))"
proof -
  have "TypeError \<notin> set (uncaught (initial (empty_storage 10) (js ''/'')))"
    by (simp add: initial_def)
  from no_TypeError_under_event_loop [OF run_reachable [OF run_select_load] this]
  show ?thesis by (rule conjunct1)
qed

section \<open>Whole runs\<close>

text \<open>
  C5 (a file is handed off): starting from the freshly mounted page, when a file
  whose media type has no comma is selected and its read finishes, and the store
  has room for the record, the run ends in the editor with the initial location as
  the only history entry, no reader pending, no exception reported, and the store
  holding the text of \<open>{fileName, fileType, fileData}\<close> with the file's name, its
  type and the base64 encoding of its bytes.
\<close>

theorem select_then_load_hands_off_file:
  assumes ty: "comma \<notin> set (file_type file)"
    and room: "fits storage_key (uploadedFile_text file (data_url file)) st"
  shows "\<exists>w. run data_url [Select file, Load 0] (initial st loc) = Some w \<and>
     getItem storage_key (sessionStorage w) =
       Some (JSON_stringify [(js ''fileName'', JString (file_name file)),
                             (js ''fileType'', JString (file_type file)),
                             (js ''fileData'', JString (base64_encode (file_bytes file)))]) \<and>
     location w = editor_path \<and> history w = [loc] \<and> readers w = [] \<and> uncaught w = []"
proof -
  let ?w1 = "handleFileSelect file (initial st loc)"
  have selected: "?w1 = (initial st loc)\<lparr>readers := [file]\<rparr>"
    by (simp add: handleFileSelect_def initial_def)
  have fits: "fits storage_key (uploadedFile_text (readers ?w1 ! 0) (data_url (readers ?w1 ! 0)))
      (sessionStorage ?w1)"
    using room by (simp add: selected)
  have "run data_url [Select file, Load 0] (initial st loc) = Some (dispatch_load data_url 0 ?w1)"
    by simp
  moreover have "getItem storage_key (sessionStorage (dispatch_load data_url 0 ?w1)) =
      Some (uploadedFile_text file (data_url file))"
    using dispatch_load_fits(1) [where enc = data_url and i = 0 and w = ?w1, OF fits] by simp
  moreover have "location (dispatch_load data_url 0 ?w1) = editor_path"
    "history (dispatch_load data_url 0 ?w1) = [loc]"
    "readers (dispatch_load data_url 0 ?w1) = []"
    "uncaught (dispatch_load data_url 0 ?w1) = []"
    using dispatch_load_fits(2-5) [where enc = data_url and i = 0 and w = ?w1, OF fits] by simp_all
  ultimately show ?thesis
    using ty by (simp add: uploadedFile_text_data_url)
qed

theorem select_then_load_hands_off_file_witness:
  "\<exists>w. run data_url [Select \<lparr>file_name = js ''a'', file_type = js ''t'', file_bytes = [0x4D]\<rparr>,
        Load 0] (initial (empty_storage 100) (js ''/'')) = Some w \<and>
     getItem (js ''uploadedFile'') (sessionStorage w) =
       Some (JSON_stringify [(js ''fileName'', JString (js ''a'')),
                             (js ''fileType'', JString (js ''t'')),
                             (js ''fileData'', JString (js ''TQ==''))]) \<and>
     location w = js ''/editor'' \<and> history w = [js ''/''] \<and> readers w = [] \<and>
     uncaught w = []"
proof -
  have ty: "comma \<notin> set (file_type \<lparr>file_name = js ''a'', file_type = js ''t'',
      file_bytes = [0x4D]\<rparr>)"
    by (simp add: eval_simps)
  have room: "fits storage_key
      (uploadedFile_text \<lparr>file_name = js ''a'', file_type = js ''t'', file_bytes = [0x4D]\<rparr>
        (data_url \<lparr>file_name = js ''a'', file_type = js ''t'', file_bytes = [0x4D]\<rparr>))
      (empty_storage 100)"
    by (simp add: eval_simps)
  have "base64_encode [0x4D] = js ''TQ==''"
    by (simp add: eval_simps)
  with select_then_load_hands_off_file [OF ty room, of "js ''/''"] show ?thesis
    by (simp add: storage_key_def editor_path_def)
qed

text \<open>
  C17 (two reads pending): when two files are selected before either read has
  finished and the store has room for each record, both loads store and navigate,
  and the record that remains is that of the read that finished last, whichever
  file was selected first. The record under \<open>uploadedFile\<close> is written twice
  and the editor is entered twice.
\<close>

theorem last_load_wins:
  assumes room1: "fits storage_key (uploadedFile_text f1 (enc f1)) st"
    and room2: "fits storage_key (uploadedFile_text f2 (enc f2)) st"
  shows "\<exists>w w'.
     run enc [Select f1, Select f2, Load 0, Load 0] (initial st loc) = Some w \<and>
     run enc [Select f1, Select f2, Load 1, Load 0] (initial st loc) = Some w' \<and>
     getItem storage_key (sessionStorage w) = Some (uploadedFile_text f2 (enc f2)) \<and>
     getItem storage_key (sessionStorage w') = Some (uploadedFile_text f1 (enc f1)) \<and>
     history w = [editor_path, loc] \<and> history w' = [editor_path, loc]"
proof -
  let ?w2 = "handleFileSelect f2 (handleFileSelect f1 (initial st loc))"
  have first: "fits storage_key (uploadedFile_text (readers ?w2 ! 0) (enc (readers ?w2 ! 0)))
      (sessionStorage ?w2)"
    and second: "fits storage_key (uploadedFile_text (readers ?w2 ! Suc 0) (enc (readers ?w2 ! Suc 0)))
      (sessionStorage ?w2)"
    using room1 room2 by simp_all
  let ?a = "dispatch_load enc 0 ?w2" and ?b = "dispatch_load enc (Suc 0) ?w2"
  have a: "readers ?a = [f2]" "location ?a = editor_path" "history ?a = [loc]"
    "fits storage_key v (sessionStorage ?a) \<longleftrightarrow> fits storage_key v st" for v
    using dispatch_load_fits(2-4,6) [where enc = enc and i = 0 and w = ?w2, OF first] by simp_all
  have b: "readers ?b = [f1]" "location ?b = editor_path" "history ?b = [loc]"
    "fits storage_key v (sessionStorage ?b) \<longleftrightarrow> fits storage_key v st" for v
    using dispatch_load_fits(2-4,6) [where enc = enc and i = "Suc 0" and w = ?w2, OF second] by simp_all
  have a': "fits storage_key (uploadedFile_text (readers ?a ! 0) (enc (readers ?a ! 0)))
      (sessionStorage ?a)"
    using room2 by (simp add: a)
  have b': "fits storage_key (uploadedFile_text (readers ?b ! 0) (enc (readers ?b ! 0)))
      (sessionStorage ?b)"
    using room1 by (simp add: b)
  have "run enc [Select f1, Select f2, Load 0, Load 0] (initial st loc) =
      Some (dispatch_load enc 0 ?a)"
    by (simp add: a)
  moreover have "run enc [Select f1, Select f2, Load 1, Load 0] (initial st loc) =
      Some (dispatch_load enc 0 ?b)"
    by (simp add: b)
  moreover have "getItem storage_key (sessionStorage (dispatch_load enc 0 ?a)) =
      Some (uploadedFile_text f2 (enc f2))"
    "history (dispatch_load enc 0 ?a) = [editor_path, loc]"
    using dispatch_load_fits(1,3) [where enc = enc and i = 0 and w = ?a, OF a'] by (simp_all add: a)
  moreover have "getItem storage_key (sessionStorage (dispatch_load enc 0 ?b)) =
      Some (uploadedFile_text f1 (enc f1))"
    "history (dispatch_load enc 0 ?b) = [editor_path, loc]"
    using dispatch_load_fits(1,3) [where enc = enc and i = 0 and w = ?b, OF b'] by (simp_all add: b)
  ultimately show ?thesis by simp
qed

theorem last_load_wins_witness:
  "\<exists>w w'.
     run data_url [Select \<lparr>file_name = js ''a'', file_type = js ''t'', file_bytes = []\<rparr>,
        Select \<lparr>file_name = js ''b'', file_type = js ''t'', file_bytes = []\<rparr>, Load 0, Load 0]
       (initial (empty_storage 100) (js ''/'')) = Some w \<and>
     run data_url [Select \<lparr>file_name = js ''a'', file_type = js ''t'', file_bytes = []\<rparr>,
        Select \<lparr>file_name = js ''b'', file_type = js ''t'', file_bytes = []\<rparr>, Load 1, Load 0]
       (initial (empty_storage 100) (js ''/'')) = Some w' \<and>
     getItem storage_key (sessionStorage w) \<noteq> getItem storage_key (sessionStorage w')"
proof -
  let ?a = "\<lparr>file_name = js ''a'', file_type = js ''t'', file_bytes = []\<rparr>"
  let ?b = "\<lparr>file_name = js ''b'', file_type = js ''t'', file_bytes = []\<rparr>"
  have room: "fits storage_key (uploadedFile_text ?a (data_url ?a)) (empty_storage 100)"
    "fits storage_key (uploadedFile_text ?b (data_url ?b)) (empty_storage 100)"
    by (simp_all add: eval_simps)
  have "uploadedFile_text ?b (data_url ?b) \<noteq> uploadedFile_text ?a (data_url ?a)"
    by (simp add: eval_simps)
  with last_load_wins [OF room, of "js ''/''"] show ?thesis
    by auto
qed


section \<open>Sizes\<close>

text \<open>
  C30 (room for the record): when the file's media type has no comma and the quota
  leaves room for 55 code units, six times the lengths of the file's name and type,
  and four code units for every three bytes of the file (rounded up), the callback
  stores the record and enters the editor; it does not throw.
\<close>

theorem onload_succeeds_within_quota:
  assumes ty: "comma \<notin> set (file_type file)"
    and room: "storage_size (items (sessionStorage w)) + 55 +
        6 * (length (file_name file) + length (file_type file)) +
        4 * ((length (file_bytes file) + 2) div 3) \<le> quota (sessionStorage w)"
  shows "\<exists>w'. onload file (load_event (data_url file)) w = Inr w' \<and>
     location w' = editor_path \<and>
     getItem storage_key (sessionStorage w') = Some (uploadedFile_text file (data_url file))"
proof -
  let ?text = "uploadedFile_text file (data_url file)"
  have "length ?text \<le> 43 + 6 * (length (file_name file) + length (file_type file)) +
      4 * ((length (file_bytes file) + 2) div 3)"
    using length_quote_units_upper [of "file_name file"]
      length_quote_units_upper [of "file_type file"]
    by (simp add: length_uploadedFile_text_data_url [OF ty])
  with room have "storage_size (items (sessionStorage w)) + length storage_key + length ?text
      \<le> quota (sessionStorage w)"
    by simp
  then have "setItem storage_key ?text (sessionStorage w) =
      Inr (sessionStorage w\<lparr>items := AList.update storage_key ?text (items (sessionStorage w))\<rparr>)"
    by (rule setItem_fits)
  then show ?thesis
    by (simp add: onload_def setLocation_def getItem_def AList.update_conv')
qed

theorem onload_succeeds_within_quota_witness:
  "\<exists>w'. onload \<lparr>file_name = js ''a'', file_type = js ''t'', file_bytes = [0x4D]\<rparr>
       (load_event (data_url \<lparr>file_name = js ''a'', file_type = js ''t'', file_bytes = [0x4D]\<rparr>))
       (initial (empty_storage 71) (js ''/'')) = Inr w' \<and>
     location w' = editor_path \<and>
     getItem storage_key (sessionStorage w') =
       Some (uploadedFile_text \<lparr>file_name = js ''a'', file_type = js ''t'', file_bytes = [0x4D]\<rparr>
         (data_url \<lparr>file_name = js ''a'', file_type = js ''t'', file_bytes = [0x4D]\<rparr>))"
  by (rule onload_succeeds_within_quota) (simp_all add: eval_simps)

text \<open>
  C31 (no room for the record): when the file's media type has no comma and the
  quota is less than 55 code units plus the lengths of the file's name and type plus
  four code units for every three bytes of the file (rounded up), the callback
  throws \<open>QuotaExceededError\<close>, whatever the store holds: together with the
  bound under which the callback succeeds, this is the size of file the hand-off
  can carry.
\<close>

theorem onload_fails_beyond_quota:
  assumes ty: "comma \<notin> set (file_type file)"
    and big: "quota (sessionStorage w) <
        55 + length (file_name file) + length (file_type file) +
        4 * ((length (file_bytes file) + 2) div 3)"
  shows "onload file (load_event (data_url file)) w = Inl QuotaExceededError"
proof -
  let ?text = "uploadedFile_text file (data_url file)"
  have "43 + length (file_name file) + length (file_type file) +
      4 * ((length (file_bytes file) + 2) div 3) \<le> length ?text"
    using length_quote_units_lower [of "file_name file"]
      length_quote_units_lower [of "file_type file"]
    by (simp add: length_uploadedFile_text_data_url [OF ty])
  with big have "quota (sessionStorage w) < length storage_key + length ?text"
    by simp
  then have "setItem storage_key ?text (sessionStorage w) = Inl QuotaExceededError"
    by (rule setItem_too_long)
  then show ?thesis
    by (simp add: onload_def)
qed

theorem onload_fails_beyond_quota_witness:
  "onload \<lparr>file_name = js ''a'', file_type = js ''t'', file_bytes = [0x4D, 0x61, 0x6E]\<rparr>
     (load_event (data_url \<lparr>file_name = js ''a'', file_type = js ''t'', file_bytes = [0x4D, 0x61, 0x6E]\<rparr>))
     (initial (empty_storage 60) (js ''/'')) = Inl QuotaExceededError"
  by (rule onload_fails_beyond_quota) (simp_all add: eval_simps)

text \<open>
  C32 (size of the record): for a file whose media type has no comma, the stored
  text is at least 43 code units of keys and punctuation plus the lengths of the
  name, the type and the base64 text, and at most 43 plus six times the lengths of
  name and type plus the base64 text, whose length is four code units for every
  three bytes, rounded up.
\<close>

theorem uploadedFile_text_length_bounds:
  assumes ty: "comma \<notin> set (file_type file)"
  shows "43 + length (file_name file) + length (file_type file) +
       4 * ((length (file_bytes file) + 2) div 3)
     \<le> length (uploadedFile_text file (data_url file)) \<and>
     length (uploadedFile_text file (data_url file))
     \<le> 43 + 6 * length (file_name file) + 6 * length (file_type file) +
       4 * ((length (file_bytes file) + 2) div 3)"
  using length_quote_units_lower [of "file_name file"]
    length_quote_units_upper [of "file_name file"]
    length_quote_units_lower [of "file_type file"]
    length_quote_units_upper [of "file_type file"]
  by (simp add: length_uploadedFile_text_data_url [OF ty])

theorem uploadedFile_text_length_bounds_witness:
  "49 \<le> length (uploadedFile_text \<lparr>file_name = [0x22], file_type = js ''t'', file_bytes = [0x4D]\<rparr>
      (data_url \<lparr>file_name = [0x22], file_type = js ''t'', file_bytes = [0x4D]\<rparr>)) \<and>
   length (uploadedFile_text \<lparr>file_name = [0x22], file_type = js ''t'', file_bytes = [0x4D]\<rparr>
      (data_url \<lparr>file_name = [0x22], file_type = js ''t'', file_bytes = [0x4D]\<rparr>)) \<le> 59"
proof -
  have "comma \<notin> set (file_type \<lparr>file_name = [0x22], file_type = js ''t'',
      file_bytes = [0x4D]\<rparr>)"
    by (simp add: eval_simps)
  from uploadedFile_text_length_bounds [OF this] show ?thesis
    by simp
qed

section \<open>The promise to the editor\<close>

text \<open>
  C6 (the event loop refines the hand-off machine): seen through \<open>abstraction\<close>
  (the map of the store, the location, the history), a run of the page is the
  sequence of its deliveries: the abstract state at the end is the abstract state
  at the start after \<open>deliver\<close> of each delivered text, in the order of the
  events. Selections, aborted reads and reads whose record does not fit leave the
  abstract state alone.
\<close>

theorem run_refines_deliveries:
  "run enc es w = Some w' \<Longrightarrow>
   abstraction w' = foldl (\<lambda>h text. deliver text h) (abstraction w) (deliveries enc es w)"
proof (induction rule: run_induct)
  case (Nil w)
  show ?case by simp
next
  case (Cons e es w w1 w')
  note w1 = Cons.hyps(1)
  let ?text = "\<lambda>i. uploadedFile_text (readers w ! i) (enc (readers w ! i))"
  have step: "abstraction w1 = perform (delivery enc e w) (abstraction w)"
  proof (cases e)
    case (Load i)
    with w1 have i: "i < length (readers w)" and w1': "w1 = dispatch_load enc i w"
      by (auto split: if_splits)
    show ?thesis
    proof (cases "fits storage_key (?text i) (sessionStorage w)")
      case True
      note stored = True [unfolded setItem_fits_iff]
      from True i show ?thesis
        by (simp add: w1' Load dispatch_load_def onload_def drop_reader_def stored
            setLocation_def abstraction_def deliver_def delivery_def contents_def
            AList.update_conv')
    next
      case False
      note thrown = False [unfolded setItem_not_fits_iff]
      from False i show ?thesis
        by (simp add: w1' Load dispatch_load_def onload_def drop_reader_def thrown
            report_def abstraction_def delivery_def)
    qed
  qed (use w1 in \<open>auto simp: handleFileSelect_def drop_reader_def abstraction_def
      delivery_def split: if_splits\<close>)
  from Cons.IH step show ?case
    by (cases "delivery enc e w") (simp_all add: w1)
qed

theorem run_refines_deliveries_witness:
  "abstraction (dispatch_load data_url 0
      (handleFileSelect \<lparr>file_name = js ''a'', file_type = js ''t'', file_bytes = []\<rparr>
        (initial (empty_storage 100) (js ''/'')))) =
   deliver (uploadedFile_text \<lparr>file_name = js ''a'', file_type = js ''t'', file_bytes = []\<rparr>
       (data_url \<lparr>file_name = js ''a'', file_type = js ''t'', file_bytes = []\<rparr>))
     (abstraction (initial (empty_storage 100) (js ''/'')))"
proof -
  let ?f = "\<lparr>file_name = js ''a'', file_type = js ''t'', file_bytes = []\<rparr>"
  have room: "fits storage_key (uploadedFile_text ?f (data_url ?f)) (empty_storage 100)"
    by (simp add: eval_simps)
  have run: "run data_url [Select ?f, Load 0] (initial (empty_storage 100) (js ''/'')) =
      Some (dispatch_load data_url 0 (handleFileSelect ?f (initial (empty_storage 100) (js ''/''))))"
    by simp
  from run_refines_deliveries [OF run] room show ?thesis
    by (simp add: delivery_def)
qed

text \<open>
  C18 (at most one record per selection): along any run, the number of records
  delivered plus the number of reads still pending at the end is at most the
  number of reads pending at the start plus the number of files selected. From the
  freshly mounted page, the page stores at most as many records as files were
  selected.
\<close>

theorem deliveries_bounded_by_selections:
  "run enc es w = Some w' \<Longrightarrow>
   length (deliveries enc es w) + length (readers w') \<le>
     length (readers w) + length (filter is_select es)"
proof (induction rule: run_induct)
  case (Nil w)
  show ?case by simp
next
  case (Cons e es w w1 w')
  from Cons.IH delivery_uses_reader [OF Cons.hyps(1)] show ?case
    by (simp add: Cons.hyps(1) split: if_splits)
qed

theorem deliveries_bounded_by_selections_witness:
  "length (deliveries data_url
      [Select \<lparr>file_name = js ''a'', file_type = js ''t'', file_bytes = []\<rparr>, Load 0]
      (initial (empty_storage 100) (js ''/''))) \<le> 1"
proof -
  let ?f = "\<lparr>file_name = js ''a'', file_type = js ''t'', file_bytes = []\<rparr>"
  have run: "run data_url [Select ?f, Load 0] (initial (empty_storage 100) (js ''/'')) =
      Some (dispatch_load data_url 0 (handleFileSelect ?f (initial (empty_storage 100) (js ''/''))))"
    by simp
  from deliveries_bounded_by_selections [OF run] show ?thesis
    by simp
qed

text \<open>
  C16 (nothing is read or stored that was not selected): after any run, the reads
  still pending are a subsequence of the reads that were pending before the run
  followed by the files selected during it, in the order of selection, and the
  record under \<open>uploadedFile\<close> is either the one from before the run or the
  record of one of those files. From the freshly mounted page, where no read is
  pending: the page reads no file twice, never reorders its reads, and stores only
  records of files the user selected.
\<close>

theorem stored_record_traces_back_to_a_selection:
  assumes "run enc es w = Some w'"
  shows "subseq (readers w') (readers w @ selected es) \<and>
     (getItem storage_key (sessionStorage w') = getItem storage_key (sessionStorage w) \<or>
      (\<exists>f \<in> set (readers w @ selected es).
         getItem storage_key (sessionStorage w') = Some (uploadedFile_text f (enc f))))"
  using assms by (intro conjI readers_run_subseq run_store_traceback)

theorem stored_record_traces_back_to_a_selection_witness:
  "subseq
     (readers (dispatch_load data_url 1
        (handleFileSelect \<lparr>file_name = js ''b'', file_type = js ''t'', file_bytes = []\<rparr>
          (handleFileSelect \<lparr>file_name = js ''a'', file_type = js ''t'', file_bytes = []\<rparr>
            (initial (empty_storage 100) (js ''/''))))))
     [\<lparr>file_name = js ''a'', file_type = js ''t'', file_bytes = []\<rparr>,
      \<lparr>file_name = js ''b'', file_type = js ''t'', file_bytes = []\<rparr>]"
proof -
  let ?a = "\<lparr>file_name = js ''a'', file_type = js ''t'', file_bytes = []\<rparr>"
  let ?b = "\<lparr>file_name = js ''b'', file_type = js ''t'', file_bytes = []\<rparr>"
  have run: "run data_url [Select ?a, Select ?b, Load 1] (initial (empty_storage 100) (js ''/'')) =
      Some (dispatch_load data_url 1
        (handleFileSelect ?b (handleFileSelect ?a (initial (empty_storage 100) (js ''/'')))))"
    by simp
  from stored_record_traces_back_to_a_selection [OF run] show ?thesis
    by simp
qed

section \<open>What the editor can read\<close>

text \<open>
  C7 (the record is read back): whenever the callback returns normally, a reader
  that gets the text under \<open>uploadedFile\<close>, parses it and reads the three
  properties obtains the object the callback built from the file and the result:
  the name, the type, and \<open>fileData\<close> as cut from the result, missing exactly when
  the result has no comma. Quoting and escaping lose nothing, whatever code units
  the name and the type contain.
\<close>

theorem onload_record_read_back:
  assumes "onload file (load_event r) w = Inr w'"
  shows "read_uploadedFile (sessionStorage w') = Some (fileData_obj file r)"
proof -
  from assms obtain st where
    st: "setItem storage_key (uploadedFile_text file r) (sessionStorage w) = Inr st"
    and w': "w' = setLocation editor_path (w\<lparr>sessionStorage := st\<rparr>)"
    by (auto simp: onload_def split: sum.splits)
  have "getItem storage_key st = Some (JSON_stringify (object_of (fileData_obj file r)))"
    using getItem_setItem_same [OF st] by (simp add: uploadedFile_text_def)
  then have "read_uploadedFile st = Some (fileData_obj file r)"
    by (rule read_uploadedFile_stored)
  then show ?thesis
    by (simp add: w' setLocation_def)
qed

theorem onload_record_read_back_witness:
  "read_uploadedFile (sessionStorage (setLocation editor_path
      (initial (empty_storage 100) (js ''/'')
        \<lparr>sessionStorage := \<lparr>items = [(storage_key,
            uploadedFile_text \<lparr>file_name = [0x22], file_type = js ''t'', file_bytes = []\<rparr>
              (js ''d,x''))], quota = 100\<rparr>\<rparr>))) =
   Some (fileData_obj \<lparr>file_name = [0x22], file_type = js ''t'', file_bytes = []\<rparr> (js ''d,x''))"
proof -
  let ?f = "\<lparr>file_name = [0x22], file_type = js ''t'', file_bytes = []\<rparr>"
  have "onload ?f (load_event (js ''d,x'')) (initial (empty_storage 100) (js ''/'')) =
      Inr (setLocation editor_path (initial (empty_storage 100) (js ''/'')
        \<lparr>sessionStorage := \<lparr>items = [(storage_key, uploadedFile_text ?f (js ''d,x''))],
          quota = 100\<rparr>\<rparr>))"
    by (simp add: eval_simps)
  then show ?thesis
    by (rule onload_record_read_back)
qed

text \<open>
  C8 (the hand-off loses nothing): from the freshly mounted page, when a file
  whose media type has no comma is selected and its read finishes with room in the
  store, reading the record back and decoding its \<open>fileData\<close> yields the file that
  was selected: the same name, the same type and the same bytes.
\<close>

theorem hand_off_is_lossless:
  assumes ty: "comma \<notin> set (file_type file)"
    and room: "fits storage_key (uploadedFile_text file (data_url file)) st"
  shows "\<exists>w. run data_url [Select file, Load 0] (initial st loc) = Some w \<and>
     Option.bind (read_uploadedFile (sessionStorage w)) file_of_record = Some file"
proof -
  let ?w1 = "handleFileSelect file (initial st loc)"
  have selected: "?w1 = (initial st loc)\<lparr>readers := [file]\<rparr>"
    by (simp add: handleFileSelect_def initial_def)
  have stored: "setItem storage_key (uploadedFile_text file (data_url file)) st =
      Inr (st\<lparr>items := AList.update storage_key (uploadedFile_text file (data_url file))
        (items st)\<rparr>)"
    using room by (simp add: setItem_fits_iff)
  have "getItem storage_key (sessionStorage (dispatch_load data_url 0 ?w1)) =
      Some (uploadedFile_text file (data_url file))"
    by (simp add: selected dispatch_load_def onload_def drop_reader_def stored setLocation_def
        getItem_def AList.update_conv')
  then have "getItem storage_key (sessionStorage (dispatch_load data_url 0 ?w1)) =
      Some (JSON_stringify (object_of (fileData_obj file (data_url file))))"
    by (simp only: uploadedFile_text_def)
  then have "read_uploadedFile (sessionStorage (dispatch_load data_url 0 ?w1)) =
      Some (fileData_obj file (data_url file))"
    by (rule read_uploadedFile_stored)
  moreover have "run data_url [Select file, Load 0] (initial st loc) =
      Some (dispatch_load data_url 0 ?w1)"
    by (simp add: selected)
  ultimately show ?thesis
    by (simp add: file_of_record_data_url [OF ty])
qed

theorem hand_off_is_lossless_witness:
  "\<exists>w. run data_url [Select \<lparr>file_name = js ''a'', file_type = js ''t'', file_bytes = [0x4D]\<rparr>,
        Load 0] (initial (empty_storage 100) (js ''/'')) = Some w \<and>
     Option.bind (read_uploadedFile (sessionStorage w)) file_of_record =
       Some \<lparr>file_name = js ''a'', file_type = js ''t'', file_bytes = [0x4D]\<rparr>"
  by (rule hand_off_is_lossless) (simp_all add: eval_simps)

text \<open>
  C9 (\<open>fileData\<close> is the file): for a file whose media type has no comma, the
  piece the callback keeps of the data URL is base64 text that decodes to exactly
  the bytes of the file.
\<close>

theorem fileData_decodes_to_bytes:
  assumes "comma \<notin> set (file_type file)"
  shows "Option.bind (fileData_of_result (data_url file)) base64_decode = Some (file_bytes file)"
proof -
  have "js_split comma (data_url file) = [data_url_header file, base64_encode (file_bytes file)]"
    using assms by (rule js_split_data_url)
  then have "fileData_of_result (data_url file) = Some (base64_encode (file_bytes file))"
    by (simp add: fileData_of_result_def js_index_def)
  then show ?thesis by simp
qed

theorem fileData_decodes_to_bytes_witness:
  "Option.bind (fileData_of_result (data_url
      \<lparr>file_name = js ''a'', file_type = js ''image/png'', file_bytes = [0x4D, 0x61]\<rparr>))
     base64_decode = Some [0x4D, 0x61]"
proof -
  have "comma \<notin> set (file_type \<lparr>file_name = js ''a'', file_type = js ''image/png'',
      file_bytes = [0x4D, 0x61]\<rparr>)"
    by (simp add: eval_simps)
  from fileData_decodes_to_bytes [OF this] show ?thesis
    by simp
qed

section \<open>Progress\<close>

text \<open>
  C28 (pending reads drain): in any world, letting the pending reads finish one
  after the other is a run, at its end no read is pending, and every one of them
  has either entered the editor (one more history entry) or reported an exception
  (one more uncaught error): no read is lost and none is handled twice.
\<close>

theorem pending_reads_drain:
  "\<exists>w'. run enc (replicate (length (readers w)) (Load 0)) w = Some w' \<and> readers w' = [] \<and>
     length (uncaught w') + length (history w') = length (uncaught w) + length (history w) + length (readers w)"
proof (induction "length (readers w)" arbitrary: w)
  case 0
  then show ?case by simp
next
  case (Suc n)
  let ?w1 = "dispatch_load enc 0 w"
  from Suc.hyps(2) have "readers w \<noteq> []"
    by auto
  then have fire: "fire enc (Load 0) w = Some ?w1"
    by simp
  from fire_readers [OF fire] Suc.hyps(2) have n: "n = length (readers ?w1)"
    by simp
  from Suc.hyps(1) [OF n] obtain w' where "run enc (replicate n (Load 0)) ?w1 = Some w'"
    and "readers w' = []" 
    and "length (uncaught w') + length (history w') = length (uncaught ?w1) + length (history ?w1) + length (readers ?w1)"
    using n by auto
  moreover have "length (uncaught ?w1) + length (history ?w1) = Suc (length (uncaught w) + length (history w))"
    by (cases "fits storage_key (uploadedFile_text (readers w ! 0) (enc (readers w ! 0))) (sessionStorage w)")
       simp_all
  ultimately show ?case
    using Suc.hyps(2) [symmetric] n by (simp add: fire)
qed


text \<open>
  C24 (a selection does not disturb a pending read): selecting another file before
  or after a pending read finishes gives the same world: the new reader is queued
  behind the pending ones and affects neither what they store nor whether they
  fit.
\<close>

theorem select_commutes_with_load:
  assumes i: "i < length (readers w)"
  shows "run enc [Select file, Load i] w = run enc [Load i, Select file] w"
proof -
  let ?w1 = "handleFileSelect file w"
  let ?text = "uploadedFile_text (readers w ! i) (enc (readers w ! i))"
  have "dispatch_load enc i ?w1 = handleFileSelect file (dispatch_load enc i w)"
  proof (cases "fits storage_key ?text (sessionStorage w)")
    case True
    then have "fits storage_key (uploadedFile_text (readers ?w1 ! i) (enc (readers ?w1 ! i)))
        (sessionStorage ?w1)"
      using i by (simp add: handleFileSelect_def nth_append)
    from dispatch_load_stored [where enc = enc and w = ?w1 and i = i, OF this]
      dispatch_load_stored [where enc = enc and w = w and i = i, OF True] i
    show ?thesis
      by (simp add: handleFileSelect_def drop_reader_def setLocation_def nth_append)
  next
    case False
    then have "\<not> fits storage_key (uploadedFile_text (readers ?w1 ! i) (enc (readers ?w1 ! i)))
        (sessionStorage ?w1)"
      using i by (simp add: handleFileSelect_def nth_append)
    from dispatch_load_thrown [where enc = enc and w = ?w1 and i = i, OF this]
      dispatch_load_thrown [where enc = enc and w = w and i = i, OF False] i
    show ?thesis
      by (simp add: handleFileSelect_def drop_reader_def report_def nth_append)
  qed
  with i show ?thesis
    by (simp add: handleFileSelect_def)
qed

theorem select_commutes_with_load_witness:
  "run data_url [Select \<lparr>file_name = js ''b'', file_type = js ''t'', file_bytes = []\<rparr>, Load 0]
     (handleFileSelect \<lparr>file_name = js ''a'', file_type = js ''t'', file_bytes = []\<rparr>
       (initial (empty_storage 100) (js ''/''))) =
   run data_url [Load 0, Select \<lparr>file_name = js ''b'', file_type = js ''t'', file_bytes = []\<rparr>]
     (handleFileSelect \<lparr>file_name = js ''a'', file_type = js ''t'', file_bytes = []\<rparr>
       (initial (empty_storage 100) (js ''/'')))"
  by (rule select_commutes_with_load) simp

text \<open>
  C25 (storing again succeeds): when the callback has returned normally, running
  it again on the same file and event in the world it left stores the same text
  and enters the editor again; it cannot fail for lack of room, because replacing
  a value by itself does not change the size of the store.
\<close>

theorem onload_again_succeeds:
  assumes "onload file e w = Inr w'"
  shows "onload file e w' = Inr (setLocation editor_path w')"
proof -
  from assms obtain r st where r: "result_string e = Inr r"
    and st: "setItem storage_key (uploadedFile_text file r) (sessionStorage w) = Inr st"
    and w': "w' = setLocation editor_path (w\<lparr>sessionStorage := st\<rparr>)"
    by (auto simp: onload_def split: sum.splits)
  from st have "fits storage_key (uploadedFile_text file r) (sessionStorage w)"
    unfolding setItem_Inr_iff fits_def by (rule conjunct1)
  with fits_after_setItem [OF st] have "fits storage_key (uploadedFile_text file r) st"
    by simp
  moreover from getItem_setItem_same [OF st]
  have "AList.update storage_key (uploadedFile_text file r) (items st) = items st"
    by (simp add: getItem_def AList.update_triv)
  ultimately have "setItem storage_key (uploadedFile_text file r) st = Inr st"
    by (simp add: setItem_fits_iff)
  then show ?thesis
    by (simp add: onload_def r w' setLocation_def)
qed

theorem onload_again_succeeds_witness:
  "onload \<lparr>file_name = js ''a'', file_type = js ''t'', file_bytes = []\<rparr> (load_event (js ''d,x''))
     (setLocation editor_path (initial (empty_storage 100) (js ''/'')
        \<lparr>sessionStorage := \<lparr>items = [(storage_key,
            uploadedFile_text \<lparr>file_name = js ''a'', file_type = js ''t'', file_bytes = []\<rparr>
              (js ''d,x''))], quota = 100\<rparr>\<rparr>)) =
   Inr (setLocation editor_path (setLocation editor_path (initial (empty_storage 100) (js ''/'')
        \<lparr>sessionStorage := \<lparr>items = [(storage_key,
            uploadedFile_text \<lparr>file_name = js ''a'', file_type = js ''t'', file_bytes = []\<rparr>
              (js ''d,x''))], quota = 100\<rparr>\<rparr>)))"
proof -
  let ?f = "\<lparr>file_name = js ''a'', file_type = js ''t'', file_bytes = []\<rparr>"
  have "onload ?f (load_event (js ''d,x'')) (initial (empty_storage 100) (js ''/'')) =
      Inr (setLocation editor_path (initial (empty_storage 100) (js ''/'')
        \<lparr>sessionStorage := \<lparr>items = [(storage_key, uploadedFile_text ?f (js ''d,x''))],
          quota = 100\<rparr>\<rparr>))"
    by (simp add: eval_simps)
  then show ?thesis
    by (rule onload_again_succeeds)
qed

section \<open>The split of the standard\<close>

text \<open>
  C29 (the loop and the recursion agree on \<open>fileData\<close>): the loop by which the
  standard defines \<open>split\<close> stops on every result, and the piece the callback
  keeps, index 1 of the split at commas, is the same whether the split is computed
  by that loop, with its limit on the number of pieces, or by the recursive
  \<open>js_split\<close> the other theorems are stated with.
\<close>

theorem fileData_of_result_by_loop:
  "\<exists>pieces. split_loop comma r = Some pieces \<and> js_index pieces 1 = fileData_of_result r"
proof -
  have "(1::nat) < split_limit"
    by (simp add: split_limit_def)
  then show ?thesis
    by (simp add: split_loop_js_split fileData_of_result_def js_index_take)
qed

section \<open>The readers behind the queue\<close>

text \<open>
  C10 (the handler on the heap refines the handler on the queue): creating a
  reader, assigning its callback and starting the read always succeeds, and it
  adds exactly the selected file at the end of the queue of pending reads, which
  is what \<open>handleFileSelect\<close> does to \<open>readers\<close>.
\<close>

theorem handleFileSelect_heap_refines:
  assumes "readers w = pending_files h"
  shows "\<exists>h'. handleFileSelect_heap file h = Inr h' \<and>
     readers (handleFileSelect file w) = pending_files h'"
proof -
  let ?cell = "\<lparr>result = ResultNull, readyState = LOADING, blob = Some file,
      onload_closure = Some file\<rparr>"
  have "handleFileSelect_heap file h = Inr (h @ [?cell])"
    by (simp add: handleFileSelect_heap_def new_FileReader_def assign_onload_def
        readAsDataURL_def)
  moreover have "pending_files (h @ [?cell]) = pending_files h @ [file]"
    by (simp add: loading_def)
  ultimately show ?thesis
    using assms by (simp add: handleFileSelect_def)
qed

theorem handleFileSelect_heap_refines_witness:
  "\<exists>h'. handleFileSelect_heap \<lparr>file_name = js ''a'', file_type = js ''t'', file_bytes = []\<rparr> [] =
       Inr h' \<and>
     readers (handleFileSelect \<lparr>file_name = js ''a'', file_type = js ''t'', file_bytes = []\<rparr>
       (initial (empty_storage 100) (js ''/''))) = pending_files h'"
  by (rule handleFileSelect_heap_refines) simp

text \<open>
  C21 (a finished read delivers the load event): the reader that the handler
  creates for a file, whatever the heap held before, has captured that file in its
  callback; when its read finishes it is done, and the event its callback is
  called with carries the encoding of that same file as a string, so the cast
  \<open>e.target?.result as string\<close> of the callback meets a string.
\<close>

theorem finished_read_delivers_load_event:
  "\<exists>h'. handleFileSelect_heap file h = Inr h' \<and>
     (let cell = finish_load enc (length h) h' ! length h in
        onload_closure cell = Some file \<and> readyState cell = DONE \<and>
        event_of cell = load_event (enc file) \<and>
        result_string (event_of cell) = Inr (enc file))"
proof -
  let ?cell = "\<lparr>result = ResultNull, readyState = LOADING, blob = Some file,
      onload_closure = Some file\<rparr>"
  have "handleFileSelect_heap file h = Inr (h @ [?cell])"
    by (simp add: handleFileSelect_heap_def new_FileReader_def assign_onload_def
        readAsDataURL_def)
  moreover have "finish_load enc (length h) (h @ [?cell]) ! length h =
      ?cell\<lparr>result := ResultString (enc file), readyState := DONE\<rparr>"
    by (simp add: finish_load_def)
  ultimately show ?thesis
    by (simp add: event_of_def load_event_def file_reader.truncate_def result_string_def)
qed

text \<open>
  C19 (the events of the heap simulate the events of the queue): every event on a
  well-formed heap (a selection, a finished read, a failed read, named by the
  reader) is an event of the event loop on the queue of pending files (named by
  the position in the queue), and the queues agree afterwards.
\<close>

theorem heap_fire_simulates_fire:
  assumes ok: "heap_ok h" and q: "readers w = pending_files h"
    and fire: "heap_fire enc e h = Some h'"
  shows "\<exists>w'. fire enc (abstract_event e h) w = Some w' \<and> readers w' = pending_files h'"
proof (cases e)
  case (HSelect f)
  with fire q show ?thesis
    by (auto simp: heap_fire_def abstract_event_def handleFileSelect_heap_def
        new_FileReader_def assign_onload_def readAsDataURL_def handleFileSelect_def loading_def)
next
  case (HLoad r)
  with fire have r: "r < length h" and l: "loading (h ! r)"
    and h': "h' = finish_load enc r h"
    by (auto simp: heap_fire_def loading_def split: if_splits)
  from loading_cell [OF ok r l] obtain f where f: "onload_closure (h ! r) = Some f"
    by blast
  from pending_files_position [OF r l f] pending_files_finish_load [OF ok r l, of enc] q
  show ?thesis
    by (simp add: HLoad abstract_event_def h' readers_dispatch_load)
next
  case (HError r)
  with fire have r: "r < length h" and l: "loading (h ! r)"
    and h': "h' = fail_read r h"
    by (auto simp: heap_fire_def loading_def split: if_splits)
  from loading_cell [OF ok r l] obtain f where f: "onload_closure (h ! r) = Some f"
    by blast
  from pending_files_position [OF r l f] pending_files_fail_read [OF ok r l] q
  show ?thesis
    by (simp add: HError abstract_event_def h' drop_reader_def)
qed

theorem heap_fire_simulates_fire_witness:
  "\<exists>w'. fire data_url (abstract_event (HLoad 0)
        [\<lparr>result = ResultNull, readyState = LOADING,
          blob = Some \<lparr>file_name = js ''a'', file_type = js ''t'', file_bytes = []\<rparr>,
          onload_closure = Some \<lparr>file_name = js ''a'', file_type = js ''t'', file_bytes = []\<rparr>\<rparr>])
       (handleFileSelect \<lparr>file_name = js ''a'', file_type = js ''t'', file_bytes = []\<rparr>
         (initial (empty_storage 100) (js ''/''))) = Some w' \<and>
     readers w' = []"
proof -
  let ?f = "\<lparr>file_name = js ''a'', file_type = js ''t'', file_bytes = []\<rparr>"
  let ?h = "[\<lparr>result = ResultNull, readyState = LOADING, blob = Some ?f,
      onload_closure = Some ?f\<rparr>]"
  have "heap_ok ?h"
    "readers (handleFileSelect ?f (initial (empty_storage 100) (js ''/''))) = pending_files ?h"
    "heap_fire data_url (HLoad 0) ?h = Some (finish_load data_url 0 ?h)"
    by (simp_all add: wf_simps loading_def heap_fire_def)
  from heap_fire_simulates_fire [OF this] show ?thesis
    by (simp add: finish_load_def loading_def)
qed

text \<open>
  C12 (the readers the page leaves behind): after any sequence of events from the
  empty heap, every reader is loading or done (none was created and not started),
  its callback has closed over the file it reads, its result is null while it is
  loading and is never an \<open>ArrayBuffer\<close> once it is done.
\<close>

theorem readers_of_the_page_are_well_formed:
  assumes "heap_run enc es [] = Some h"
  shows "heap_ok h \<and> started h"
proof
  from assms show "heap_ok h"
    by (rule heap_ok_heap_run) simp
  from assms show "started h"
    by (rule started_heap_run) (simp add: started_def)
qed

theorem readers_of_the_page_are_well_formed_witness:
  "heap_ok [\<lparr>result = ResultString (data_url
        \<lparr>file_name = js ''a'', file_type = js ''t'', file_bytes = []\<rparr>),
      readyState = DONE,
      blob = Some \<lparr>file_name = js ''a'', file_type = js ''t'', file_bytes = []\<rparr>,
      onload_closure = Some \<lparr>file_name = js ''a'', file_type = js ''t'', file_bytes = []\<rparr>\<rparr>,
     \<lparr>result = ResultNull, readyState = LOADING,
      blob = Some \<lparr>file_name = js ''b'', file_type = js ''t'', file_bytes = []\<rparr>,
      onload_closure = Some \<lparr>file_name = js ''b'', file_type = js ''t'', file_bytes = []\<rparr>\<rparr>] \<and>
   started [\<lparr>result = ResultString (data_url
        \<lparr>file_name = js ''a'', file_type = js ''t'', file_bytes = []\<rparr>),
      readyState = DONE,
      blob = Some \<lparr>file_name = js ''a'', file_type = js ''t'', file_bytes = []\<rparr>,
      onload_closure = Some \<lparr>file_name = js ''a'', file_type = js ''t'', file_bytes = []\<rparr>\<rparr>,
     \<lparr>result = ResultNull, readyState = LOADING,
      blob = Some \<lparr>file_name = js ''b'', file_type = js ''t'', file_bytes = []\<rparr>,
      onload_closure = Some \<lparr>file_name = js ''b'', file_type = js ''t'', file_bytes = []\<rparr>\<rparr>]"
proof -
  let ?a = "\<lparr>file_name = js ''a'', file_type = js ''t'', file_bytes = []\<rparr>"
  let ?b = "\<lparr>file_name = js ''b'', file_type = js ''t'', file_bytes = []\<rparr>"
  have "heap_run data_url [HSelect ?a, HLoad 0, HSelect ?b] [] =
      Some [\<lparr>result = ResultString (data_url ?a), readyState = DONE, blob = Some ?a,
        onload_closure = Some ?a\<rparr>,
       \<lparr>result = ResultNull, readyState = LOADING, blob = Some ?b,
        onload_closure = Some ?b\<rparr>]"
    by (simp add: heap_fire_def handleFileSelect_heap_Inr finish_load_def)
  then show ?thesis
    by (rule readers_of_the_page_are_well_formed)
qed

section \<open>The page as a whole\<close>

text \<open>
  C20 (the page simulates the event loop): a run of the page, with its heap of
  readers, its store and its router, is a run of the event loop on the queue of
  pending files: the events correspond one to one (a reader is named by its place
  in the queue) and the worlds agree at the end. Everything proved of the
  reachable worlds holds of the pages a run reaches.
\<close>

theorem page_run_simulates_run:
  assumes "page_run enc es p = Some p'" and "heap_ok (page_heap p)"
  shows "run enc (abstract_events enc es (page_heap p)) (world_of p) = Some (world_of p')"
  using assms
proof (induction rule: page_run_induct)
  case (Nil p)
  show ?case by simp
next
  case (Cons e es p p1 p')
  from Cons.IH [OF heap_ok_page_fire [OF Cons.prems Cons.hyps(1)]]
    world_of_page_fire [OF Cons.prems Cons.hyps(1)] page_heap_page_fire [OF Cons.hyps(1)]
  show ?case by simp
qed

theorem page_run_simulates_run_witness:
  "run data_url (abstract_events data_url
       [HSelect \<lparr>file_name = js ''a'', file_type = js ''t'', file_bytes = []\<rparr>, HLoad 0] [])
     (initial (empty_storage 100) (js ''/'')) =
   Some (world_of (page_load data_url 0
     (page_select \<lparr>file_name = js ''a'', file_type = js ''t'', file_bytes = []\<rparr>
       (initial_page (empty_storage 100) (js ''/'')))))"
proof -
  let ?f = "\<lparr>file_name = js ''a'', file_type = js ''t'', file_bytes = []\<rparr>"
  have "heap_ok (page_heap (initial_page (empty_storage 100) (js ''/'')))"
    by simp
  moreover have "page_run data_url [HSelect ?f, HLoad 0] (initial_page (empty_storage 100) (js ''/'')) =
      Some (page_load data_url 0 (page_select ?f (initial_page (empty_storage 100) (js ''/''))))"
    by (simp add: page_fire_def page_select_def handleFileSelect_heap_Inr)
  ultimately show ?thesis
    using page_run_simulates_run by fastforce
qed

text \<open>
  C11 (the page hands the file off): on the freshly mounted page, when a file whose
  media type has no comma is selected and its reader finishes with room in the
  store, the handler has created one reader, which is done; the page is at
  \<open>/editor\<close> with the location it came from behind it; no exception was
  reported; and a reader of the store that parses the record and decodes its
  \<open>fileData\<close> obtains the file that was selected, with its name, type and bytes.
\<close>

theorem page_hands_off_the_file:
  assumes ty: "comma \<notin> set (file_type file)"
    and room: "fits storage_key (uploadedFile_text file (data_url file)) st"
  shows "\<exists>p. page_run data_url [HSelect file, HLoad 0] (initial_page st loc) = Some p \<and>
     page_location p = editor_path \<and> page_history p = [loc] \<and> page_uncaught p = [] \<and>
     map readyState (page_heap p) = [DONE] \<and>
     Option.bind (read_uploadedFile (page_storage p)) file_of_record = Some file"
proof -
  let ?text = "uploadedFile_text file (data_url file)"
  let ?st = "st\<lparr>items := AList.update storage_key ?text (items st)\<rparr>"
  let ?cell = "\<lparr>result = ResultString (data_url file), readyState = DONE, blob = Some file,
    onload_closure = Some file\<rparr>"
  let ?p = "\<lparr>page_storage = ?st, page_location = editor_path, page_history = [loc],
    page_heap = [?cell], page_uncaught = []\<rparr>"
  from room have stored: "setItem storage_key ?text st = Inr ?st"
    by (simp add: setItem_fits_iff)
  have "page_select file (initial_page st loc) = (initial_page st loc)
      \<lparr>page_heap := [\<lparr>result = ResultNull, readyState = LOADING, blob = Some file,
        onload_closure = Some file\<rparr>]\<rparr>"
    by (simp add: page_select_def handleFileSelect_heap_def new_FileReader_def
        assign_onload_def readAsDataURL_def initial_page_def)
  moreover have "page_load data_url 0 ((initial_page st loc)
      \<lparr>page_heap := [\<lparr>result = ResultNull, readyState = LOADING, blob = Some file,
        onload_closure = Some file\<rparr>]\<rparr>) = ?p"
    by (simp add: page_load_def finish_load_def event_of_def world_of_def put_world_def
        initial_page_def onload_def result_string_def file_reader.truncate_def
        setLocation_def stored pending_files_def loading_def)
  ultimately have run: "page_run data_url [HSelect file, HLoad 0] (initial_page st loc) = Some ?p"
    by (simp add: page_fire_def)
  have "getItem storage_key ?st = Some (JSON_stringify (object_of (fileData_obj file (data_url file))))"
    by (simp add: getItem_def AList.update_conv' uploadedFile_text_def)
  then have "read_uploadedFile ?st = Some (fileData_obj file (data_url file))"
    by (rule read_uploadedFile_stored)
  with run show ?thesis
    by (simp add: file_of_record_data_url [OF ty])
qed

theorem page_hands_off_the_file_witness:
  "\<exists>p. page_run data_url
       [HSelect \<lparr>file_name = js ''a'', file_type = js ''t'', file_bytes = [0x4D]\<rparr>, HLoad 0]
       (initial_page (empty_storage 100) (js ''/'')) = Some p \<and>
     page_location p = editor_path \<and> page_history p = [js ''/''] \<and> page_uncaught p = [] \<and>
     map readyState (page_heap p) = [DONE] \<and>
     Option.bind (read_uploadedFile (page_storage p)) file_of_record =
       Some \<lparr>file_name = js ''a'', file_type = js ''t'', file_bytes = [0x4D]\<rparr>"
  by (rule page_hands_off_the_file) (simp_all add: eval_simps)

text \<open>
  C15 (the page goes nowhere but to the editor): after any run from the freshly
  mounted page, either the page is where it was mounted, with no history and the
  store as it was, or it is at \<open>/editor\<close>, its history is the place of
  mounting under earlier visits to \<open>/editor\<close>, and the store holds the record of
  some file.
\<close>

theorem page_enters_only_the_editor:
  assumes "page_run enc es (initial_page st loc) = Some p"
  shows "(page_location p = loc \<and> page_history p = [] \<and> page_storage p = st) \<or>
     (page_location p = editor_path \<and>
      page_history p = replicate (length (page_history p) - 1) editor_path @ [loc] \<and>
      (\<exists>file. getItem storage_key (page_storage p) = Some (uploadedFile_text file (enc file))))"
proof -
  have "heap_ok (page_heap (initial_page st loc))"
    and "reachable enc (initial st loc) (world_of (initial_page st loc))"
    by (simp_all add: reachable.init)
  with assms have reach: "reachable enc (initial st loc) (world_of p)"
    by (rule page_run_reachable)
  note either = reachable_untouched_or_navigated [OF reach]
  from reachable_trail [OF reach] show ?thesis
  proof (cases rule: trail_cases)
    case home
    with either have "untouched (initial st loc) (world_of p)"
      by (auto simp: navigated_def)
    with home show ?thesis
      by (simp add: untouched_def)
  next
    case editor
    with either have "navigated enc (initial st loc) (world_of p)"
      by (auto simp: untouched_def)
    then have "\<exists>file. getItem storage_key (page_storage p) =
        Some (uploadedFile_text file (enc file))"
      by (simp add: navigated_def)
    moreover from editor(1) have "page_location p = editor_path"
      by simp
    moreover from editor(3) have
      "page_history p = replicate (length (page_history p) - 1) editor_path @ [loc]"
      by (simp only: world_of_simps)
    ultimately show ?thesis
      by blast
  qed
qed

theorem page_enters_only_the_editor_witness:
  "page_location (page_load data_url 0
     (page_select \<lparr>file_name = js ''a'', file_type = js ''t'', file_bytes = []\<rparr>
       (initial_page (empty_storage 100) (js ''/'')))) = editor_path"
proof -
  let ?f = "\<lparr>file_name = js ''a'', file_type = js ''t'', file_bytes = []\<rparr>"
  let ?p = "page_load data_url 0 (page_select ?f (initial_page (empty_storage 100) (js ''/'')))"
  have run: "page_run data_url [HSelect ?f, HLoad 0] (initial_page (empty_storage 100) (js ''/'')) =
      Some ?p"
    by (simp add: page_fire_def page_select_def handleFileSelect_heap_Inr)
  have "page_storage ?p \<noteq> empty_storage 100"
    by (simp add: eval_simps)
  with page_enters_only_the_editor [OF run] show ?thesis
    by blast
qed

text \<open>
  C13 (readers never go back): along any run of the page a reader stays in the
  heap and its \<open>readyState\<close> never decreases in the order \<open>EMPTY\<close>, \<open>LOADING\<close>,
  \<open>DONE\<close>: a reader that is done is never started again.
\<close>

theorem readers_never_go_back:
  assumes "page_run enc es p = Some p'" and "reader < length (page_heap p)"
  shows "reader < length (page_heap p') \<and>
     readyState (page_heap p ! reader) \<le> readyState (page_heap p' ! reader)"
  using page_heap_page_run [OF assms(1)] assms(2) by (rule readyState_heap_run)

theorem readers_never_go_back_witness:
  "LOADING \<le> readyState (page_heap (page_load data_url 0
     (page_select \<lparr>file_name = js ''a'', file_type = js ''t'', file_bytes = []\<rparr>
       (initial_page (empty_storage 100) (js ''/'')))) ! 0)"
proof -
  let ?f = "\<lparr>file_name = js ''a'', file_type = js ''t'', file_bytes = []\<rparr>"
  let ?p = "page_select ?f (initial_page (empty_storage 100) (js ''/''))"
  have "page_run data_url [HLoad 0] ?p = Some (page_load data_url 0 ?p)"
    "0 < length (page_heap ?p)"
    by (simp_all add: page_fire_def page_select_def handleFileSelect_heap_Inr)
  from readers_never_go_back [OF this] show ?thesis
    by (simp add: page_select_def handleFileSelect_heap_Inr)
qed

end
